(* ===== verification/Rin_Prelude.thy ===== *)
theory Rin_Prelude
  imports Main "HOL-Library.Word"
begin

text \<open>
  Shared vocabulary of the development: the C integer types as words, pointers to C objects,
  the byte helpers that every translation unit of the network code defines for itself
  (\<open>byte_equal\<close>, \<open>byte_tail_zero\<close>, \<open>load_be16\<close>, \<open>store_be32\<close>, ...), and the generic facts about
  lists and words that the component proofs use.

  A C array is a list whose length is the array bound; a slice (a pointer and a size) is the
  list of the bytes it covers. Local offsets and counters, which every loop keeps below the size
  of a message buffer, are \<^typ>\<open>nat\<close>.
\<close>

unbundle bit_operations_syntax

section \<open>Types\<close>

type_synonym u8 = "8 word"
type_synonym u16 = "16 word"
type_synonym u32 = "32 word"
type_synonym u64 = "64 word"
type_synonym bytes = "u8 list"

text \<open>A C pointer: \<open>NULL\<close>, or the address of an object together with its current contents.\<close>

datatype 'a cptr = Null | Ptr (cptr_addr: u64) (cptr_val: 'a)

definition ptr_address :: "'a cptr \<Rightarrow> u64" where
  "ptr_address p = (case p of Null \<Rightarrow> 0 | Ptr a _ \<Rightarrow> a)"

abbreviation (input) UINT8_MAX :: u8 where "UINT8_MAX \<equiv> 0xff"
abbreviation (input) UINT16_MAX :: u16 where "UINT16_MAX \<equiv> 0xffff"
abbreviation (input) UINT32_MAX :: u32 where "UINT32_MAX \<equiv> 0xffffffff"
abbreviation (input) UINT64_MAX :: u64 where "UINT64_MAX \<equiv> 0xffffffffffffffff"

named_theorems wf_simps \<open>lengths of the arrays inside C structures\<close>
named_theorems nat_simps \<open>reading machine words as natural numbers\<close>

lemmas word_order_nat [nat_simps] = word_less_nat_alt word_le_nat_alt

section \<open>Byte helpers\<close>

text \<open>\<open>byte_zero\<close>, \<open>byte_copy\<close>: the first \<open>n\<close> bytes become zero; a copy into a buffer at an offset.\<close>

definition zero_bytes :: "nat \<Rightarrow> bytes" where
  "zero_bytes n = replicate n 0"

definition byte_copy :: "bytes \<Rightarrow> nat \<Rightarrow> bytes \<Rightarrow> bytes" where
  "byte_copy destination offset source =
     take offset destination @ source @ drop (offset + length source) destination"

text \<open>The comparison loop: it visits every byte and accumulates the differences.\<close>

fun byte_difference :: "bytes \<Rightarrow> bytes \<Rightarrow> u8 \<Rightarrow> u8" where
  "byte_difference (a # as) (b # bs) difference =
     byte_difference as bs (difference OR (a XOR b))"
| "byte_difference _ _ difference = difference"

definition byte_equal :: "bytes \<Rightarrow> bytes \<Rightarrow> nat \<Rightarrow> bool" where
  "byte_equal left right n =
     (byte_difference (take n left) (take n right) 0 = 0)"

fun byte_accumulate :: "bytes \<Rightarrow> u8 \<Rightarrow> u8" where
  "byte_accumulate [] acc = acc"
| "byte_accumulate (b # bs) acc = byte_accumulate bs (acc OR b)"

definition byte_all_zero :: "bytes \<Rightarrow> bool" where
  "byte_all_zero bs = list_all (\<lambda>b. b = 0) bs"

definition byte_tail_zero :: "bytes \<Rightarrow> nat \<Rightarrow> nat \<Rightarrow> bool" where
  "byte_tail_zero bs offset capacity =
     list_all (\<lambda>b. b = 0) (drop offset (take capacity bs))"

text \<open>Big-endian loads and stores.\<close>

definition load_be16 :: "bytes \<Rightarrow> u16" where
  "load_be16 bs = push_bit 8 (ucast (bs ! 0)) OR ucast (bs ! 1)"

definition load_be32 :: "bytes \<Rightarrow> u32" where
  "load_be32 bs = push_bit 24 (ucast (bs ! 0)) OR push_bit 16 (ucast (bs ! 1)) OR
     push_bit 8 (ucast (bs ! 2)) OR ucast (bs ! 3)"

definition store_be16 :: "u16 \<Rightarrow> bytes" where
  "store_be16 value = [ucast (drop_bit 8 value), ucast value]"

definition store_be32 :: "u32 \<Rightarrow> bytes" where
  "store_be32 value = [ucast (drop_bit 24 value), ucast (drop_bit 16 value),
     ucast (drop_bit 8 value), ucast value]"

text \<open>A 24-bit transaction identifier in the bytes 1 to 3 of a message.\<close>

definition load_xid :: "bytes \<Rightarrow> u32" where
  "load_xid message = push_bit 16 (ucast (message ! 1)) OR
     push_bit 8 (ucast (message ! 2)) OR ucast (message ! 3)"

section \<open>Overlap of two objects\<close>

definition memory_overlaps :: "u64 \<Rightarrow> u64 \<Rightarrow> u64 \<Rightarrow> u64 \<Rightarrow> bool" where
  "memory_overlaps object object_size memory memory_size =
     (if object = 0 \<or> memory = 0 \<or> object_size = 0 \<or> memory_size = 0 then False
      else if object \<le> memory then memory - object < object_size
      else object - memory < memory_size)"

section \<open>Lemmas on bytes\<close>

lemma word_xor_eq_0 [simp]: "(x XOR y = (0 :: 'a::len word)) = (x = y)"
  by (auto simp: bit_eq_iff bit_simps)

lemma byte_difference_eq_0:
  "length xs = length ys \<Longrightarrow> (byte_difference xs ys d = 0) = (d = 0 \<and> xs = ys)"
  by (induction xs ys d rule: byte_difference.induct) (auto simp: or_eq_0_iff)

text \<open>The accumulating comparison decides equality of the two prefixes.\<close>

lemma byte_equal_iff:
  "n \<le> length left \<Longrightarrow> n \<le> length right \<Longrightarrow>
     byte_equal left right n = (take n left = take n right)"
  by (simp add: byte_equal_def byte_difference_eq_0)

lemma byte_accumulate_eq_0:
  "(byte_accumulate bs acc = 0) = (acc = 0 \<and> (\<forall>b \<in> set bs. b = 0))"
  by (induction bs acc rule: byte_accumulate.induct) (auto simp: or_eq_0_iff)

lemma list_all_zero_replicate: "list_all (\<lambda>b. b = z) bs = (bs = replicate (length bs) z)"
  by (induction bs) auto

lemma byte_all_zero_iff: "byte_all_zero bs = (bs = zero_bytes (length bs))"
  by (simp add: byte_all_zero_def zero_bytes_def list_all_zero_replicate)

lemma byte_all_zero_zero_bytes [simp]: "byte_all_zero (zero_bytes n)"
  by (simp add: byte_all_zero_def zero_bytes_def list_all_length)

lemma length_zero_bytes [simp]: "length (zero_bytes n) = n"
  by (simp add: zero_bytes_def)

lemma take_zero_bytes [simp]: "take m (zero_bytes n) = zero_bytes (min m n)"
  by (simp add: zero_bytes_def)

lemma drop_zero_bytes [simp]: "drop m (zero_bytes n) = zero_bytes (n - m)"
  by (simp add: zero_bytes_def)

lemma byte_tail_zero_zero_bytes [simp]: "byte_tail_zero (zero_bytes n) m k"
  by (simp add: byte_tail_zero_def zero_bytes_def list_all_length)

lemma length_byte_copy:
  "offset + length source \<le> length destination \<Longrightarrow>
     length (byte_copy destination offset source) = length destination"
  by (simp add: byte_copy_def)

lemma take_byte_copy:
  "offset \<le> length destination \<Longrightarrow>
     take (offset + length source) (byte_copy destination offset source) =
       take offset destination @ source"
  by (simp add: byte_copy_def)

lemma byte_copy_0 [simp]:
  "byte_copy destination 0 source = source @ drop (length source) destination"
  by (simp add: byte_copy_def)

lemma byte_tail_zero_copy:
  assumes "offset + length source \<le> length destination"
    and "byte_tail_zero destination offset capacity"
    and "capacity = length destination"
  shows "byte_tail_zero (byte_copy destination offset source) (offset + length source) capacity"
proof -
  have "set (drop (offset + length source) destination) \<subseteq> set (drop offset destination)"
    by (rule set_drop_subset_set_drop) simp
  then show ?thesis
    using assms by (auto simp: byte_tail_zero_def byte_copy_def list_all_iff)
qed

section \<open>Loads and stores are inverse\<close>

lemma length_store_be16 [simp]: "length (store_be16 v) = 2"
  by (simp add: store_be16_def)

lemma length_store_be32 [simp]: "length (store_be32 v) = 4"
  by (simp add: store_be32_def)

lemma load_store_be16 [simp]: "load_be16 (store_be16 v @ rest) = v"
  by (rule bit_word_eqI) (auto simp: load_be16_def store_be16_def bit_simps)

lemma load_store_be32 [simp]: "load_be32 (store_be32 v @ rest) = v"
proof (rule bit_word_eqI)
  fix n assume "n < LENGTH(32)"
  then consider "n < 8" | "8 \<le> n" "n < 16" | "16 \<le> n" "n < 24" | "24 \<le> n" "n < 32"
    by fastforce
  then show "bit (load_be32 (store_be32 v @ rest)) n = bit v n"
    by cases (auto simp: load_be32_def store_be32_def bit_simps)
qed

lemma nth_0_1: "2 \<le> length bs \<Longrightarrow> take 2 bs = [bs ! 0, bs ! 1]"
  by (cases bs; cases "tl bs") (auto simp: numeral_2_eq_2)

lemma store_load_be16: "2 \<le> length bs \<Longrightarrow> store_be16 (load_be16 bs) = take 2 bs"
  by (auto simp: nth_0_1 load_be16_def store_be16_def intro!: bit_word_eqI)
    (auto simp: bit_simps dest: bit_imp_le_length)

lemma unat_ucast_widen:
  "LENGTH('a) \<le> LENGTH('b) \<Longrightarrow> unat (ucast (x :: 'a::len word) :: 'b::len word) = unat x"
  by (simp add: unsigned_ucast_eq take_bit_nat_eq_self_iff)
    (meson order_less_le_trans one_le_numeral power_increasing unsigned_less)

lemma unat_ucast_up [simp]: "unat (ucast (x :: u32) :: u64) = unat x"
  by (rule unat_ucast_widen) simp

lemma unat_ucast_u16_u32 [simp]: "unat (ucast (x :: u16) :: u32) = unat x"
  by (rule unat_ucast_widen) simp

section \<open>The overlap check\<close>

text \<open>\<open>memory_overlaps\<close> decides whether two objects share a byte, for objects that do not run past
  the end of the address space and with \<open>NULL\<close> overlapping nothing.\<close>

theorem memory_overlaps_iff:
  assumes "object \<noteq> 0" and "memory \<noteq> 0"
    and "unat object + unat object_size \<le> 2 ^ 64" and "unat memory + unat memory_size \<le> 2 ^ 64"
  shows "memory_overlaps object object_size memory memory_size \<longleftrightarrow>
    {unat object ..< unat object + unat object_size} \<inter>
    {unat memory ..< unat memory + unat memory_size} \<noteq> {}"
proof -
  have sizes: "object_size = 0 \<longleftrightarrow> unat object_size = 0" "memory_size = 0 \<longleftrightarrow> unat memory_size = 0"
    by (simp_all add: unat_eq_zero)
  have overlap: "{a ..< a + n} \<inter> {b ..< b + m} \<noteq> {} \<longleftrightarrow> n \<noteq> 0 \<and> m \<noteq> 0 \<and> (if a \<le> b then b - a < n else a - b < m)"
    for a b n m :: nat
  proof -
    have "{a ..< a + n} \<inter> {b ..< b + m} = {max a b ..< min (a + n) (b + m)}" by auto
    then show ?thesis by auto
  qed
  show ?thesis
  proof (cases "object \<le> memory")
    case True
    then have "unat (memory - object) = unat memory - unat object" by (simp add: unat_sub)
    with True assms(1,2) sizes show ?thesis
      by (auto simp: memory_overlaps_def overlap word_less_nat_alt word_le_nat_alt)
  next
    case False
    then have "unat (object - memory) = unat object - unat memory" by (simp add: unat_sub)
    with False assms(1,2) sizes show ?thesis
      by (auto simp: memory_overlaps_def overlap word_less_nat_alt word_le_nat_alt)
  qed
qed

theorem memory_overlaps_iff_witness:
  "memory_overlaps 0x1000 840 0x1100 552 \<and>
   {unat (0x1000 :: u64) ..< unat (0x1000 :: u64) + unat (840 :: u64)} \<inter>
   {unat (0x1100 :: u64) ..< unat (0x1100 :: u64) + unat (552 :: u64)} \<noteq> {}"
proof -
  have "memory_overlaps 0x1000 840 0x1100 552" by code_simp
  with memory_overlaps_iff [of "0x1000" "0x1100" 840 552] show ?thesis by simp
qed

end
