(* ===== verification/Dhcpv6_Types.thy ===== *)
theory Dhcpv6_Types
  imports Rin_Prelude
begin

text \<open>
  The data of the DHCPv6 client, from \<open>include/rinruntime/rin_dhcpv6_client.h\<close>: the limits, the
  enumerations (status codes are C \<open>int\<close>s, states and message kinds are stored in \<open>uint32_t\<close>
  fields), and the records \<open>RinDhcpv6TransmitV1\<close>, \<open>RinDhcpv6LeaseV1\<close>, \<open>RinDhcpv6ClientV1\<close> and their
  version 2 extensions. The \<open>wf_\<close> predicates say that the arrays inside a record have their
  declared lengths, which is so for every C object. The structures have no padding (their
  asserted sizes are the sums of their members), so comparing or clearing the bytes of an object
  is comparing or clearing the record.
\<close>

section \<open>Limits and enumerations\<close>

abbreviation (input) RIN_DHCPV6_CLIENT_VERSION :: u32 where "RIN_DHCPV6_CLIENT_VERSION \<equiv> 1"
abbreviation (input) RIN_DHCPV6_CLIENT_V2_VERSION :: u32 where "RIN_DHCPV6_CLIENT_V2_VERSION \<equiv> 2"
abbreviation (input) RIN_DHCPV6_MAX_MESSAGE_SIZE :: nat where "RIN_DHCPV6_MAX_MESSAGE_SIZE \<equiv> 512"
abbreviation (input) RIN_DHCPV6_MAX_DUID_SIZE :: nat where "RIN_DHCPV6_MAX_DUID_SIZE \<equiv> 32"
abbreviation (input) RIN_DHCPV6_MAX_DNS_SERVERS :: nat where "RIN_DHCPV6_MAX_DNS_SERVERS \<equiv> 3"
abbreviation (input) RIN_DHCPV6_MAX_IA_ADDRESSES :: nat where "RIN_DHCPV6_MAX_IA_ADDRESSES \<equiv> 4"

text \<open>\<open>RinDhcpv6Status\<close>\<close>

abbreviation (input) RIN_DHCPV6_OK :: int where "RIN_DHCPV6_OK \<equiv> 0"
abbreviation (input) RIN_DHCPV6_PACKET_READY :: int where "RIN_DHCPV6_PACKET_READY \<equiv> 1"
abbreviation (input) RIN_DHCPV6_OFFER_READY :: int where "RIN_DHCPV6_OFFER_READY \<equiv> 2"
abbreviation (input) RIN_DHCPV6_LEASE_READY :: int where "RIN_DHCPV6_LEASE_READY \<equiv> 3"
abbreviation (input) RIN_DHCPV6_LEASE_EXPIRED :: int where "RIN_DHCPV6_LEASE_EXPIRED \<equiv> 4"
abbreviation (input) RIN_DHCPV6_INVALID_ARGUMENT :: int where "RIN_DHCPV6_INVALID_ARGUMENT \<equiv> - 1"
abbreviation (input) RIN_DHCPV6_INVALID_STATE :: int where "RIN_DHCPV6_INVALID_STATE \<equiv> - 2"
abbreviation (input) RIN_DHCPV6_MALFORMED_PACKET :: int where "RIN_DHCPV6_MALFORMED_PACKET \<equiv> - 3"
abbreviation (input) RIN_DHCPV6_NOT_FOR_US :: int where "RIN_DHCPV6_NOT_FOR_US \<equiv> - 4"
abbreviation (input) RIN_DHCPV6_SERVER_REJECTED :: int where "RIN_DHCPV6_SERVER_REJECTED \<equiv> - 5"
abbreviation (input) RIN_DHCPV6_CLOCK_ROLLBACK :: int where "RIN_DHCPV6_CLOCK_ROLLBACK \<equiv> - 6"
abbreviation (input) RIN_DHCPV6_BUSY :: int where "RIN_DHCPV6_BUSY \<equiv> - 7"
abbreviation (input) RIN_DHCPV6_RANGE_EXHAUSTED :: int where "RIN_DHCPV6_RANGE_EXHAUSTED \<equiv> - 8"
abbreviation (input) RIN_DHCPV6_NOT_FOUND :: int where "RIN_DHCPV6_NOT_FOUND \<equiv> - 9"

text \<open>\<open>RinDhcpv6ClientState\<close>\<close>

abbreviation (input) RIN_DHCPV6_STATE_IDLE :: u32 where "RIN_DHCPV6_STATE_IDLE \<equiv> 0"
abbreviation (input) RIN_DHCPV6_STATE_SOLICITING :: u32 where "RIN_DHCPV6_STATE_SOLICITING \<equiv> 1"
abbreviation (input) RIN_DHCPV6_STATE_ADVERTISED :: u32 where "RIN_DHCPV6_STATE_ADVERTISED \<equiv> 2"
abbreviation (input) RIN_DHCPV6_STATE_REQUESTING :: u32 where "RIN_DHCPV6_STATE_REQUESTING \<equiv> 3"
abbreviation (input) RIN_DHCPV6_STATE_BOUND :: u32 where "RIN_DHCPV6_STATE_BOUND \<equiv> 4"
abbreviation (input) RIN_DHCPV6_STATE_RENEWING :: u32 where "RIN_DHCPV6_STATE_RENEWING \<equiv> 5"
abbreviation (input) RIN_DHCPV6_STATE_REBINDING :: u32 where "RIN_DHCPV6_STATE_REBINDING \<equiv> 6"
abbreviation (input) RIN_DHCPV6_STATE_INFORMATION_REQUESTING :: u32 where "RIN_DHCPV6_STATE_INFORMATION_REQUESTING \<equiv> 7"
abbreviation (input) RIN_DHCPV6_STATE_INFORMATION_BOUND :: u32 where "RIN_DHCPV6_STATE_INFORMATION_BOUND \<equiv> 8"
abbreviation (input) RIN_DHCPV6_STATE_RECONFIGURE_INFORMATION_REQUESTING :: u32 where "RIN_DHCPV6_STATE_RECONFIGURE_INFORMATION_REQUESTING \<equiv> 9"
abbreviation (input) RIN_DHCPV6_STATE_RECONFIGURE_REBINDING :: u32 where "RIN_DHCPV6_STATE_RECONFIGURE_REBINDING \<equiv> 10"

text \<open>\<open>RinDhcpv6TransmitKind\<close> and \<open>RinDhcpv6ClientMode\<close>\<close>

abbreviation (input) RIN_DHCPV6_TRANSMIT_NONE :: u32 where "RIN_DHCPV6_TRANSMIT_NONE \<equiv> 0"
abbreviation (input) RIN_DHCPV6_TRANSMIT_SOLICIT :: u32 where "RIN_DHCPV6_TRANSMIT_SOLICIT \<equiv> 1"
abbreviation (input) RIN_DHCPV6_TRANSMIT_REQUEST :: u32 where "RIN_DHCPV6_TRANSMIT_REQUEST \<equiv> 3"
abbreviation (input) RIN_DHCPV6_TRANSMIT_RENEW :: u32 where "RIN_DHCPV6_TRANSMIT_RENEW \<equiv> 5"
abbreviation (input) RIN_DHCPV6_TRANSMIT_REBIND :: u32 where "RIN_DHCPV6_TRANSMIT_REBIND \<equiv> 6"
abbreviation (input) RIN_DHCPV6_TRANSMIT_INFORMATION_REQUEST :: u32 where "RIN_DHCPV6_TRANSMIT_INFORMATION_REQUEST \<equiv> 11"
abbreviation (input) RIN_DHCPV6_CLIENT_MODE_STATEFUL :: u32 where "RIN_DHCPV6_CLIENT_MODE_STATEFUL \<equiv> 0"
abbreviation (input) RIN_DHCPV6_CLIENT_MODE_INFORMATION :: u32 where "RIN_DHCPV6_CLIENT_MODE_INFORMATION \<equiv> 1"

section \<open>Records\<close>

record dhcpv6_transmit =
  tx_version :: u32
  tx_struct_size :: u32
  tx_owner_generation :: u64
  tx_sequence :: u32
  tx_reserved :: u32
  tx_prepared_at_ms :: u64
  tx_kind :: u32
  tx_message_size :: u32
  tx_message :: bytes

record dhcpv6_lease =
  ls_version :: u32
  ls_struct_size :: u32
  ls_interface_generation :: u64
  ls_lease_generation :: u64
  ls_preferred_until_ms :: u64
  ls_renew_at_ms :: u64
  ls_rebind_at_ms :: u64
  ls_expires_at_ms :: u64
  ls_dns_server_count :: u32
  ls_state :: u32
  ls_address :: bytes
  ls_dns_servers :: "bytes list"

record dhcpv6_client =
  c_version :: u32
  c_struct_size :: u32
  c_initialized :: u32
  c_state :: u32
  c_interface_generation :: u64
  c_generation :: u64
  c_last_now_ms :: u64
  c_transaction_started_ms :: u64
  c_next_transmit_ms :: u64
  c_retry_ms :: u64
  c_lease_generation :: u64
  c_next_lease_generation :: u64
  c_preferred_until_ms :: u64
  c_renew_at_ms :: u64
  c_rebind_at_ms :: u64
  c_expires_at_ms :: u64
  c_iaid :: u32
  c_transaction_id :: u32
  c_duid_size :: u32
  c_server_duid_size :: u32
  c_dns_server_count :: u32
  c_offer_preferred_seconds :: u32
  c_offer_valid_seconds :: u32
  c_offer_t1_seconds :: u32
  c_offer_t2_seconds :: u32
  c_next_transmit_sequence :: u32
  c_pending_present :: u32
  c_duid :: bytes
  c_server_duid :: bytes
  c_address :: bytes
  c_dns_servers :: "bytes list"
  c_reserved :: u32
  c_pending :: dhcpv6_transmit

record dhcpv6_binding =
  b_address :: bytes
  b_reserved :: u32
  b_reserved_alignment :: u32
  b_preferred_until_ms :: u64
  b_valid_until_ms :: u64
  b_generation :: u64

record dhcpv6_client_v2 =
  v2_version :: u32
  v2_struct_size :: u32
  v2_exchange :: dhcpv6_client
  v2_address_count :: u32
  v2_reserved :: u32
  v2_next_address_generation :: u64
  v2_addresses :: "dhcpv6_binding list"

record dhcpv6_lease_v2 =
  l2_version :: u32
  l2_struct_size :: u32
  l2_interface_generation :: u64
  l2_lease_generation :: u64
  l2_renew_at_ms :: u64
  l2_rebind_at_ms :: u64
  l2_expires_at_ms :: u64
  l2_address_count :: u32
  l2_dns_server_count :: u32
  l2_state :: u32
  l2_reserved :: u32
  l2_addresses :: "dhcpv6_binding list"
  l2_dns_servers :: "bytes list"

text \<open>Sizes asserted by the source.\<close>

abbreviation (input) sizeof_transmit :: u32 where "sizeof_transmit \<equiv> 552"
abbreviation (input) sizeof_lease :: u32 where "sizeof_lease \<equiv> 128"
abbreviation (input) sizeof_client :: u32 where "sizeof_client \<equiv> 840"
abbreviation (input) sizeof_client_v2 :: u32 where "sizeof_client_v2 \<equiv> 1056"
abbreviation (input) sizeof_lease_v2 :: u32 where "sizeof_lease_v2 \<equiv> 304"

section \<open>Cleared objects\<close>

definition zero_transmit :: dhcpv6_transmit where
  "zero_transmit = \<lparr>tx_version = 0, tx_struct_size = 0, tx_owner_generation = 0, tx_sequence = 0,
     tx_reserved = 0, tx_prepared_at_ms = 0, tx_kind = 0, tx_message_size = 0,
     tx_message = zero_bytes 512\<rparr>"

definition zero_lease :: dhcpv6_lease where
  "zero_lease = \<lparr>ls_version = 0, ls_struct_size = 0, ls_interface_generation = 0,
     ls_lease_generation = 0, ls_preferred_until_ms = 0, ls_renew_at_ms = 0, ls_rebind_at_ms = 0,
     ls_expires_at_ms = 0, ls_dns_server_count = 0, ls_state = 0, ls_address = zero_bytes 16,
     ls_dns_servers = replicate 3 (zero_bytes 16)\<rparr>"

definition zero_client :: dhcpv6_client where
  "zero_client = \<lparr>c_version = 0, c_struct_size = 0, c_initialized = 0, c_state = 0,
     c_interface_generation = 0, c_generation = 0, c_last_now_ms = 0,
     c_transaction_started_ms = 0, c_next_transmit_ms = 0, c_retry_ms = 0, c_lease_generation = 0,
     c_next_lease_generation = 0, c_preferred_until_ms = 0, c_renew_at_ms = 0, c_rebind_at_ms = 0,
     c_expires_at_ms = 0, c_iaid = 0, c_transaction_id = 0, c_duid_size = 0,
     c_server_duid_size = 0, c_dns_server_count = 0, c_offer_preferred_seconds = 0,
     c_offer_valid_seconds = 0, c_offer_t1_seconds = 0, c_offer_t2_seconds = 0,
     c_next_transmit_sequence = 0, c_pending_present = 0, c_duid = zero_bytes 32,
     c_server_duid = zero_bytes 32, c_address = zero_bytes 16,
     c_dns_servers = replicate 3 (zero_bytes 16), c_reserved = 0, c_pending = zero_transmit\<rparr>"

definition zero_binding :: dhcpv6_binding where
  "zero_binding = \<lparr>b_address = zero_bytes 16, b_reserved = 0, b_reserved_alignment = 0,
     b_preferred_until_ms = 0, b_valid_until_ms = 0, b_generation = 0\<rparr>"

definition zero_client_v2 :: dhcpv6_client_v2 where
  "zero_client_v2 = \<lparr>v2_version = 0, v2_struct_size = 0, v2_exchange = zero_client,
     v2_address_count = 0, v2_reserved = 0, v2_next_address_generation = 0,
     v2_addresses = replicate 4 zero_binding\<rparr>"

definition zero_lease_v2 :: dhcpv6_lease_v2 where
  "zero_lease_v2 = \<lparr>l2_version = 0, l2_struct_size = 0, l2_interface_generation = 0,
     l2_lease_generation = 0, l2_renew_at_ms = 0, l2_rebind_at_ms = 0, l2_expires_at_ms = 0,
     l2_address_count = 0, l2_dns_server_count = 0, l2_state = 0, l2_reserved = 0,
     l2_addresses = replicate 4 zero_binding, l2_dns_servers = replicate 3 (zero_bytes 16)\<rparr>"

section \<open>Array lengths\<close>

definition wf_transmit :: "dhcpv6_transmit \<Rightarrow> bool" where
  "wf_transmit t = (length (tx_message t) = 512)"

definition wf_dns :: "bytes list \<Rightarrow> bool" where
  "wf_dns servers = (length servers = 3 \<and> list_all (\<lambda>s. length s = 16) servers)"

definition wf_client :: "dhcpv6_client \<Rightarrow> bool" where
  "wf_client c = (length (c_duid c) = 32 \<and> length (c_server_duid c) = 32 \<and>
     length (c_address c) = 16 \<and> wf_dns (c_dns_servers c) \<and> wf_transmit (c_pending c))"

definition wf_binding :: "dhcpv6_binding \<Rightarrow> bool" where
  "wf_binding b = (length (b_address b) = 16)"

definition wf_client_v2 :: "dhcpv6_client_v2 \<Rightarrow> bool" where
  "wf_client_v2 c = (wf_client (v2_exchange c) \<and> length (v2_addresses c) = 4 \<and>
     list_all wf_binding (v2_addresses c))"

lemma wf_zero [simp]: "wf_transmit zero_transmit" "wf_client zero_client"
    "wf_binding zero_binding" "wf_client_v2 zero_client_v2"
  by (simp_all add: wf_transmit_def zero_transmit_def wf_client_def zero_client_def wf_dns_def
      wf_binding_def zero_binding_def wf_client_v2_def zero_client_v2_def list_all_length)

lemma wf_dns_zero [simp]: "wf_dns (replicate 3 (zero_bytes 16))"
  by (simp add: wf_dns_def list_all_iff)

lemma wf_clientD [wf_simps]:
  assumes "wf_client c"
  shows "length (c_duid c) = 32" "length (c_server_duid c) = 32" "length (c_address c) = 16"
    "wf_dns (c_dns_servers c)" "length (c_dns_servers c) = 3" "wf_transmit (c_pending c)"
    "length (tx_message (c_pending c)) = 512"
  using assms by (auto simp: wf_client_def wf_dns_def wf_transmit_def)

end
