(* ===== verification/Dhcpv6_Wire.thy ===== *)
theory Dhcpv6_Wire
  imports Dhcpv6_Types
begin

text \<open>
  The wire format of \<open>src/rin_dhcpv6_client.c\<close>: identifiers, addresses and lifetimes, the bounded
  message writer and \<open>build_message\<close>, and the parser \<open>parse_message\<close> with its nested walks over
  IA_NA and IAADDR options. Every C loop over options has the same frame (four header bytes, a
  length check, then the body), which is \<open>next_option\<close> and \<open>option_walk\<close> here; the loop bodies are
  the step functions. \<open>options_encode\<close> and \<open>options_decode\<close> are the specification of an option
  stream; the lemmas relate writer and parser to it.
\<close>

section \<open>Constants of the translation unit\<close>

abbreviation (input) DHCPV6_MESSAGE_ADVERTISE :: u8 where "DHCPV6_MESSAGE_ADVERTISE \<equiv> 2"
abbreviation (input) DHCPV6_MESSAGE_REPLY :: u8 where "DHCPV6_MESSAGE_REPLY \<equiv> 7"
abbreviation (input) DHCPV6_OPTION_CLIENT_ID :: u16 where "DHCPV6_OPTION_CLIENT_ID \<equiv> 1"
abbreviation (input) DHCPV6_OPTION_SERVER_ID :: u16 where "DHCPV6_OPTION_SERVER_ID \<equiv> 2"
abbreviation (input) DHCPV6_OPTION_IA_NA :: u16 where "DHCPV6_OPTION_IA_NA \<equiv> 3"
abbreviation (input) DHCPV6_OPTION_IA_ADDRESS :: u16 where "DHCPV6_OPTION_IA_ADDRESS \<equiv> 5"
abbreviation (input) DHCPV6_OPTION_ORO :: u16 where "DHCPV6_OPTION_ORO \<equiv> 6"
abbreviation (input) DHCPV6_OPTION_PREFERENCE :: u16 where "DHCPV6_OPTION_PREFERENCE \<equiv> 7"
abbreviation (input) DHCPV6_OPTION_ELAPSED_TIME :: u16 where "DHCPV6_OPTION_ELAPSED_TIME \<equiv> 8"
abbreviation (input) DHCPV6_OPTION_STATUS_CODE :: u16 where "DHCPV6_OPTION_STATUS_CODE \<equiv> 13"
abbreviation (input) DHCPV6_OPTION_RECONFIGURE_ACCEPT :: u16
  where "DHCPV6_OPTION_RECONFIGURE_ACCEPT \<equiv> 20"
abbreviation (input) DHCPV6_OPTION_DNS_SERVERS :: u16 where "DHCPV6_OPTION_DNS_SERVERS \<equiv> 23"
abbreviation (input) DHCPV6_OPTION_INFORMATION_REFRESH_TIME :: u16
  where "DHCPV6_OPTION_INFORMATION_REFRESH_TIME \<equiv> 32"
abbreviation (input) DHCPV6_OPTION_SOL_MAX_RT :: u16 where "DHCPV6_OPTION_SOL_MAX_RT \<equiv> 82"
abbreviation (input) DHCPV6_OPTION_INF_MAX_RT :: u16 where "DHCPV6_OPTION_INF_MAX_RT \<equiv> 83"
abbreviation (input) DHCPV6_MIN_VALID_SECONDS :: u32 where "DHCPV6_MIN_VALID_SECONDS \<equiv> 60"
abbreviation (input) DHCPV6_MAX_VALID_SECONDS :: u32 where "DHCPV6_MAX_VALID_SECONDS \<equiv> 2592000"
abbreviation (input) DHCPV6_RETRANSMISSION_NOT_STARTED :: u32
  where "DHCPV6_RETRANSMISSION_NOT_STARTED \<equiv> UINT32_MAX"
abbreviation (input) DHCPV6_MAX_OPTIONS :: nat where "DHCPV6_MAX_OPTIONS \<equiv> 32"
abbreviation (input) DHCPV6_MAX_NESTED_OPTIONS :: nat where "DHCPV6_MAX_NESTED_OPTIONS \<equiv> 16"
abbreviation (input) DHCPV6_INFORMATION_REFRESH_DEFAULT_SECONDS :: u32
  where "DHCPV6_INFORMATION_REFRESH_DEFAULT_SECONDS \<equiv> 86400"
abbreviation (input) DHCPV6_INFORMATION_REFRESH_MIN_SECONDS :: u32
  where "DHCPV6_INFORMATION_REFRESH_MIN_SECONDS \<equiv> 600"
abbreviation (input) DHCPV6_INFORMATION_REFRESH_MAX_SECONDS :: u32
  where "DHCPV6_INFORMATION_REFRESH_MAX_SECONDS \<equiv> 86400"

section \<open>Identifiers, addresses, lifetimes\<close>

definition duid_valid :: "bytes \<Rightarrow> nat \<Rightarrow> bool" where
  "duid_valid duid n =
     (if n < 5 \<or> n > RIN_DHCPV6_MAX_DUID_SIZE then False
      else let type = load_be16 duid in
        if (type = 1 \<and> n < 9) \<or> (type = 2 \<and> n < 7) \<or> (type = 3 \<and> n < 5) \<or>
           (type = 4 \<and> n \<noteq> 18) \<or> type = 0 \<or> type > 4
        then False
        else byte_accumulate (drop 2 (take n duid)) 0 \<noteq> 0)"

definition address_usable :: "bytes \<Rightarrow> bool" where
  "address_usable address =
     (if address ! 0 = 0xff \<or> (address ! 0 = 0xfe \<and> address ! 1 AND 0xc0 = 0x80) then False
      else byte_accumulate (take 16 address) 0 \<noteq> 0)"

definition dns_address_usable :: "bytes \<Rightarrow> bool" where
  "dns_address_usable address = address_usable address"

text \<open>\<open>lifetimes_normalize\<close> updates \<open>t1\<close> and \<open>t2\<close> in place; \<^const>\<open>None\<close> is its failure.\<close>

definition lifetimes_normalize :: "u32 \<Rightarrow> u32 \<Rightarrow> u32 \<Rightarrow> u32 \<Rightarrow> (u32 \<times> u32) option" where
  "lifetimes_normalize valid preferred t1 t2 =
     (if valid < DHCPV6_MIN_VALID_SECONDS \<or> valid > DHCPV6_MAX_VALID_SECONDS \<or> preferred > valid
      then None
      else if t1 = 0 \<and> t2 = 0 then
        (let t1' = valid div 2;
             t2' = (valid div 5) * 4;
             t2'' = (if t2' \<ge> valid then valid - 1 else t2')
         in if t1' \<noteq> 0 \<and> t1' < t2'' \<and> t2'' < valid then Some (t1', t2'') else None)
      else if t1 = 0 \<or> t2 = 0 then None
      else if t1 \<noteq> 0 \<and> t1 < t2 \<and> t2 < valid then Some (t1, t2) else None)"

definition information_refresh_normalize :: "u32 \<Rightarrow> u32" where
  "information_refresh_normalize refresh_seconds =
     (let r = (if refresh_seconds = 0 then DHCPV6_INFORMATION_REFRESH_DEFAULT_SECONDS
               else refresh_seconds);
          r' = (if r < DHCPV6_INFORMATION_REFRESH_MIN_SECONDS
                then DHCPV6_INFORMATION_REFRESH_MIN_SECONDS else r)
      in if r' > DHCPV6_INFORMATION_REFRESH_MAX_SECONDS
         then DHCPV6_INFORMATION_REFRESH_MAX_SECONDS else r')"

definition deadline_from_seconds :: "u64 \<Rightarrow> u32 \<Rightarrow> u64 option" where
  "deadline_from_seconds now_ms seconds =
     (let duration = ucast seconds * 1000
      in if now_ms > UINT64_MAX - duration then None else Some (now_ms + duration))"

section \<open>The message writer\<close>

record message_writer =
  mw_bytes :: bytes
  mw_size :: nat
  mw_capacity :: nat

definition append_bytes :: "message_writer \<Rightarrow> bytes \<Rightarrow> message_writer option" where
  "append_bytes writer bs =
     (if mw_size writer > mw_capacity writer \<or>
         length bs > mw_capacity writer - mw_size writer
      then None
      else Some (writer\<lparr>mw_bytes := byte_copy (mw_bytes writer) (mw_size writer) bs,
                        mw_size := mw_size writer + length bs\<rparr>))"

definition append_option :: "message_writer \<Rightarrow> u16 \<Rightarrow> bytes \<Rightarrow> message_writer option" where
  "append_option writer code value =
     Option.bind (append_bytes writer (store_be16 code @ store_be16 (of_nat (length value))))
       (\<lambda>writer. append_bytes writer value)"

definition append_ia_na :: "message_writer \<Rightarrow> dhcpv6_client \<Rightarrow> bool \<Rightarrow> message_writer option" where
  "append_ia_na writer client include_address =
     append_option writer DHCPV6_OPTION_IA_NA
       (store_be32 (c_iaid client) @ zero_bytes 8 @
        (if include_address
         then store_be16 DHCPV6_OPTION_IA_ADDRESS @ store_be16 24 @
              take 16 (c_address client) @ zero_bytes 8
         else []))"

text \<open>The elapsed time and the option request list of \<open>build_message\<close>.\<close>

definition elapsed_centiseconds :: "dhcpv6_client \<Rightarrow> u32 \<Rightarrow> u64 \<Rightarrow> u16" where
  "elapsed_centiseconds client transaction_id now_ms =
     (let e = (if transaction_id = c_transaction_id client \<and>
                  c_offer_t1_seconds client \<noteq> DHCPV6_RETRANSMISSION_NOT_STARTED \<and>
                  now_ms \<ge> c_transaction_started_ms client
               then (now_ms - c_transaction_started_ms client) div 10 else 0)
      in ucast (if e > 0xffff then 0xffff else e))"

definition option_request :: "u32 \<Rightarrow> bytes" where
  "option_request kind =
     store_be16 DHCPV6_OPTION_DNS_SERVERS @
     (if kind = RIN_DHCPV6_TRANSMIT_SOLICIT \<or> kind = RIN_DHCPV6_TRANSMIT_REQUEST \<or>
         kind = RIN_DHCPV6_TRANSMIT_RENEW \<or> kind = RIN_DHCPV6_TRANSMIT_REBIND
      then store_be16 DHCPV6_OPTION_SOL_MAX_RT
      else if kind = RIN_DHCPV6_TRANSMIT_INFORMATION_REQUEST
      then store_be16 DHCPV6_OPTION_INFORMATION_REFRESH_TIME @ store_be16 DHCPV6_OPTION_INF_MAX_RT
      else [])"

definition build_options :: "dhcpv6_client \<Rightarrow> u32 \<Rightarrow> u32 \<Rightarrow> u64 \<Rightarrow> message_writer \<Rightarrow>
    message_writer option" where
  "build_options client kind transaction_id now_ms writer =
     Option.bind (append_option writer DHCPV6_OPTION_CLIENT_ID
       (take (unat (c_duid_size client)) (c_duid client))) (\<lambda>writer.
     Option.bind (if kind = RIN_DHCPV6_TRANSMIT_REQUEST \<or> kind = RIN_DHCPV6_TRANSMIT_RENEW
       then append_option writer DHCPV6_OPTION_SERVER_ID
         (take (unat (c_server_duid_size client)) (c_server_duid client))
       else Some writer) (\<lambda>writer.
     Option.bind (append_option writer DHCPV6_OPTION_ELAPSED_TIME
       (store_be16 (elapsed_centiseconds client transaction_id now_ms))) (\<lambda>writer.
     Option.bind (if kind \<noteq> RIN_DHCPV6_TRANSMIT_INFORMATION_REQUEST
       then append_ia_na writer client
         (kind \<noteq> RIN_DHCPV6_TRANSMIT_SOLICIT \<and> kind \<noteq> RIN_DHCPV6_TRANSMIT_INFORMATION_REQUEST)
       else Some writer) (\<lambda>writer.
     Option.bind (append_option writer DHCPV6_OPTION_ORO (option_request kind)) (\<lambda>writer.
     append_option writer DHCPV6_OPTION_RECONFIGURE_ACCEPT [])))))"

definition build_message :: "dhcpv6_client \<Rightarrow> u32 \<Rightarrow> u32 \<Rightarrow> u64 \<Rightarrow> int + dhcpv6_transmit" where
  "build_message client kind transaction_id now_ms =
     (if transaction_id = 0 \<or> transaction_id > 0x00ffffff then Inl RIN_DHCPV6_INVALID_ARGUMENT
      else
        let header = [ucast kind, ucast (drop_bit 16 transaction_id),
                      ucast (drop_bit 8 transaction_id), ucast transaction_id];
            writer = \<lparr>mw_bytes = byte_copy (zero_bytes 512) 0 header, mw_size = 4,
                      mw_capacity = 512\<rparr>
        in case build_options client kind transaction_id now_ms writer of
             None \<Rightarrow> Inl RIN_DHCPV6_RANGE_EXHAUSTED
           | Some writer' \<Rightarrow> Inr (zero_transmit\<lparr>
               tx_version := RIN_DHCPV6_CLIENT_VERSION,
               tx_struct_size := sizeof_transmit,
               tx_owner_generation := c_generation client,
               tx_prepared_at_ms := now_ms,
               tx_kind := kind,
               tx_message := mw_bytes writer',
               tx_message_size := of_nat (mw_size writer')\<rparr>))"

section \<open>Walking an option stream\<close>

text \<open>One option: its code, its value, and the bytes behind it; \<^const>\<open>None\<close> when it is cut off.\<close>

definition next_option :: "bytes \<Rightarrow> (u16 \<times> bytes \<times> bytes) option" where
  "next_option rest =
     (if length rest < 4 then None
      else let code = load_be16 rest; len = unat (load_be16 (drop 2 rest)); body = drop 4 rest
        in if len > length body then None else Some (code, take len body, drop len body))"

lemma next_option_shrinks: "next_option rest = Some (code, value, rest') \<Longrightarrow> length rest' < length rest"
  by (auto simp: next_option_def Let_def split: if_splits)

function option_walk :: "int \<Rightarrow> (u16 \<Rightarrow> bytes \<Rightarrow> 'a \<Rightarrow> int + 'a) \<Rightarrow> bytes \<Rightarrow> 'a \<Rightarrow> int + 'a" where
  "option_walk malformed step rest acc =
     (if rest = [] then Inr acc
      else case next_option rest of
          None \<Rightarrow> Inl malformed
        | Some (code, value, rest') \<Rightarrow>
            (case step code value acc of
               Inl e \<Rightarrow> Inl e
             | Inr acc' \<Rightarrow> option_walk malformed step rest' acc'))"
  by pat_completeness auto
termination
  by (relation "measure (\<lambda>(malformed, step, rest, acc). length rest)")
    (auto dest: next_option_shrinks)

declare option_walk.simps [simp del]

text \<open>The option counter that bounds a walk.\<close>

definition counted :: "nat \<Rightarrow> int \<Rightarrow> (u16 \<Rightarrow> bytes \<Rightarrow> 'a \<Rightarrow> int + 'a) \<Rightarrow>
    u16 \<Rightarrow> bytes \<Rightarrow> nat \<times> 'a \<Rightarrow> int + nat \<times> 'a" where
  "counted limit malformed step code value acc =
     (if Suc (fst acc) > limit then Inl malformed
      else case step code value (snd acc) of
          Inl e \<Rightarrow> Inl e | Inr a \<Rightarrow> Inr (Suc (fst acc), a))"

section \<open>The parser\<close>

record parsed_ia_address =
  pia_address :: bytes
  pia_preferred_seconds :: u32
  pia_valid_seconds :: u32
  pia_status_code :: u32

record parsed_message =
  pm_client_duid :: bytes
  pm_server_duid :: bytes
  pm_address :: bytes
  pm_ia_addresses :: "parsed_ia_address list"
  pm_dns_servers :: "bytes list"
  pm_preferred_seconds :: u32
  pm_valid_seconds :: u32
  pm_t1_seconds :: u32
  pm_t2_seconds :: u32
  pm_status_code :: u32
  pm_iaid :: u32
  pm_client_seen :: bool
  pm_server_seen :: bool
  pm_ia_seen :: bool
  pm_address_seen :: bool
  pm_dns_seen :: bool
  pm_status_seen :: bool
  pm_preference_seen :: bool
  pm_information_refresh_seconds :: u32
  pm_information_refresh_seen :: bool
  pm_sol_max_rt_seconds :: u32
  pm_sol_max_rt_seen :: bool
  pm_inf_max_rt_seconds :: u32
  pm_inf_max_rt_seen :: bool
  pm_structural_valid :: bool

text \<open>
  The counted arrays \<open>ia_addresses\<close> and \<open>dns_servers\<close> are lists of the stored entries; the
  pointer and size pairs of the two DUIDs are slices.
\<close>

definition zero_parsed :: parsed_message where
  "zero_parsed = \<lparr>pm_client_duid = [], pm_server_duid = [], pm_address = zero_bytes 16,
     pm_ia_addresses = [], pm_dns_servers = [], pm_preferred_seconds = 0, pm_valid_seconds = 0,
     pm_t1_seconds = 0, pm_t2_seconds = 0, pm_status_code = 0, pm_iaid = 0,
     pm_client_seen = False, pm_server_seen = False, pm_ia_seen = False, pm_address_seen = False,
     pm_dns_seen = False, pm_status_seen = False, pm_preference_seen = False,
     pm_information_refresh_seconds = 0, pm_information_refresh_seen = False,
     pm_sol_max_rt_seconds = 0, pm_sol_max_rt_seen = False, pm_inf_max_rt_seconds = 0,
     pm_inf_max_rt_seen = False, pm_structural_valid = False\<rparr>"

text \<open>The body of the loop over the options inside an IAADDR: (status seen, status code).\<close>

definition parse_iaaddr_suboption :: "u16 \<Rightarrow> bytes \<Rightarrow> bool \<times> u32 \<Rightarrow> int + bool \<times> u32" where
  "parse_iaaddr_suboption code value acc =
     (if code = DHCPV6_OPTION_STATUS_CODE then
        (if fst acc \<or> length value < 2 then Inl RIN_DHCPV6_MALFORMED_PACKET
         else Inr (True, ucast (load_be16 value)))
      else Inr acc)"

text \<open>
  One IAADDR option of an IA_NA, and the storing of its address, which becomes the selected one
  when none is selected so far or when it is alive and the selected one is withdrawn.
\<close>

definition store_ia_address :: "parsed_ia_address \<Rightarrow> parsed_message \<Rightarrow> parsed_message" where
  "store_ia_address candidate parsed =
     (let stored = parsed\<lparr>pm_address_seen := True,
            pm_ia_addresses := pm_ia_addresses parsed @ [candidate]\<rparr>
      in if pia_status_code candidate = 0 \<and>
            (\<not> address_usable (pm_address parsed) \<or>
             (pia_valid_seconds candidate \<noteq> 0 \<and> pm_valid_seconds parsed = 0))
         then stored\<lparr>pm_address := pia_address candidate,
                     pm_preferred_seconds := pia_preferred_seconds candidate,
                     pm_valid_seconds := pia_valid_seconds candidate\<rparr>
         else stored)"

definition parse_iaaddr :: "bytes \<Rightarrow> parsed_message \<Rightarrow> int + parsed_message" where
  "parse_iaaddr value parsed =
     (if length (pm_ia_addresses parsed) \<ge> RIN_DHCPV6_MAX_IA_ADDRESSES \<or> length value < 24
      then Inl RIN_DHCPV6_MALFORMED_PACKET
      else
        let address = take 16 value;
            preferred = load_be32 (drop 16 value);
            valid = load_be32 (drop 20 value)
        in if \<not> address_usable address \<or> valid > DHCPV6_MAX_VALID_SECONDS \<or> preferred > valid \<or>
              (valid = 0 \<and> preferred \<noteq> 0)
           then Inl RIN_DHCPV6_MALFORMED_PACKET
           else if list_ex (\<lambda>prior. byte_equal (pia_address prior) address 16)
                     (pm_ia_addresses parsed)
           then Inl RIN_DHCPV6_MALFORMED_PACKET
           else case option_walk RIN_DHCPV6_MALFORMED_PACKET
                  (counted DHCPV6_MAX_NESTED_OPTIONS RIN_DHCPV6_MALFORMED_PACKET
                     parse_iaaddr_suboption)
                  (drop 24 value) (0, False, 0) of
               Inl e \<Rightarrow> Inl e
             | Inr (_, _, status) \<Rightarrow>
                 Inr (store_ia_address \<lparr>pia_address = address, pia_preferred_seconds = preferred,
                        pia_valid_seconds = valid, pia_status_code = status\<rparr> parsed))"

text \<open>The body of the loop in \<open>parse_ia_na\<close>: (nested status seen, parsed message).\<close>

definition parse_ia_option ::
    "u16 \<Rightarrow> bytes \<Rightarrow> bool \<times> parsed_message \<Rightarrow> int + bool \<times> parsed_message" where
  "parse_ia_option code value acc =
     (if code = DHCPV6_OPTION_IA_ADDRESS then
        (case parse_iaaddr value (snd acc) of Inl e \<Rightarrow> Inl e | Inr p \<Rightarrow> Inr (fst acc, p))
      else if code = DHCPV6_OPTION_STATUS_CODE then
        (if fst acc \<or> length value < 2 then Inl RIN_DHCPV6_MALFORMED_PACKET
         else Inr (True, if load_be16 value \<noteq> 0
                         then (snd acc)\<lparr>pm_status_code := ucast (load_be16 value)\<rparr>
                         else snd acc))
      else Inr acc)"

definition parse_ia_na :: "bytes \<Rightarrow> parsed_message \<Rightarrow> int + parsed_message" where
  "parse_ia_na value parsed =
     (if length value < 12 then Inl RIN_DHCPV6_MALFORMED_PACKET
      else case option_walk RIN_DHCPV6_MALFORMED_PACKET
             (counted DHCPV6_MAX_NESTED_OPTIONS RIN_DHCPV6_MALFORMED_PACKET parse_ia_option)
             (drop 12 value)
             (0, False, parsed\<lparr>pm_iaid := load_be32 value,
                pm_t1_seconds := load_be32 (drop 4 value),
                pm_t2_seconds := load_be32 (drop 8 value)\<rparr>) of
          Inl e \<Rightarrow> Inl e
        | Inr (_, _, p) \<Rightarrow> Inr p)"

text \<open>The DNS server list: usable, pairwise different addresses.\<close>

fun parse_dns_list :: "nat \<Rightarrow> bytes \<Rightarrow> bytes list \<Rightarrow> bytes list option" where
  "parse_dns_list 0 value servers = Some servers"
| "parse_dns_list (Suc n) value servers =
     (let server = take 16 value in
      if \<not> dns_address_usable server then None
      else if list_ex (\<lambda>previous. byte_equal server previous 16) servers then None
      else parse_dns_list n (drop 16 value) (servers @ [server]))"

text \<open>The body of the loop in \<open>parse_message\<close>.\<close>

definition parse_option :: "u16 \<Rightarrow> bytes \<Rightarrow> parsed_message \<Rightarrow> int + parsed_message" where
  "parse_option code value parsed =
     (if code = DHCPV6_OPTION_CLIENT_ID then
        (if pm_client_seen parsed \<or> \<not> duid_valid value (length value)
         then Inl RIN_DHCPV6_MALFORMED_PACKET
         else Inr (parsed\<lparr>pm_client_seen := True, pm_client_duid := value\<rparr>))
      else if code = DHCPV6_OPTION_SERVER_ID then
        (if pm_server_seen parsed \<or> \<not> duid_valid value (length value)
         then Inl RIN_DHCPV6_MALFORMED_PACKET
         else Inr (parsed\<lparr>pm_server_seen := True, pm_server_duid := value\<rparr>))
      else if code = DHCPV6_OPTION_IA_NA then
        (if pm_ia_seen parsed then Inl RIN_DHCPV6_MALFORMED_PACKET
         else parse_ia_na value (parsed\<lparr>pm_ia_seen := True\<rparr>))
      else if code = DHCPV6_OPTION_DNS_SERVERS then
        (if pm_dns_seen parsed \<or> length value = 0 \<or> length value mod 16 \<noteq> 0 \<or>
            length value div 16 > RIN_DHCPV6_MAX_DNS_SERVERS
         then Inl RIN_DHCPV6_MALFORMED_PACKET
         else case parse_dns_list (length value div 16) value [] of
             None \<Rightarrow> Inl RIN_DHCPV6_MALFORMED_PACKET
           | Some servers \<Rightarrow> Inr (parsed\<lparr>pm_dns_seen := True, pm_dns_servers := servers\<rparr>))
      else if code = DHCPV6_OPTION_STATUS_CODE then
        (if pm_status_seen parsed \<or> length value < 2 then Inl RIN_DHCPV6_MALFORMED_PACKET
         else Inr (if load_be16 value \<noteq> 0
                   then parsed\<lparr>pm_status_seen := True,
                               pm_status_code := ucast (load_be16 value)\<rparr>
                   else parsed\<lparr>pm_status_seen := True\<rparr>))
      else if code = DHCPV6_OPTION_PREFERENCE then
        (if pm_preference_seen parsed \<or> length value \<noteq> 1 then Inl RIN_DHCPV6_MALFORMED_PACKET
         else Inr (parsed\<lparr>pm_preference_seen := True\<rparr>))
      else if code = DHCPV6_OPTION_INFORMATION_REFRESH_TIME then
        (if pm_information_refresh_seen parsed \<or> length value \<noteq> 4
         then Inl RIN_DHCPV6_MALFORMED_PACKET
         else Inr (parsed\<lparr>pm_information_refresh_seen := True,
                          pm_information_refresh_seconds := load_be32 value\<rparr>))
      else if code = DHCPV6_OPTION_SOL_MAX_RT then
        (if pm_sol_max_rt_seen parsed \<or> length value \<noteq> 4 then Inl RIN_DHCPV6_MALFORMED_PACKET
         else Inr (parsed\<lparr>pm_sol_max_rt_seen := True,
                          pm_sol_max_rt_seconds := load_be32 value\<rparr>))
      else if code = DHCPV6_OPTION_INF_MAX_RT then
        (if pm_inf_max_rt_seen parsed \<or> length value \<noteq> 4 then Inl RIN_DHCPV6_MALFORMED_PACKET
         else Inr (parsed\<lparr>pm_inf_max_rt_seen := True,
                          pm_inf_max_rt_seconds := load_be32 value\<rparr>))
      else Inr parsed)"

text \<open>
  \<open>parse_message\<close> over the first \<open>size\<close> bytes of a buffer. The result is the status and the parsed
  record; the callers read the record only with \<open>OK\<close> or \<open>SERVER_REJECTED\<close>.
\<close>

definition parse_message :: "bytes \<Rightarrow> u8 \<Rightarrow> bool \<Rightarrow> int \<times> parsed_message" where
  "parse_message message expected_type require_ia =
     (if length message < 4 \<or> length message > RIN_DHCPV6_MAX_MESSAGE_SIZE \<or>
         message ! 0 \<noteq> expected_type
      then (RIN_DHCPV6_MALFORMED_PACKET, zero_parsed)
      else case option_walk RIN_DHCPV6_MALFORMED_PACKET
             (counted DHCPV6_MAX_OPTIONS RIN_DHCPV6_MALFORMED_PACKET parse_option)
             (drop 4 message) (0, zero_parsed) of
          Inl e \<Rightarrow> (e, zero_parsed)
        | Inr (_, parsed) \<Rightarrow>
            (if \<not> pm_client_seen parsed \<or> \<not> pm_server_seen parsed
             then (RIN_DHCPV6_MALFORMED_PACKET, parsed)
             else let parsed' = parsed\<lparr>pm_structural_valid := True\<rparr> in
               if (require_ia \<and> \<not> pm_ia_seen parsed') \<or>
                  (require_ia \<and> \<not> pm_address_seen parsed' \<and> pm_status_code parsed' = 0) \<or>
                  (\<not> require_ia \<and> (pm_ia_seen parsed' \<or> pm_address_seen parsed'))
               then (RIN_DHCPV6_MALFORMED_PACKET, parsed')
               else (if pm_status_code parsed' = 0 then RIN_DHCPV6_OK
                     else RIN_DHCPV6_SERVER_REJECTED, parsed')))"

section \<open>Specification of an option stream\<close>

definition option_encode :: "u16 \<times> bytes \<Rightarrow> bytes" where
  "option_encode opt = store_be16 (fst opt) @ store_be16 (of_nat (length (snd opt))) @ snd opt"

definition options_encode :: "(u16 \<times> bytes) list \<Rightarrow> bytes" where
  "options_encode opts = concat (map option_encode opts)"

function options_decode :: "bytes \<Rightarrow> (u16 \<times> bytes) list option" where
  "options_decode rest =
     (if rest = [] then Some []
      else case next_option rest of
          None \<Rightarrow> None
        | Some (code, value, rest') \<Rightarrow> map_option (Cons (code, value)) (options_decode rest'))"
  by pat_completeness auto
termination
  by (relation "measure length") (auto dest: next_option_shrinks)

declare options_decode.simps [simp del]

fun option_fold :: "(u16 \<Rightarrow> bytes \<Rightarrow> 'a \<Rightarrow> int + 'a) \<Rightarrow> (u16 \<times> bytes) list \<Rightarrow> 'a \<Rightarrow> int + 'a" where
  "option_fold step [] acc = Inr acc"
| "option_fold step ((code, value) # opts) acc =
     (case step code value acc of Inl e \<Rightarrow> Inl e | Inr acc' \<Rightarrow> option_fold step opts acc')"

text \<open>A stream of bytes and its options determine each other.\<close>

lemma next_option_encode:
  "length value < 2 ^ 16 \<Longrightarrow> next_option (option_encode (code, value) @ rest) = Some (code, value, rest)"
  by (simp add: next_option_def option_encode_def Let_def unat_of_nat)

lemma encode_next_option:
  assumes "next_option bs = Some (code, value, rest)"
  shows "option_encode (code, value) @ rest = bs" and "length value < 2 ^ 16"
proof -
  from assms have len: "4 \<le> length bs" and code: "code = load_be16 bs"
    and vl: "value = take (unat (load_be16 (drop 2 bs))) (drop 4 bs)"
    and rest: "rest = drop (unat (load_be16 (drop 2 bs))) (drop 4 bs)"
    and fits: "unat (load_be16 (drop 2 bs)) \<le> length bs - 4"
    by (auto simp: next_option_def Let_def split: if_splits)
  then have lv: "length value = unat (load_be16 (drop 2 bs))" by simp
  then show "length value < 2 ^ 16" using unsigned_less [of "load_be16 (drop 2 bs)"] by simp
  have "option_encode (code, value) @ rest = take 2 bs @ take 2 (drop 2 bs) @ value @ rest"
    using len by (simp add: option_encode_def lv code store_load_be16)
  also have "value @ rest = drop 4 bs" by (simp only: vl rest append_take_drop_id)
  also have "take 2 bs @ take 2 (drop 2 bs) @ drop 4 bs = take (2 + 2) bs @ drop 4 bs"
    by (simp only: take_add append.assoc)
  also have "\<dots> = bs" by simp
  finally show "option_encode (code, value) @ rest = bs" .
qed

lemma option_encode_nonempty [simp]: "option_encode opt \<noteq> []"
  by (simp add: option_encode_def store_be16_def)

lemma options_decode_Nil [simp]: "options_decode [] = Some []"
  by (simp add: options_decode.simps)

lemma options_decode_encode:
  "list_all (\<lambda>opt. length (snd opt) < 2 ^ 16) opts \<Longrightarrow>
     options_decode (options_encode opts) = Some opts"
proof (induction opts)
  case Nil
  then show ?case by (simp add: options_encode_def)
next
  case (Cons opt opts)
  obtain code v where opt: "opt = (code, v)" by (cases opt)
  from Cons opt have "next_option (options_encode (opt # opts)) =
      Some (code, v, options_encode opts)"
    by (simp add: options_encode_def next_option_encode)
  moreover have "options_encode (opt # opts) \<noteq> []"
    by (simp add: options_encode_def)
  moreover from Cons have "options_decode (options_encode opts) = Some opts" by simp
  ultimately show ?case
    by (simp add: options_decode.simps [of "options_encode ((code, v) # opts)"] opt)
qed

lemma options_encode_decode:
  "options_decode bs = Some opts \<Longrightarrow> options_encode opts = bs"
proof (induction bs arbitrary: opts rule: options_decode.induct)
  case (1 bs)
  show ?case
  proof (cases "bs = []")
    case True
    with "1.prems" show ?thesis by (simp add: options_encode_def)
  next
    case False
    with "1.prems" obtain code v rest opts' where
        n: "next_option bs = Some (code, v, rest)"
      and d: "options_decode rest = Some opts'" and opts: "opts = (code, v) # opts'"
      by (auto simp: options_decode.simps [of bs] split: option.splits)
    from "1.IH" [OF False n refl refl d] have "options_encode opts' = rest" .
    then show ?thesis
      using encode_next_option(1) [OF n] by (simp add: opts options_encode_def)
  qed
qed

text \<open>A walk over the bytes is the fold of its step over the decoded options.\<close>

lemma option_walk_decode:
  "options_decode bs = Some opts \<Longrightarrow> option_walk malformed step bs acc = option_fold step opts acc"
proof (induction bs arbitrary: opts acc rule: options_decode.induct)
  case (1 bs)
  show ?case
  proof (cases "bs = []")
    case True
    with "1.prems" show ?thesis by (simp add: option_walk.simps)
  next
    case False
    with "1.prems" obtain code v rest opts' where
        n: "next_option bs = Some (code, v, rest)"
      and d: "options_decode rest = Some opts'" and opts: "opts = (code, v) # opts'"
      by (auto simp: options_decode.simps [of bs] split: option.splits)
    from "1.IH" [OF False n refl refl d] show ?thesis
      using False by (simp add: option_walk.simps [of _ _ bs] n opts split: sum.splits)
  qed
qed

lemma option_walk_Inr_decodes:
  "option_walk malformed step bs acc = Inr acc' \<Longrightarrow>
     \<exists>opts. options_decode bs = Some opts \<and> option_fold step opts acc = Inr acc'"
proof (induction malformed step bs acc rule: option_walk.induct)
  case (1 malformed step bs acc)
  show ?case
  proof (cases "bs = []")
    case True
    with "1.prems" show ?thesis by (simp add: option_walk.simps)
  next
    case False
    with "1.prems" obtain code v rest a where
        n: "next_option bs = Some (code, v, rest)"
      and s: "step code v acc = Inr a"
      and w: "option_walk malformed step rest a = Inr acc'"
      by (auto simp: option_walk.simps [of _ _ bs] split: option.splits sum.splits)
    from "1.IH" [OF False n refl refl s w] show ?thesis
      using False by (auto simp: options_decode.simps [of bs] n s)
  qed
qed

text \<open>What holds of the status of a malformed stream and of every status of the body holds of the
  status of the walk.\<close>

lemma option_walk_status:
  assumes "option_walk malformed step bs acc = Inl e" and "P malformed"
    and "\<And>code v a e. step code v a = Inl e \<Longrightarrow> P e"
  shows "P e"
  using assms
proof (induction malformed step bs acc rule: option_walk.induct)
  case (1 malformed step bs acc)
  then have "bs \<noteq> []" by (auto simp: option_walk.simps)
  show ?case
  proof (cases "next_option bs")
    case None
    with "1.prems"(1,2) \<open>bs \<noteq> []\<close> show ?thesis by (simp add: option_walk.simps [of _ _ bs])
  next
    case (Some o3)
    obtain code v rest where o3: "o3 = (code, v, rest)" by (cases o3)
    show ?thesis
    proof (cases "step code v acc")
      case (Inl e')
      with Some o3 "1.prems"(1) \<open>bs \<noteq> []\<close> have "step code v acc = Inl e"
        by (simp add: option_walk.simps [of _ _ bs])
      then show ?thesis by (rule "1.prems"(3))
    next
      case (Inr a)
      with Some o3 "1.prems"(1) \<open>bs \<noteq> []\<close> have "option_walk malformed step rest a = Inl e"
        by (simp add: option_walk.simps [of _ _ bs])
      from "1.IH" [OF \<open>bs \<noteq> []\<close> Some o3 [symmetric] refl Inr this "1.prems"(2,3)] show ?thesis .
    qed
  qed
qed

lemma option_walk_error:
  assumes "option_walk malformed step bs acc = Inl e"
    and "\<And>code v a e. step code v a = Inl e \<Longrightarrow> e = malformed"
  shows "e = malformed"
  using option_walk_status [OF assms(1), of "\<lambda>e. e = malformed"] assms(2) by blast

section \<open>Consumers of an option stream\<close>

lemma counted_pair:
  "counted limit malformed step code v (n, a) =
     (if Suc n > limit then Inl malformed
      else case step code v a of Inl e \<Rightarrow> Inl e | Inr b \<Rightarrow> Inr (Suc n, b))"
  by (simp add: counted_def split: sum.split)

text \<open>
  What a loop body promises to the walk around it: it keeps an invariant of the parse state. Then
  so does every bounded walk, and the walk accepted at most as many options as its bound.
\<close>

locale option_consumer =
  fixes step :: "u16 \<Rightarrow> bytes \<Rightarrow> 'a \<Rightarrow> int + 'a"
    and invar :: "'a \<Rightarrow> bool"
  assumes step_invar: "invar a \<Longrightarrow> step code value a = Inr a' \<Longrightarrow> invar a'"
begin

lemma fold_invar: "invar a \<Longrightarrow> option_fold step opts a = Inr a' \<Longrightarrow> invar a'"
proof (induction opts arbitrary: a)
  case (Cons opt opts)
  obtain code v where opt: "opt = (code, v)" by (cases opt)
  from Cons.prems(2) obtain b where s: "step code v a = Inr b" and f: "option_fold step opts b = Inr a'"
    by (auto simp: opt split: sum.splits)
  from step_invar [OF Cons.prems(1) s] f show ?case by (rule Cons.IH)
qed simp

lemma walk_invar: "invar a \<Longrightarrow> option_walk malformed step bs a = Inr a' \<Longrightarrow> invar a'"
  by (drule option_walk_Inr_decodes) (auto dest: fold_invar)

lemma counted_fold:
  "option_fold (counted limit malformed step) opts (n, a) = Inr (k, a') \<Longrightarrow>
     option_fold step opts a = Inr a' \<and> k = n + length opts \<and> (opts \<noteq> [] \<longrightarrow> k \<le> limit)"
proof (induction opts arbitrary: n a)
  case Nil
  then show ?case by simp
next
  case (Cons opt opts)
  obtain code v where opt: "opt = (code, v)" by (cases opt)
  from Cons.prems obtain b where n: "Suc n \<le> limit" and s: "step code v a = Inr b"
    and f: "option_fold (counted limit malformed step) opts (Suc n, b) = Inr (k, a')"
    by (auto simp: opt counted_pair split: sum.splits if_splits)
  from Cons.IH [OF f] have g: "option_fold step opts b = Inr a'" and k: "k = Suc n + length opts"
    and l: "opts \<noteq> [] \<longrightarrow> k \<le> limit"
    by blast+
  have "k \<le> limit" using n k l by (cases "opts = []") simp_all
  then show ?case using g k s by (simp add: opt)
qed

lemma counted_walk:
  assumes "option_walk malformed (counted limit malformed step) bs (0, a) = Inr (k, a')"
  shows "\<exists>opts. options_decode bs = Some opts \<and> length opts \<le> limit \<and>
    option_fold step opts a = Inr a'"
proof -
  obtain opts where d: "options_decode bs = Some opts"
    and f: "option_fold (counted limit malformed step) opts (0, a) = Inr (k, a')"
    using option_walk_Inr_decodes [OF assms] by blast
  note c = counted_fold [OF f]
  then have "length opts \<le> limit" by (cases opts) auto
  with d c show ?thesis by blast
qed

lemma counted_walk_invar:
  assumes "invar a"
    and "option_walk malformed (counted limit malformed step) bs (0, a) = Inr (k, a')"
  shows "invar a'"
proof -
  obtain opts where "option_fold step opts a = Inr a'"
    using counted_walk [OF assms(2)] by blast
  with assms(1) show ?thesis by (rule fold_invar)
qed

end

text \<open>A loop body that fails with the status of the walk itself.\<close>

locale strict_consumer = option_consumer step invar
  for step :: "u16 \<Rightarrow> bytes \<Rightarrow> 'a \<Rightarrow> int + 'a" and invar :: "'a \<Rightarrow> bool" +
  fixes malformed :: int
  assumes step_error: "step code value a = Inl e \<Longrightarrow> e = malformed"
begin

lemma counted_walk_error:
  assumes "option_walk malformed (counted limit malformed step) bs acc = Inl e"
  shows "e = malformed"
  using assms
proof (rule option_walk_error)
  fix code v and a :: "nat \<times> 'a" and e
  assume "counted limit malformed step code v a = Inl e"
  then show "e = malformed"
    using step_error [of code v "snd a" e] by (auto simp: counted_def split: if_splits sum.splits)
qed

end

section \<open>The writer\<close>

text \<open>The bytes written so far, and the zero bytes behind them.\<close>

definition writer_ok :: "message_writer \<Rightarrow> bool" where
  "writer_ok w = (mw_size w \<le> mw_capacity w \<and> length (mw_bytes w) = mw_capacity w \<and>
     byte_tail_zero (mw_bytes w) (mw_size w) (mw_capacity w))"

definition written :: "message_writer \<Rightarrow> bytes" where
  "written w = take (mw_size w) (mw_bytes w)"

lemma length_written: "writer_ok w \<Longrightarrow> length (written w) = mw_size w"
  by (simp add: written_def writer_ok_def)

lemma append_bytes_ok:
  assumes "writer_ok w" and "mw_size w + length bs \<le> mw_capacity w"
  shows "\<exists>w'. append_bytes w bs = Some w' \<and> writer_ok w' \<and> written w' = written w @ bs \<and>
    mw_capacity w' = mw_capacity w \<and> mw_size w' = mw_size w + length bs"
  using assms
  by (auto simp: append_bytes_def writer_ok_def written_def length_byte_copy take_byte_copy
      byte_tail_zero_copy)

lemma append_option_ok:
  assumes "writer_ok w" and "mw_size w + 4 + length v \<le> mw_capacity w"
  shows "\<exists>w'. append_option w code v = Some w' \<and> writer_ok w' \<and>
    written w' = written w @ option_encode (code, v) \<and>
    mw_capacity w' = mw_capacity w \<and> mw_size w' = mw_size w + 4 + length v"
proof -
  let ?header = "store_be16 code @ store_be16 (of_nat (length v))"
  obtain w1 where w1: "append_bytes w ?header = Some w1" "writer_ok w1"
      "written w1 = written w @ ?header" "mw_capacity w1 = mw_capacity w" "mw_size w1 = mw_size w + 4"
    using append_bytes_ok [of w ?header] assms by auto
  obtain w2 where "append_bytes w1 v = Some w2" "writer_ok w2" "written w2 = written w1 @ v"
      "mw_capacity w2 = mw_capacity w1" "mw_size w2 = mw_size w1 + length v"
    using append_bytes_ok [of w1 v] assms w1 by auto
  with w1 show ?thesis by (simp add: append_option_def option_encode_def)
qed

text \<open>The options of each kind of message, as \<open>build_message\<close> writes them.\<close>

definition message_options :: "dhcpv6_client \<Rightarrow> u32 \<Rightarrow> u32 \<Rightarrow> u64 \<Rightarrow> (u16 \<times> bytes) list" where
  "message_options client kind transaction_id now_ms =
     [(DHCPV6_OPTION_CLIENT_ID, take (unat (c_duid_size client)) (c_duid client))] @
     (if kind = RIN_DHCPV6_TRANSMIT_REQUEST \<or> kind = RIN_DHCPV6_TRANSMIT_RENEW
      then [(DHCPV6_OPTION_SERVER_ID, take (unat (c_server_duid_size client)) (c_server_duid client))]
      else []) @
     [(DHCPV6_OPTION_ELAPSED_TIME, store_be16 (elapsed_centiseconds client transaction_id now_ms))] @
     (if kind \<noteq> RIN_DHCPV6_TRANSMIT_INFORMATION_REQUEST
      then [(DHCPV6_OPTION_IA_NA, store_be32 (c_iaid client) @ zero_bytes 8 @
              (if kind \<noteq> RIN_DHCPV6_TRANSMIT_SOLICIT
               then option_encode (DHCPV6_OPTION_IA_ADDRESS, take 16 (c_address client) @ zero_bytes 8)
               else []))]
      else []) @
     [(DHCPV6_OPTION_ORO, option_request kind), (DHCPV6_OPTION_RECONFIGURE_ACCEPT, [])]"

lemma length_option_request: "length (option_request kind) \<le> 6"
  by (simp add: option_request_def)

lemma append_ia_na_ok:
  assumes "writer_ok w" and "mw_size w + 44 \<le> mw_capacity w" and "length (c_address client) = 16"
  shows "\<exists>w'. append_ia_na w client inc = Some w' \<and> writer_ok w' \<and>
    written w' = written w @ option_encode (DHCPV6_OPTION_IA_NA, store_be32 (c_iaid client) @
      zero_bytes 8 @ (if inc
        then option_encode (DHCPV6_OPTION_IA_ADDRESS, take 16 (c_address client) @ zero_bytes 8)
        else [])) \<and>
    mw_capacity w' = mw_capacity w \<and> mw_size w' \<le> mw_size w + 44"
proof -
  let ?v = "store_be32 (c_iaid client) @ zero_bytes 8 @ (if inc
        then option_encode (DHCPV6_OPTION_IA_ADDRESS, take 16 (c_address client) @ zero_bytes 8)
        else [])"
  have v: "append_ia_na w client inc = append_option w DHCPV6_OPTION_IA_NA ?v"
    using assms(3) by (simp add: append_ia_na_def option_encode_def)
  have "length ?v \<le> 40"
    using assms(3) by (simp add: option_encode_def)
  then show ?thesis
    using append_option_ok [of w ?v DHCPV6_OPTION_IA_NA] assms(1,2) by (auto simp: v)
qed

lemma build_options_ok:
  assumes "writer_ok w" and "mw_size w = 4" and "mw_capacity w = 512"
    and "unat (c_duid_size client) \<le> 32" and "unat (c_server_duid_size client) \<le> 32"
    and "wf_client client"
  shows "\<exists>w'. build_options client kind transaction_id now_ms w = Some w' \<and> writer_ok w' \<and>
    mw_capacity w' = 512 \<and>
    written w' = written w @ options_encode (message_options client kind transaction_id now_ms)"
proof -
  note wf = wf_clientD [OF assms(6)]
  let ?duid = "take (unat (c_duid_size client)) (c_duid client)"
  let ?server = "take (unat (c_server_duid_size client)) (c_server_duid client)"
  let ?elapsed = "store_be16 (elapsed_centiseconds client transaction_id now_ms)"
  obtain w1 where w1: "append_option w DHCPV6_OPTION_CLIENT_ID ?duid = Some w1" "writer_ok w1"
      "written w1 = written w @ option_encode (DHCPV6_OPTION_CLIENT_ID, ?duid)"
      "mw_capacity w1 = 512" "mw_size w1 \<le> 40"
    using append_option_ok [of w ?duid DHCPV6_OPTION_CLIENT_ID] assms(1-4) wf by auto
  let ?inc = "kind = RIN_DHCPV6_TRANSMIT_REQUEST \<or> kind = RIN_DHCPV6_TRANSMIT_RENEW"
  obtain w2 where w2: "(if ?inc then append_option w1 DHCPV6_OPTION_SERVER_ID ?server else Some w1)
      = Some w2" "writer_ok w2" "mw_capacity w2 = 512" "mw_size w2 \<le> 76"
      "written w2 = written w1 @ (if ?inc then option_encode (DHCPV6_OPTION_SERVER_ID, ?server) else [])"
    using append_option_ok [of w1 ?server DHCPV6_OPTION_SERVER_ID] assms(5) wf w1 by (cases ?inc) auto
  obtain w3 where w3: "append_option w2 DHCPV6_OPTION_ELAPSED_TIME ?elapsed = Some w3" "writer_ok w3"
      "written w3 = written w2 @ option_encode (DHCPV6_OPTION_ELAPSED_TIME, ?elapsed)"
      "mw_capacity w3 = 512" "mw_size w3 \<le> 82"
    using append_option_ok [of w2 ?elapsed DHCPV6_OPTION_ELAPSED_TIME] w2 by auto
  let ?addr = "kind \<noteq> RIN_DHCPV6_TRANSMIT_SOLICIT \<and> kind \<noteq> RIN_DHCPV6_TRANSMIT_INFORMATION_REQUEST"
  let ?ia = "store_be32 (c_iaid client) @ zero_bytes 8 @ (if ?addr
        then option_encode (DHCPV6_OPTION_IA_ADDRESS, take 16 (c_address client) @ zero_bytes 8)
        else [])"
  let ?info = "kind = RIN_DHCPV6_TRANSMIT_INFORMATION_REQUEST"
  obtain w4 where w4: "(if kind \<noteq> RIN_DHCPV6_TRANSMIT_INFORMATION_REQUEST
        then append_ia_na w3 client ?addr else Some w3) = Some w4"
      "writer_ok w4" "mw_capacity w4 = 512" "mw_size w4 \<le> 126"
      "written w4 = written w3 @ (if ?info then [] else option_encode (DHCPV6_OPTION_IA_NA, ?ia))"
    using append_ia_na_ok [of w3 client ?addr] wf w3 by (cases ?info) auto
  obtain w5 where w5: "append_option w4 DHCPV6_OPTION_ORO (option_request kind) = Some w5"
      "writer_ok w5" "written w5 = written w4 @ option_encode (DHCPV6_OPTION_ORO, option_request kind)"
      "mw_capacity w5 = 512" "mw_size w5 \<le> 136"
    using append_option_ok [of w4 "option_request kind" DHCPV6_OPTION_ORO] w4
      length_option_request [of kind] by auto
  obtain w6 where w6: "append_option w5 DHCPV6_OPTION_RECONFIGURE_ACCEPT [] = Some w6" "writer_ok w6"
      "written w6 = written w5 @ option_encode (DHCPV6_OPTION_RECONFIGURE_ACCEPT, [])"
      "mw_capacity w6 = 512"
    using append_option_ok [of w5 "[]" DHCPV6_OPTION_RECONFIGURE_ACCEPT] w5 by auto
  have "build_options client kind transaction_id now_ms w = Some w6"
    unfolding build_options_def by (simp add: w1(1) w2(1) w3(1) w4(1) w5(1) w6(1))
  moreover have "written w6 = written w @
      options_encode (message_options client kind transaction_id now_ms)"
    by (simp add: w6(3) w5(3) w4(5) w3(3) w2(5) w1(3) message_options_def options_encode_def)
  ultimately show ?thesis using w6 by blast
qed

definition transaction_header :: "u32 \<Rightarrow> u32 \<Rightarrow> bytes" where
  "transaction_header kind transaction_id = [ucast kind, ucast (drop_bit 16 transaction_id),
     ucast (drop_bit 8 transaction_id), ucast transaction_id]"

text \<open>
  With a transaction identifier of 24 bits and identifiers that fit their buffers, building never
  runs out of room, and what it writes is the header, the options and zero bytes.
\<close>

lemma build_message_ok:
  assumes "wf_client client"
    and "unat (c_duid_size client) \<le> 32" and "unat (c_server_duid_size client) \<le> 32"
    and "transaction_id \<noteq> 0" and "transaction_id \<le> 0x00ffffff"
  shows "\<exists>t. build_message client kind transaction_id now_ms = Inr t \<and> wf_transmit t \<and>
    tx_version t = RIN_DHCPV6_CLIENT_VERSION \<and> tx_struct_size t = sizeof_transmit \<and>
    tx_owner_generation t = c_generation client \<and> tx_sequence t = 0 \<and> tx_reserved t = 0 \<and>
    tx_prepared_at_ms t = now_ms \<and> tx_kind t = kind \<and>
    4 \<le> unat (tx_message_size t) \<and> unat (tx_message_size t) \<le> 512 \<and>
    byte_tail_zero (tx_message t) (unat (tx_message_size t)) 512 \<and>
    take (unat (tx_message_size t)) (tx_message t) = transaction_header kind transaction_id @
      options_encode (message_options client kind transaction_id now_ms)"
proof -
  let ?header = "transaction_header kind transaction_id"
  let ?w = "\<lparr>mw_bytes = byte_copy (zero_bytes 512) 0 ?header, mw_size = 4, mw_capacity = 512\<rparr>"
  have w: "writer_ok ?w" "written ?w = ?header"
    by (simp_all add: writer_ok_def written_def transaction_header_def byte_tail_zero_def
        list_all_iff zero_bytes_def)
  obtain w' where w': "build_options client kind transaction_id now_ms ?w = Some w'" "writer_ok w'"
      "mw_capacity w' = 512"
      "written w' = ?header @ options_encode (message_options client kind transaction_id now_ms)"
    using build_options_ok [OF w(1) _ _ assms(2,3,1), of kind transaction_id now_ms] w(2) by auto
  let ?t = "zero_transmit\<lparr>
               tx_version := RIN_DHCPV6_CLIENT_VERSION,
               tx_struct_size := sizeof_transmit,
               tx_owner_generation := c_generation client,
               tx_prepared_at_ms := now_ms,
               tx_kind := kind,
               tx_message := mw_bytes w',
               tx_message_size := of_nat (mw_size w')\<rparr>"
  have b: "build_message client kind transaction_id now_ms = Inr ?t"
    using assms(4,5) w'(1)
    by (simp add: build_message_def transaction_header_def Let_def not_less)
  have size: "mw_size w' \<le> 512" "length (mw_bytes w') = 512"
    "byte_tail_zero (mw_bytes w') (mw_size w') 512"
    using w'(2,3) by (simp_all add: writer_ok_def)
  have "length (written w') \<ge> 4" by (simp add: w'(4) transaction_header_def)
  then have "4 \<le> mw_size w'" using w'(2) by (simp add: length_written)
  moreover have "unat (of_nat (mw_size w') :: u32) = mw_size w'"
    using size(1) by (simp add: unat_of_nat)
  ultimately show ?thesis
    using b size w'(4) by (simp add: zero_transmit_def wf_transmit_def written_def)
qed

lemma message_options_short:
  assumes "wf_client client"
    and "unat (c_duid_size client) \<le> 32" and "unat (c_server_duid_size client) \<le> 32"
  shows "list_all (\<lambda>opt. length (snd opt) < 2 ^ 16)
    (message_options client kind transaction_id now_ms)"
  using assms(2,3) wf_clientD(1-3) [OF assms(1)] length_option_request [of kind]
  by (auto simp: message_options_def option_encode_def)

lemma load_xid_header:
  assumes "transaction_id \<le> 0x00ffffff"
  shows "load_xid (transaction_header kind transaction_id @ rest) = transaction_id"
proof (rule bit_word_eqI)
  fix n assume n: "n < LENGTH(32)"
  have "take_bit 24 transaction_id = transaction_id"
    using assms by (simp add: word_unat_eq_iff unsigned_take_bit_eq take_bit_nat_eq_self word_le_nat_alt)
  then have high: "24 \<le> n \<Longrightarrow> \<not> bit transaction_id n"
    by (metis bit_take_bit_iff leD)
  from n consider "n < 8" | "8 \<le> n" "n < 16" | "16 \<le> n" "n < 24" | "24 \<le> n" "n < 32"
    by fastforce
  then show "bit (load_xid (transaction_header kind transaction_id @ rest)) n = bit transaction_id n"
    using high by cases (auto simp: load_xid_def transaction_header_def bit_simps dest: bit_imp_le_length)
qed

section \<open>Lifetimes and deadlines\<close>

lemma lifetimes_normalize_ok:
  assumes "lifetimes_normalize valid preferred t1 t2 = Some (t1', t2')"
  shows "t1' \<noteq> 0" "t1' < t2'" "t2' < valid" "preferred \<le> valid" "60 \<le> valid" "valid \<le> 2592000"
    "t1 \<noteq> 0 \<Longrightarrow> t1' = t1 \<and> t2' = t2"
  using assms by (auto simp: lifetimes_normalize_def Let_def not_less not_le split: if_splits)

lemma information_refresh_bounds:
  "600 \<le> information_refresh_normalize r" "information_refresh_normalize r \<le> 86400"
  by (simp_all add: information_refresh_normalize_def Let_def not_less not_le)

lemma unat_u32_less: "unat (s :: u32) < 4294967296"
  by (rule order_less_le_trans [OF unsigned_less]) simp

lemma unat_seconds_ms [simp]: "unat (ucast (s :: u32) * 1000 :: u64) = unat s * 1000"
proof -
  show ?thesis using unat_u32_less [of s] by (simp add: unat_mult_lem [THEN iffD1])
qed

lemma deadline_from_seconds_iff:
  "(deadline_from_seconds now s = Some d) =
     (unat now + unat s * 1000 < 2 ^ 64 \<and> unat d = unat now + unat s * 1000)"
proof -
  have sub: "unat (UINT64_MAX - ucast s * 1000 :: u64) = 2 ^ 64 - 1 - unat s * 1000"
    using unat_u32_less [of s] by (subst unat_sub) (simp_all add: word_le_nat_alt)
  show ?thesis
  proof (cases "unat now + unat s * 1000 < 2 ^ 64")
    case True
    then have "unat (now + ucast s * 1000) = unat now + unat s * 1000"
      by (simp add: unat_add_lem [THEN iffD1])
    with True show ?thesis
      using unat_u32_less [of s] by (auto simp: deadline_from_seconds_def Let_def word_less_nat_alt sub word_unat_eq_iff)
  next
    case False
    then show ?thesis
      using unat_u32_less [of s] by (auto simp: deadline_from_seconds_def Let_def word_less_nat_alt sub)
  qed
qed

section \<open>What an accepted message contains\<close>

definition ia_address_ok :: "parsed_ia_address \<Rightarrow> bool" where
  "ia_address_ok a = (length (pia_address a) = 16 \<and> address_usable (pia_address a) \<and>
     pia_preferred_seconds a \<le> pia_valid_seconds a \<and>
     pia_valid_seconds a \<le> DHCPV6_MAX_VALID_SECONDS)"

text \<open>The selected address is one of the stored ones, or no address is selected.\<close>

definition selection_ok :: "parsed_message \<Rightarrow> bool" where
  "selection_ok p = (length (pm_address p) = 16 \<and>
     (pm_address p = zero_bytes 16 \<and> pm_preferred_seconds p = 0 \<and> pm_valid_seconds p = 0 \<or>
      (\<exists>a \<in> set (pm_ia_addresses p). pia_status_code a = 0 \<and> pia_address a = pm_address p \<and>
         pia_preferred_seconds a = pm_preferred_seconds p \<and>
         pia_valid_seconds a = pm_valid_seconds p)))"

definition parsed_ok :: "parsed_message \<Rightarrow> bool" where
  "parsed_ok p = (list_all ia_address_ok (pm_ia_addresses p) \<and>
     distinct (map pia_address (pm_ia_addresses p)) \<and>
     length (pm_ia_addresses p) \<le> RIN_DHCPV6_MAX_IA_ADDRESSES \<and>
     pm_address_seen p = (pm_ia_addresses p \<noteq> []) \<and>
     selection_ok p \<and>
     list_all (\<lambda>s. length s = 16 \<and> dns_address_usable s) (pm_dns_servers p) \<and>
     distinct (pm_dns_servers p) \<and> length (pm_dns_servers p) \<le> RIN_DHCPV6_MAX_DNS_SERVERS \<and>
     pm_dns_seen p = (pm_dns_servers p \<noteq> []) \<and>
     (pm_client_seen p \<longrightarrow> duid_valid (pm_client_duid p) (length (pm_client_duid p))) \<and>
     (pm_server_seen p \<longrightarrow> duid_valid (pm_server_duid p) (length (pm_server_duid p))))"

lemma zero_parsed_ok [simp]: "parsed_ok zero_parsed"
  by (simp add: parsed_ok_def zero_parsed_def selection_ok_def)

lemma byte_equal_16:
  "length a = 16 \<Longrightarrow> length b = 16 \<Longrightarrow> byte_equal a b 16 = (a = b)"
  by (simp add: byte_equal_iff)

lemma address_usable_zero [simp]: "\<not> address_usable (zero_bytes 16)"
  by (simp add: address_usable_def byte_accumulate_eq_0 zero_bytes_def)

lemma store_ia_address_ok:
  assumes "parsed_ok p" and "ia_address_ok a" and "length (pm_ia_addresses p) < 4"
    and "pia_address a \<notin> pia_address ` set (pm_ia_addresses p)"
  shows "parsed_ok (store_ia_address a p)"
proof -
  have "selection_ok (store_ia_address a p)"
    using assms(1,2) by (auto simp: parsed_ok_def selection_ok_def store_ia_address_def Let_def
        ia_address_ok_def)
  with assms show ?thesis
    by (simp add: parsed_ok_def store_ia_address_def Let_def)
qed

lemma parse_iaaddr_ok:
  assumes "parsed_ok p" and "parse_iaaddr v p = Inr p'"
  shows "parsed_ok p'"
proof -
  let ?a = "\<lambda>s. \<lparr>pia_address = take 16 v, pia_preferred_seconds = load_be32 (drop 16 v),
     pia_valid_seconds = load_be32 (drop 20 v), pia_status_code = s\<rparr>"
  from assms(2) have
    len: "24 \<le> length v" "length (pm_ia_addresses p) < 4" and
    ok: "address_usable (take 16 v)" "load_be32 (drop 20 v) \<le> DHCPV6_MAX_VALID_SECONDS"
      "load_be32 (drop 16 v) \<le> load_be32 (drop 20 v)" and
    new: "\<not> list_ex (\<lambda>prior. byte_equal (pia_address prior) (take 16 v) 16) (pm_ia_addresses p)" and
    p': "\<exists>s. p' = store_ia_address (?a s) p"
    by (simp_all add: parse_iaaddr_def Let_def not_less not_le split: if_splits sum.splits prod.splits)
      blast
  have "take 16 v \<notin> pia_address ` set (pm_ia_addresses p)"
    using new assms(1) len(1)
    by (auto simp: parsed_ok_def list_ex_iff list_all_iff ia_address_ok_def byte_equal_16)
  then show ?thesis
    using p' len ok by (auto intro!: store_ia_address_ok [OF assms(1)] simp: ia_address_ok_def)
qed

interpretation iaaddr_walk: strict_consumer parse_iaaddr_suboption "\<lambda>(seen, status). seen \<or> status = 0"
    RIN_DHCPV6_MALFORMED_PACKET
  by unfold_locales (auto simp: parse_iaaddr_suboption_def split: if_splits)

lemma parse_iaaddr_error: "parse_iaaddr v p = Inl e \<Longrightarrow> e = RIN_DHCPV6_MALFORMED_PACKET"
  by (auto simp: parse_iaaddr_def Let_def dest: iaaddr_walk.counted_walk_error
      split: if_splits sum.splits prod.splits)

lemma parsed_ok_update [simp]:
  "parsed_ok (p\<lparr>pm_status_code := x\<rparr>) = parsed_ok p"
  "parsed_ok (p\<lparr>pm_ia_seen := b\<rparr>) = parsed_ok p"
  "parsed_ok (p\<lparr>pm_structural_valid := b\<rparr>) = parsed_ok p"
  "parsed_ok (p\<lparr>pm_iaid := x, pm_t1_seconds := y, pm_t2_seconds := z\<rparr>) = parsed_ok p"
  "parsed_ok (p\<lparr>pm_status_seen := b\<rparr>) = parsed_ok p"
  "parsed_ok (p\<lparr>pm_status_seen := b, pm_status_code := x\<rparr>) = parsed_ok p"
  "parsed_ok (p\<lparr>pm_preference_seen := b\<rparr>) = parsed_ok p"
  "parsed_ok (p\<lparr>pm_information_refresh_seen := b, pm_information_refresh_seconds := x\<rparr>) = parsed_ok p"
  "parsed_ok (p\<lparr>pm_sol_max_rt_seen := b, pm_sol_max_rt_seconds := x\<rparr>) = parsed_ok p"
  "parsed_ok (p\<lparr>pm_inf_max_rt_seen := b, pm_inf_max_rt_seconds := x\<rparr>) = parsed_ok p"
  by (simp_all add: parsed_ok_def selection_ok_def)

lemma parsed_ok_duid:
  assumes "parsed_ok p" and "duid_valid v (length v)"
  shows "parsed_ok (p\<lparr>pm_client_seen := True, pm_client_duid := v\<rparr>)"
    "parsed_ok (p\<lparr>pm_server_seen := True, pm_server_duid := v\<rparr>)"
  using assms by (simp_all add: parsed_ok_def selection_ok_def)

interpretation ia_walk: strict_consumer parse_ia_option "\<lambda>(_, p). parsed_ok p"
    RIN_DHCPV6_MALFORMED_PACKET
proof
  fix a a' :: "bool \<times> parsed_message" and code :: u16 and v :: bytes
  assume "case a of (_, p) \<Rightarrow> parsed_ok p" and "parse_ia_option code v a = Inr a'"
  then show "case a' of (_, p) \<Rightarrow> parsed_ok p"
    by (cases a) (auto simp: parse_ia_option_def dest: parse_iaaddr_ok split: if_splits sum.splits)
next
  fix a :: "bool \<times> parsed_message" and code :: u16 and v :: bytes and e :: int
  assume "parse_ia_option code v a = Inl e"
  then show "e = RIN_DHCPV6_MALFORMED_PACKET"
    by (auto simp: parse_ia_option_def dest: parse_iaaddr_error split: if_splits sum.splits)
qed

lemma parse_ia_na_ok:
  assumes "parsed_ok p" and "parse_ia_na v p = Inr p'"
  shows "parsed_ok p'"
proof -
  let ?p = "p\<lparr>pm_iaid := load_be32 v, pm_t1_seconds := load_be32 (drop 4 v),
     pm_t2_seconds := load_be32 (drop 8 v)\<rparr>"
  obtain n s where w: "option_walk RIN_DHCPV6_MALFORMED_PACKET
      (counted DHCPV6_MAX_NESTED_OPTIONS RIN_DHCPV6_MALFORMED_PACKET parse_ia_option)
      (drop 12 v) (0, False, ?p) = Inr (n, s, p')"
    using assms(2) by (auto simp: parse_ia_na_def split: if_splits sum.splits prod.splits)
  have "parsed_ok ?p" using assms(1) by simp
  then show ?thesis using ia_walk.counted_walk_invar [OF _ w] by simp
qed

lemma parse_dns_list_ok:
  assumes "parse_dns_list n v servers = Some servers'"
    and "list_all (\<lambda>s. length s = 16 \<and> dns_address_usable s) servers" and "distinct servers"
    and "16 * n \<le> length v"
  shows "list_all (\<lambda>s. length s = 16 \<and> dns_address_usable s) servers' \<and> distinct servers' \<and>
    length servers' = length servers + n"
  using assms
proof (induction n v servers rule: parse_dns_list.induct)
  case (2 n v servers)
  let ?s = "take 16 v"
  have s: "dns_address_usable ?s" "\<not> list_ex (\<lambda>previous. byte_equal ?s previous 16) servers"
    "parse_dns_list n (drop 16 v) (servers @ [?s]) = Some servers'"
    using "2.prems"(1) by (auto simp: Let_def split: if_splits)
  have len: "length ?s = 16" using "2.prems"(4) by simp
  have "?s \<notin> set servers"
    using s(2) len "2.prems"(2) by (auto simp: list_ex_iff list_all_iff byte_equal_16)
  then have "list_all (\<lambda>s. length s = 16 \<and> dns_address_usable s) servers' \<and> distinct servers' \<and>
    length servers' = length (servers @ [?s]) + n"
    using s len "2.prems" by (intro "2.IH" [OF refl]) auto
  then show ?case by simp
qed simp

lemma parse_option_ok:
  assumes "parsed_ok p" and "parse_option code v p = Inr p'"
  shows "parsed_ok p'"
proof -
  have ia: "parsed_ok (p\<lparr>pm_ia_seen := b\<rparr>)" for b
    using assms(1) by (simp add: parsed_ok_def selection_ok_def)
  consider (ia) "code = DHCPV6_OPTION_IA_NA" | (dns) "code = DHCPV6_OPTION_DNS_SERVERS"
    | (other) "code \<noteq> DHCPV6_OPTION_IA_NA" "code \<noteq> DHCPV6_OPTION_DNS_SERVERS" by blast
  then show ?thesis
  proof cases
    case ia
    then show ?thesis using assms(2) parse_ia_na_ok [OF \<open>\<And>b. parsed_ok (p\<lparr>pm_ia_seen := b\<rparr>)\<close>]
      by (auto simp: parse_option_def split: if_splits)
  next
    case dns
    then obtain servers where s: "parse_dns_list (length v div 16) v [] = Some servers"
        "p' = p\<lparr>pm_dns_seen := True, pm_dns_servers := servers\<rparr>"
      and n: "length v \<noteq> 0" "length v mod 16 = 0" "length v div 16 \<le> 3"
      using assms(2) by (auto simp: parse_option_def not_less split: if_splits option.splits)
    have "16 \<le> length v" using n(1,2) by (metis mod_less not_le)
    then have "length servers \<noteq> 0" using parse_dns_list_ok [OF s(1)] n by (auto simp: div_greater_zero_iff)
    then show ?thesis
      using parse_dns_list_ok [OF s(1)] n assms(1) by (auto simp: s(2) parsed_ok_def selection_ok_def)
  next
    case other
    then show ?thesis
      using assms
      by (simp add: parse_option_def split: if_splits) (auto simp: parsed_ok_duid)
  qed
qed

lemma parse_option_error: "parse_option code v p = Inl e \<Longrightarrow> e = RIN_DHCPV6_MALFORMED_PACKET"
  by (auto simp: parse_option_def parse_ia_na_def dest: ia_walk.counted_walk_error
      split: if_splits option.splits sum.splits prod.splits)

interpretation message_walk: strict_consumer parse_option parsed_ok RIN_DHCPV6_MALFORMED_PACKET
  by unfold_locales (rule parse_option_ok parse_option_error; assumption)+

text \<open>What the callers of \<open>parse_message\<close> rely on when it accepts.\<close>

lemma parse_message_ok:
  assumes "parse_message message type require_ia = (status, p)"
    and "status = RIN_DHCPV6_OK \<or> status = RIN_DHCPV6_SERVER_REJECTED"
  shows "parsed_ok p \<and> pm_client_seen p \<and> pm_server_seen p \<and> pm_structural_valid p \<and>
    pm_ia_seen p = require_ia \<and> (status = RIN_DHCPV6_OK \<longleftrightarrow> pm_status_code p = 0) \<and>
    (require_ia \<and> status = RIN_DHCPV6_OK \<longrightarrow> pm_ia_addresses p \<noteq> []) \<and>
    (\<not> require_ia \<longrightarrow> pm_ia_addresses p = [])"
    and "4 \<le> length message \<and> length message \<le> 512 \<and> message ! 0 = type"
    and "\<exists>opts. options_decode (drop 4 message) = Some opts \<and> length opts \<le> DHCPV6_MAX_OPTIONS"
proof -
  let ?walk = "option_walk RIN_DHCPV6_MALFORMED_PACKET
    (counted DHCPV6_MAX_OPTIONS RIN_DHCPV6_MALFORMED_PACKET parse_option)
    (drop 4 message) (0, zero_parsed)"
  show m: "4 \<le> length message \<and> length message \<le> 512 \<and> message ! 0 = type"
    using assms by (auto simp: parse_message_def split: if_splits)
  obtain n q where w: "?walk = Inr (n, q)"
    using assms message_walk.counted_walk_error [of DHCPV6_MAX_OPTIONS "drop 4 message" "(0, zero_parsed)"]
    by (cases ?walk) (auto simp: parse_message_def split: if_splits)
  then show "\<exists>opts. options_decode (drop 4 message) = Some opts \<and> length opts \<le> DHCPV6_MAX_OPTIONS"
    using message_walk.counted_walk by blast
  have q: "parsed_ok q" using message_walk.counted_walk_invar [OF zero_parsed_ok w] .
  then have seen: "pm_address_seen q = (pm_ia_addresses q \<noteq> [])" by (simp add: parsed_ok_def)
  show "parsed_ok p \<and> pm_client_seen p \<and> pm_server_seen p \<and> pm_structural_valid p \<and>
    pm_ia_seen p = require_ia \<and> (status = RIN_DHCPV6_OK \<longleftrightarrow> pm_status_code p = 0) \<and>
    (require_ia \<and> status = RIN_DHCPV6_OK \<longrightarrow> pm_ia_addresses p \<noteq> []) \<and>
    (\<not> require_ia \<longrightarrow> pm_ia_addresses p = [])"
    using assms m w q seen by (simp add: parse_message_def Let_def split: if_splits) auto
qed

lemma parsed_ok_address:
  assumes "parsed_ok p" and "address_usable (pm_address p)"
  shows "\<exists>a \<in> set (pm_ia_addresses p). pia_status_code a = 0 \<and> pia_address a = pm_address p \<and>
         pia_preferred_seconds a = pm_preferred_seconds p \<and> pia_valid_seconds a = pm_valid_seconds p"
  using assms by (auto simp: parsed_ok_def selection_ok_def)

lemma parsed_ok_lengths [wf_simps]:
  "parsed_ok p \<Longrightarrow> length (pm_address p) = 16"
  "parsed_ok p \<Longrightarrow> length (pm_dns_servers p) \<le> 3"
  "parsed_ok p \<Longrightarrow> s \<in> set (pm_dns_servers p) \<Longrightarrow> length s = 16 \<and> dns_address_usable s"
  "parsed_ok p \<Longrightarrow> distinct (pm_dns_servers p)"
  by (auto simp: parsed_ok_def selection_ok_def list_all_iff)

lemma parse_message_walk:
  assumes "parse_message message type require_ia = (status, p)"
    and "status = RIN_DHCPV6_OK \<or> status = RIN_DHCPV6_SERVER_REJECTED"
  shows "\<exists>n q. option_walk RIN_DHCPV6_MALFORMED_PACKET
    (counted DHCPV6_MAX_OPTIONS RIN_DHCPV6_MALFORMED_PACKET parse_option)
    (drop 4 message) (0, zero_parsed) = Inr (n, q) \<and> p = q\<lparr>pm_structural_valid := True\<rparr>"
proof -
  let ?walk = "option_walk RIN_DHCPV6_MALFORMED_PACKET
    (counted DHCPV6_MAX_OPTIONS RIN_DHCPV6_MALFORMED_PACKET parse_option)
    (drop 4 message) (0, zero_parsed)"
  obtain n q where w: "?walk = Inr (n, q)"
    using assms message_walk.counted_walk_error [of DHCPV6_MAX_OPTIONS "drop 4 message" "(0, zero_parsed)"]
    by (cases ?walk) (auto simp: parse_message_def split: if_splits)
  with assms show ?thesis by (auto simp: parse_message_def Let_def split: if_splits)
qed

section \<open>Properties\<close>

text \<open>C6: A message built for a 24-bit transaction identifier by a client whose identifiers fit their
  buffers always fits the transmit buffer; decoding the buffer gives back the kind, the transaction
  identifier and exactly the options of that kind of message, and the rest of the buffer is zero.\<close>

theorem build_message_roundtrip:
  assumes "wf_client client"
    and "unat (c_duid_size client) \<le> 32" and "unat (c_server_duid_size client) \<le> 32"
    and "transaction_id \<noteq> 0" and "transaction_id \<le> 0x00ffffff"
  shows "\<exists>t. build_message client kind transaction_id now_ms = Inr t \<and>
    tx_message t ! 0 = ucast kind \<and> load_xid (tx_message t) = transaction_id \<and>
    options_decode (drop 4 (take (unat (tx_message_size t)) (tx_message t))) =
      Some (message_options client kind transaction_id now_ms) \<and>
    byte_tail_zero (tx_message t) (unat (tx_message_size t)) RIN_DHCPV6_MAX_MESSAGE_SIZE"
proof -
  obtain t where t: "build_message client kind transaction_id now_ms = Inr t"
      "byte_tail_zero (tx_message t) (unat (tx_message_size t)) 512"
    and m: "take (unat (tx_message_size t)) (tx_message t) = transaction_header kind transaction_id @
      options_encode (message_options client kind transaction_id now_ms)"
    using build_message_ok [OF assms] by blast
  obtain rest where rest: "tx_message t = transaction_header kind transaction_id @ rest"
    using append_take_drop_id [of "unat (tx_message_size t)" "tx_message t"] unfolding m
    by (metis append.assoc)
  then have "tx_message t ! 0 = ucast kind" by (simp add: transaction_header_def)
  moreover have "load_xid (tx_message t) = transaction_id"
    unfolding rest by (rule load_xid_header [OF assms(5)])
  moreover have "drop 4 (take (unat (tx_message_size t)) (tx_message t)) =
      options_encode (message_options client kind transaction_id now_ms)"
    by (simp add: m transaction_header_def)
  ultimately show ?thesis
    using t options_decode_encode [OF message_options_short [OF assms(1-3)]] by auto
qed

definition sample_duid :: bytes where
  "sample_duid = [0, 3, 0, 1, 2, 0, 94, 16, 0, 1]"

definition sample_client :: dhcpv6_client where
  "sample_client = zero_client\<lparr>c_iaid := 7, c_duid_size := 10,
     c_duid := sample_duid @ zero_bytes 22\<rparr>"

theorem build_message_roundtrip_witness:
  "\<exists>t. build_message sample_client RIN_DHCPV6_TRANSMIT_SOLICIT 0x123456 1000 = Inr t \<and>
    tx_message t ! 0 = 1 \<and> load_xid (tx_message t) = 0x123456 \<and>
    options_decode (drop 4 (take (unat (tx_message_size t)) (tx_message t))) =
      Some (message_options sample_client RIN_DHCPV6_TRANSMIT_SOLICIT 0x123456 1000) \<and>
    byte_tail_zero (tx_message t) (unat (tx_message_size t)) RIN_DHCPV6_MAX_MESSAGE_SIZE"
proof -
  have "wf_client sample_client" by (simp add: sample_client_def sample_duid_def wf_client_def zero_client_def wf_dns_def list_all_iff)
  then show ?thesis
    using build_message_roundtrip [of sample_client "0x123456" RIN_DHCPV6_TRANSMIT_SOLICIT 1000]
    by (simp add: sample_client_def zero_client_def)
qed

text \<open>C8: When the parser accepts a message (also one with an error status of the server), the bytes
  behind the header are a well-formed stream of at most 32 options, the parsed record is the fold
  of the option handler over them, it names both identities, and it holds at most four different
  usable addresses and at most three different usable name servers with ordered lifetimes.\<close>

theorem parse_message_sound:
  assumes "parse_message message type require_ia = (status, p)"
    and "status = RIN_DHCPV6_OK \<or> status = RIN_DHCPV6_SERVER_REJECTED"
  shows "parsed_ok p \<and> pm_client_seen p \<and> pm_server_seen p \<and> pm_ia_seen p = require_ia \<and>
    message ! 0 = type \<and>
    (\<exists>opts q. options_decode (drop 4 message) = Some opts \<and> length opts \<le> DHCPV6_MAX_OPTIONS \<and>
      option_fold parse_option opts zero_parsed = Inr q \<and> p = q\<lparr>pm_structural_valid := True\<rparr>)"
proof -
  note ok = parse_message_ok [OF assms]
  have "\<exists>opts q. options_decode (drop 4 message) = Some opts \<and> length opts \<le> DHCPV6_MAX_OPTIONS \<and>
      option_fold parse_option opts zero_parsed = Inr q \<and> p = q\<lparr>pm_structural_valid := True\<rparr>"
    using parse_message_walk [OF assms] message_walk.counted_walk by blast
  with ok show ?thesis by blast
qed

definition sample_reply :: bytes where
  "sample_reply = [7, 0x12, 0x34, 0x56] @ options_encode
     [(DHCPV6_OPTION_CLIENT_ID, sample_duid),
      (DHCPV6_OPTION_SERVER_ID, [0, 3, 0, 1, 2, 0, 94, 16, 0, 2]),
      (DHCPV6_OPTION_IA_NA, [0, 0, 0, 7, 0, 0, 0, 0, 0, 0, 0, 0] @ option_encode
         (DHCPV6_OPTION_IA_ADDRESS, [32, 1, 13, 184, 0, 0, 0, 0, 0, 0, 0, 0, 0, 0, 0, 5,
                                     0, 0, 14, 16, 0, 0, 28, 32]))]"

theorem parse_message_sound_witness:
  "\<exists>p. parse_message sample_reply DHCPV6_MESSAGE_REPLY True = (RIN_DHCPV6_OK, p) \<and> parsed_ok p \<and>
    pm_client_seen p \<and> pm_server_seen p"
proof -
  have "fst (parse_message sample_reply DHCPV6_MESSAGE_REPLY True) = RIN_DHCPV6_OK"
    by code_simp
  then obtain p where "parse_message sample_reply DHCPV6_MESSAGE_REPLY True = (RIN_DHCPV6_OK, p)"
    by (metis prod.collapse)
  with parse_message_sound [OF this] show ?thesis by simp
qed

end
