(* ===== verification/Dhcpv6_Retransmit.thy ===== *)
theory Dhcpv6_Retransmit
  imports Dhcpv6_Wire
begin

text \<open>
  Retransmission timing of \<open>src/rin_dhcpv6_client.c\<close>: the xorshift generator and its seed, the
  initial and maximum timeouts per message kind, the randomised timeout and the two scheduling
  steps. The lemmas bound every timeout between nine and eleven tenths of its base, without
  wrap-around.
\<close>

section \<open>Constants\<close>

abbreviation (input) DHCPV6_SOL_TIMEOUT_MS :: u64 where "DHCPV6_SOL_TIMEOUT_MS \<equiv> 1000"
abbreviation (input) DHCPV6_SOL_MAX_RT_DEFAULT_SECONDS :: u32
  where "DHCPV6_SOL_MAX_RT_DEFAULT_SECONDS \<equiv> 3600"
abbreviation (input) DHCPV6_INF_MAX_RT_DEFAULT_SECONDS :: u32
  where "DHCPV6_INF_MAX_RT_DEFAULT_SECONDS \<equiv> 3600"
abbreviation (input) DHCPV6_REQUEST_TIMEOUT_MS :: u64 where "DHCPV6_REQUEST_TIMEOUT_MS \<equiv> 1000"
abbreviation (input) DHCPV6_REQUEST_MAX_RT_MS :: u64 where "DHCPV6_REQUEST_MAX_RT_MS \<equiv> 30000"
abbreviation (input) DHCPV6_REQUEST_MAX_RETRANSMISSIONS :: u32
  where "DHCPV6_REQUEST_MAX_RETRANSMISSIONS \<equiv> 10"
abbreviation (input) DHCPV6_RENEW_TIMEOUT_MS :: u64 where "DHCPV6_RENEW_TIMEOUT_MS \<equiv> 10000"
abbreviation (input) DHCPV6_RENEW_MAX_RT_MS :: u64 where "DHCPV6_RENEW_MAX_RT_MS \<equiv> 600000"
abbreviation (input) DHCPV6_REBIND_TIMEOUT_MS :: u64 where "DHCPV6_REBIND_TIMEOUT_MS \<equiv> 10000"
abbreviation (input) DHCPV6_REBIND_MAX_RT_MS :: u64 where "DHCPV6_REBIND_MAX_RT_MS \<equiv> 600000"
abbreviation (input) DHCPV6_INFORMATION_TIMEOUT_MS :: u64
  where "DHCPV6_INFORMATION_TIMEOUT_MS \<equiv> 1000"
abbreviation (input) DHCPV6_MAX_RT_OPTION_MIN_SECONDS :: u32
  where "DHCPV6_MAX_RT_OPTION_MIN_SECONDS \<equiv> 60"
abbreviation (input) DHCPV6_MAX_RT_OPTION_MAX_SECONDS :: u32
  where "DHCPV6_MAX_RT_OPTION_MAX_SECONDS \<equiv> 86400"
abbreviation (input) DHCPV6_MAX_RANDOMIZED_RT_MS :: u64
  where "DHCPV6_MAX_RANDOMIZED_RT_MS \<equiv> 95040000"
abbreviation (input) DHCPV6_STARTUP_DELAY_MAX_MS :: u64
  where "DHCPV6_STARTUP_DELAY_MAX_MS \<equiv> 1000"

section \<open>The generator\<close>

text \<open>\<open>random_next\<close> returns the value it stores back into the state.\<close>

definition random_next :: "u32 \<Rightarrow> u32" where
  "random_next state =
     (let value = state XOR push_bit 13 state;
          value = value XOR drop_bit 17 value;
          value = value XOR push_bit 5 value
      in if value = 0 then 0x6d2b79f5 else value)"

definition random_bounded :: "u32 \<Rightarrow> u32 \<Rightarrow> u32" where
  "random_bounded state bound =
     ucast (drop_bit 32 (ucast (random_next state) * ucast bound :: u64))"

definition random_event_seed :: "dhcpv6_client \<Rightarrow> u32 \<Rightarrow> u32 \<Rightarrow> u32 \<Rightarrow> u32" where
  "random_event_seed client transaction_id sequence purpose =
     (let value = 2166136261 XOR transaction_id XOR (sequence * 0x9e3779b9) XOR c_iaid client XOR
            ucast (c_interface_generation client) XOR
            ucast (drop_bit 32 (c_interface_generation client)) XOR
            ucast (c_generation client) XOR ucast (drop_bit 32 (c_generation client)) XOR purpose;
          value = fold (\<lambda>b value. (value XOR ucast b) * 16777619)
            (take (unat (c_duid_size client)) (c_duid client)) value;
          value = (if value = 0 then 0x6d2b79f5 else value)
      in random_next value)"

section \<open>Timeouts per message kind\<close>

definition retransmission_irt_ms :: "u32 \<Rightarrow> u64" where
  "retransmission_irt_ms kind =
     (if kind = RIN_DHCPV6_TRANSMIT_RENEW then DHCPV6_RENEW_TIMEOUT_MS
      else if kind = RIN_DHCPV6_TRANSMIT_REBIND then DHCPV6_REBIND_TIMEOUT_MS
      else if kind = RIN_DHCPV6_TRANSMIT_INFORMATION_REQUEST then DHCPV6_INFORMATION_TIMEOUT_MS
      else if kind = RIN_DHCPV6_TRANSMIT_SOLICIT then DHCPV6_SOL_TIMEOUT_MS
      else DHCPV6_REQUEST_TIMEOUT_MS)"

text \<open>The client keeps SOL_MAX_RT and INF_MAX_RT in its two \<open>offer_\<close> lifetime fields.\<close>

definition retransmission_mrt_ms :: "dhcpv6_client \<Rightarrow> u32 \<Rightarrow> u64" where
  "retransmission_mrt_ms client kind =
     (if kind = RIN_DHCPV6_TRANSMIT_SOLICIT then ucast (c_offer_preferred_seconds client) * 1000
      else if kind = RIN_DHCPV6_TRANSMIT_REQUEST then DHCPV6_REQUEST_MAX_RT_MS
      else if kind = RIN_DHCPV6_TRANSMIT_RENEW then DHCPV6_RENEW_MAX_RT_MS
      else if kind = RIN_DHCPV6_TRANSMIT_REBIND then DHCPV6_REBIND_MAX_RT_MS
      else if kind = RIN_DHCPV6_TRANSMIT_INFORMATION_REQUEST
        then ucast (c_offer_valid_seconds client) * 1000
      else retransmission_irt_ms kind)"

definition retransmission_mrc :: "u32 \<Rightarrow> u32" where
  "retransmission_mrc kind =
     (if kind = RIN_DHCPV6_TRANSMIT_REQUEST then DHCPV6_REQUEST_MAX_RETRANSMISSIONS else 0)"

section \<open>Scheduling\<close>

definition earlier_deadline :: "u64 \<Rightarrow> u64 \<Rightarrow> u64" where
  "earlier_deadline deadline phase_end =
     (if phase_end \<noteq> 0 \<and> phase_end < deadline then phase_end else deadline)"

definition randomized_rt :: "dhcpv6_client \<Rightarrow> u64 \<Rightarrow> bool \<Rightarrow> u32 \<Rightarrow> u32 \<Rightarrow> u32 \<Rightarrow> u64" where
  "randomized_rt client base_ms first_solicit_rt kind transaction_id sequence =
     (let random_state = random_event_seed client transaction_id sequence (0x52540000 XOR kind);
          signed_factor = (if first_solicit_rt then sint (random_bounded random_state 1000 + 1)
                           else sint (random_bounded random_state 2001) - 1000);
          magnitude = (base_ms * word_of_int \<bar>signed_factor\<bar>) div 10000
      in if signed_factor < 0 then base_ms - magnitude else base_ms + magnitude)"

definition schedule_initial_retry ::
    "dhcpv6_client \<Rightarrow> u32 \<Rightarrow> u32 \<Rightarrow> u32 \<Rightarrow> u64 \<Rightarrow> u64 \<Rightarrow> dhcpv6_client" where
  "schedule_initial_retry client kind transaction_id sequence now_ms phase_end =
     (let retry_ms = randomized_rt client (retransmission_irt_ms kind)
            (kind = RIN_DHCPV6_TRANSMIT_SOLICIT) kind transaction_id sequence
      in client\<lparr>c_transaction_started_ms := now_ms,
                c_next_transmit_ms := earlier_deadline (now_ms + retry_ms) phase_end,
                c_retry_ms := retry_ms,
                c_offer_t1_seconds := 0,
                c_offer_t2_seconds := 0\<rparr>)"

definition schedule_later_retry ::
    "dhcpv6_client \<Rightarrow> u32 \<Rightarrow> u32 \<Rightarrow> u32 \<Rightarrow> u64 \<Rightarrow> u64 \<Rightarrow> dhcpv6_client" where
  "schedule_later_retry client kind transaction_id sequence now_ms phase_end =
     (let mrt_ms = retransmission_mrt_ms client kind;
          base_ms = (if c_retry_ms client > UINT64_MAX div 2 then mrt_ms
                     else c_retry_ms client * 2);
          base_ms = (if base_ms > mrt_ms then mrt_ms else base_ms);
          retry_ms = randomized_rt client base_ms False kind transaction_id sequence
      in client\<lparr>c_next_transmit_ms := earlier_deadline (now_ms + retry_ms) phase_end,
                c_retry_ms := retry_ms\<rparr>)"

section \<open>Bounds\<close>

lemma random_bounded_less:
  assumes "bound \<noteq> 0"
  shows "random_bounded state bound < bound"
proof -
  let ?r = "random_next state"
  have r: "unat ?r < 4294967296" and b: "unat bound < 4294967296"
    by (rule unat_u32_less)+
  have le: "unat ?r * unat bound \<le> 4294967295 * 4294967295"
    using r b by (intro mult_le_mono) simp_all
  then have p: "unat (ucast ?r * ucast bound :: u64) = unat ?r * unat bound"
    by (simp add: unat_mult_lem [THEN iffD1])
  have "unat ?r * unat bound < unat bound * 4294967296"
    using r assms by (simp add: unat_gt_0 mult.commute)
  then have q: "unat ?r * unat bound div 4294967296 < unat bound"
    by (simp add: div_less_iff_less_mult)
  have "unat (drop_bit 32 (ucast ?r * ucast bound :: u64)) = unat ?r * unat bound div 4294967296"
    using le by (simp only: unsigned_drop_bit_eq p) (simp add: drop_bit_eq_div take_bit_nat_eq_self)
  then have "unat (random_bounded state bound) = unat ?r * unat bound div 4294967296"
    unfolding random_bounded_def unsigned_ucast_eq using q b by (simp add: take_bit_nat_eq_self)
  then show ?thesis using q by (simp add: word_less_nat_alt)
qed

lemma random_next_nonzero: "random_next s \<noteq> 0"
  by (simp add: random_next_def Let_def)

lemma sint_small:
  assumes "unat (x :: u32) < 2147483648"
  shows "sint x = int (unat x)"
proof -
  have "int (unat x) < 2147483648" using assms by linarith
  moreover have "- 2147483648 \<le> int (unat x)" by linarith
  ultimately have "signed_take_bit 31 (int (unat x)) = int (unat x)"
    by (intro signed_take_bit_int_eq_self) (simp_all only: power_numeral, simp_all)
  then show ?thesis by (simp add: sint_uint)
qed

text \<open>A tenth of the base is the largest correction, and the product does not wrap around.\<close>

lemma randomized_rt_cases:
  assumes "unat base_ms \<le> 86400000"
  shows "\<exists>f \<le> 1000. unat (randomized_rt client base_ms first kind transaction_id sequence) =
      unat base_ms + unat base_ms * f div 10000 \<or>
    \<not> first \<and> unat (randomized_rt client base_ms first kind transaction_id sequence) =
      unat base_ms - unat base_ms * f div 10000"
proof -
  define s where "s = random_event_seed client transaction_id sequence (0x52540000 XOR kind)"
  define f where "f = (if first then sint (random_bounded s 1000 + 1)
    else sint (random_bounded s 2001) - 1000)"
  have b1: "unat (random_bounded s 1000) < 1000" and b2: "unat (random_bounded s 2001) < 2001"
    using random_bounded_less [of 1000 s] random_bounded_less [of 2001 s]
    by (simp_all add: word_less_nat_alt)
  have u1: "unat (random_bounded s 1000 + 1) = unat (random_bounded s 1000) + 1"
    using b1 by (simp add: unat_add_lem [THEN iffD1])
  have s1: "sint (random_bounded s 1000 + 1) = int (unat (random_bounded s 1000) + 1)"
    using b1 sint_small [of "random_bounded s 1000 + 1"] unfolding u1 by simp
  have s2: "sint (random_bounded s 2001) = int (unat (random_bounded s 2001))"
    using b2 by (intro sint_small) simp
  have f: "-1000 \<le> f" "f \<le> 1000" "first \<Longrightarrow> 0 \<le> f"
    unfolding f_def s1 s2 using b1 b2 by (cases first; simp only: if_True if_False; linarith)+
  define m where "m = nat \<bar>f\<bar>"
  have m: "m \<le> 1000" "\<bar>f\<bar> = int m" using f by (auto simp: m_def)
  have mul: "unat base_ms * m \<le> 86400000 * 1000" using assms m by (intro mult_le_mono) simp_all
  have "unat (word_of_int \<bar>f\<bar> :: u64) = m" using m by (simp add: unat_of_nat)
  with mul have "unat (base_ms * word_of_int \<bar>f\<bar>) = unat base_ms * m"
    by (simp add: unat_mult_lem [THEN iffD1])
  then have mag: "unat (base_ms * word_of_int \<bar>f\<bar> div 10000) = unat base_ms * m div 10000"
    by (simp add: unat_div)
  have le: "unat base_ms * m div 10000 \<le> unat base_ms"
    using m(1) by (simp add: div_le_mono [of "unat base_ms * m" "unat base_ms * 10000" 10000, simplified])
  have rt: "randomized_rt client base_ms first kind transaction_id sequence =
      (if f < 0 then base_ms - base_ms * word_of_int \<bar>f\<bar> div 10000
       else base_ms + base_ms * word_of_int \<bar>f\<bar> div 10000)"
    by (simp add: randomized_rt_def Let_def f_def s_def)
  have "unat (base_ms - base_ms * word_of_int \<bar>f\<bar> div 10000) = unat base_ms - unat base_ms * m div 10000"
    using le by (simp add: unat_sub word_le_nat_alt mag)
  moreover have "unat (base_ms + base_ms * word_of_int \<bar>f\<bar> div 10000) = unat base_ms + unat base_ms * m div 10000"
    using le assms mag by (simp add: unat_add_lem [THEN iffD1])
  ultimately show ?thesis
    using rt m(1) f(3) by (intro exI [of _ m]) auto
qed

lemma randomized_rt_bounds:
  assumes "unat base_ms \<le> 86400000"
  shows "unat base_ms - unat base_ms div 10 \<le>
      unat (randomized_rt client base_ms first kind transaction_id sequence)"
    and "unat (randomized_rt client base_ms first kind transaction_id sequence) \<le>
      unat base_ms + unat base_ms div 10"
    and "first \<Longrightarrow> unat base_ms \<le>
      unat (randomized_rt client base_ms first kind transaction_id sequence)"
proof -
  obtain f where f: "f \<le> 1000" and
    rt: "unat (randomized_rt client base_ms first kind transaction_id sequence) =
      unat base_ms + unat base_ms * f div 10000 \<or>
    \<not> first \<and> unat (randomized_rt client base_ms first kind transaction_id sequence) =
      unat base_ms - unat base_ms * f div 10000"
    using randomized_rt_cases [OF assms] by blast
  have "unat base_ms * f div 10000 \<le> unat base_ms * 1000 div 10000"
    using f by (intro div_le_mono mult_le_mono) simp_all
  then have "unat base_ms * f div 10000 \<le> unat base_ms div 10" by simp
  with rt show "unat base_ms - unat base_ms div 10 \<le>
      unat (randomized_rt client base_ms first kind transaction_id sequence)"
    and "unat (randomized_rt client base_ms first kind transaction_id sequence) \<le>
      unat base_ms + unat base_ms div 10"
    and "first \<Longrightarrow> unat base_ms \<le>
      unat (randomized_rt client base_ms first kind transaction_id sequence)"
    by auto
qed

section \<open>Properties\<close>

text \<open>C36: Every randomised timeout stays within ten percent of its base, without wrap-around, for all
  bases the client uses (at most a day); the first timeout of a Solicit is not below its base.\<close>

theorem retransmission_timeout_bounds:
  assumes "unat base_ms \<le> 86400000"
  shows "unat base_ms - unat base_ms div 10 \<le>
      unat (randomized_rt client base_ms first kind transaction_id sequence) \<and>
    unat (randomized_rt client base_ms first kind transaction_id sequence) \<le>
      unat base_ms + unat base_ms div 10 \<and>
    (first \<longrightarrow> unat base_ms \<le> unat (randomized_rt client base_ms first kind transaction_id sequence))"
  using randomized_rt_bounds [OF assms] by blast

theorem retransmission_timeout_bounds_witness:
  "900 \<le> unat (randomized_rt sample_client 1000 False RIN_DHCPV6_TRANSMIT_REQUEST 5 1) \<and>
   unat (randomized_rt sample_client 1000 False RIN_DHCPV6_TRANSMIT_REQUEST 5 1) \<le> 1100"
  using retransmission_timeout_bounds [of 1000 sample_client False RIN_DHCPV6_TRANSMIT_REQUEST 5 1] by simp

text \<open>The lower bound is reached: RFC 8415 asks for a first Solicit timeout strictly above its base,
  but a factor below ten parts in ten thousand is lost in the division.\<close>

lemma first_solicit_timeout_not_above_base:
  "randomized_rt (sample_client\<lparr>c_interface_generation := 1, c_generation := 3\<rparr>) 1000 True
     RIN_DHCPV6_TRANSMIT_SOLICIT 141 1 = 1000"
  by code_simp

end
