(* ===== verification/Dhcpv6_Client.thy ===== *)
theory Dhcpv6_Client
  imports Dhcpv6_Retransmit
begin

text \<open>
  The client of \<open>src/rin_dhcpv6_client.c\<close>: its validity check and every operation of the
  version 1 interface. An operation is a function from the client record to a status and the
  record afterwards; \<open>rin_dhcpv6_client_*\<close> are the entry points with their pointer arguments.
\<close>

section \<open>Clearing\<close>

definition clear_pending :: "dhcpv6_client \<Rightarrow> dhcpv6_client" where
  "clear_pending client = client\<lparr>c_pending_present := 0, c_pending := zero_transmit\<rparr>"

definition clear_dynamic :: "dhcpv6_client \<Rightarrow> dhcpv6_client" where
  "clear_dynamic client = clear_pending (client\<lparr>
     c_state := RIN_DHCPV6_STATE_IDLE,
     c_transaction_started_ms := 0,
     c_next_transmit_ms := 0,
     c_retry_ms := 0,
     c_lease_generation := 0,
     c_preferred_until_ms := 0,
     c_renew_at_ms := 0,
     c_rebind_at_ms := 0,
     c_expires_at_ms := 0,
     c_transaction_id := 0,
     c_server_duid_size := 0,
     c_dns_server_count := 0,
     c_offer_preferred_seconds := c_offer_preferred_seconds client,
     c_offer_valid_seconds := c_offer_valid_seconds client,
     c_offer_t1_seconds := 0,
     c_offer_t2_seconds := 0,
     c_server_duid := zero_bytes 32,
     c_address := zero_bytes 16,
     c_dns_servers := replicate 3 (zero_bytes 16)\<rparr>)"

section \<open>What the states mean\<close>

definition client_information_mode :: "dhcpv6_client \<Rightarrow> bool" where
  "client_information_mode client = (c_reserved client = RIN_DHCPV6_CLIENT_MODE_INFORMATION)"

definition client_state_has_server :: "u32 \<Rightarrow> bool" where
  "client_state_has_server state =
     (state = RIN_DHCPV6_STATE_ADVERTISED \<or> state = RIN_DHCPV6_STATE_REQUESTING \<or>
      state = RIN_DHCPV6_STATE_BOUND \<or> state = RIN_DHCPV6_STATE_RENEWING \<or>
      state = RIN_DHCPV6_STATE_REBINDING \<or> state = RIN_DHCPV6_STATE_INFORMATION_BOUND \<or>
      state = RIN_DHCPV6_STATE_RECONFIGURE_INFORMATION_REQUESTING \<or>
      state = RIN_DHCPV6_STATE_RECONFIGURE_REBINDING)"

definition client_state_has_address :: "u32 \<Rightarrow> bool" where
  "client_state_has_address state =
     (state = RIN_DHCPV6_STATE_ADVERTISED \<or> state = RIN_DHCPV6_STATE_REQUESTING \<or>
      state = RIN_DHCPV6_STATE_BOUND \<or> state = RIN_DHCPV6_STATE_RENEWING \<or>
      state = RIN_DHCPV6_STATE_REBINDING \<or>
      state = RIN_DHCPV6_STATE_RECONFIGURE_INFORMATION_REQUESTING \<or>
      state = RIN_DHCPV6_STATE_RECONFIGURE_REBINDING)"

definition client_state_has_lease :: "u32 \<Rightarrow> bool" where
  "client_state_has_lease state =
     (state = RIN_DHCPV6_STATE_BOUND \<or> state = RIN_DHCPV6_STATE_RENEWING \<or>
      state = RIN_DHCPV6_STATE_REBINDING \<or> state = RIN_DHCPV6_STATE_INFORMATION_BOUND \<or>
      state = RIN_DHCPV6_STATE_RECONFIGURE_INFORMATION_REQUESTING \<or>
      state = RIN_DHCPV6_STATE_RECONFIGURE_REBINDING)"

definition client_has_lease :: "dhcpv6_client \<Rightarrow> bool" where
  "client_has_lease client =
     (client_state_has_lease (c_state client) \<or>
      (c_state client = RIN_DHCPV6_STATE_INFORMATION_REQUESTING \<and> c_lease_generation client \<noteq> 0))"

definition client_state_retransmits :: "u32 \<Rightarrow> bool" where
  "client_state_retransmits state =
     (state = RIN_DHCPV6_STATE_SOLICITING \<or> state = RIN_DHCPV6_STATE_REQUESTING \<or>
      state = RIN_DHCPV6_STATE_RENEWING \<or> state = RIN_DHCPV6_STATE_REBINDING \<or>
      state = RIN_DHCPV6_STATE_INFORMATION_REQUESTING \<or>
      state = RIN_DHCPV6_STATE_RECONFIGURE_INFORMATION_REQUESTING \<or>
      state = RIN_DHCPV6_STATE_RECONFIGURE_REBINDING)"

definition client_startup_delayed :: "dhcpv6_client \<Rightarrow> bool" where
  "client_startup_delayed client =
     (c_state client = RIN_DHCPV6_STATE_IDLE \<and> c_transaction_id client \<noteq> 0 \<and>
      c_offer_t1_seconds client = DHCPV6_RETRANSMISSION_NOT_STARTED)"

definition pending_valid :: "dhcpv6_client \<Rightarrow> bool" where
  "pending_valid client =
     (let pending = c_pending client in
      if c_pending_present client = 0 then pending = zero_transmit
      else if tx_version pending \<noteq> RIN_DHCPV6_CLIENT_VERSION \<or>
         tx_struct_size pending \<noteq> sizeof_transmit \<or>
         tx_owner_generation pending \<noteq> c_generation client \<or>
         tx_sequence pending = 0 \<or> tx_reserved pending \<noteq> 0 \<or>
         tx_message_size pending < 4 \<or> tx_message_size pending > 512 \<or>
         tx_message pending ! 0 \<noteq> ucast (tx_kind pending) \<or>
         \<not> byte_tail_zero (tx_message pending) (unat (tx_message_size pending)) 512
      then False
      else if tx_kind pending \<noteq> RIN_DHCPV6_TRANSMIT_SOLICIT \<and>
         tx_kind pending \<noteq> RIN_DHCPV6_TRANSMIT_REQUEST \<and>
         tx_kind pending \<noteq> RIN_DHCPV6_TRANSMIT_RENEW \<and>
         tx_kind pending \<noteq> RIN_DHCPV6_TRANSMIT_REBIND \<and>
         tx_kind pending \<noteq> RIN_DHCPV6_TRANSMIT_INFORMATION_REQUEST
      then False
      else load_xid (tx_message pending) \<noteq> 0)"

definition retransmission_kind_for_state :: "u32 \<Rightarrow> u32" where
  "retransmission_kind_for_state state =
     (if state = RIN_DHCPV6_STATE_SOLICITING then RIN_DHCPV6_TRANSMIT_SOLICIT
      else if state = RIN_DHCPV6_STATE_REQUESTING then RIN_DHCPV6_TRANSMIT_REQUEST
      else if state = RIN_DHCPV6_STATE_RENEWING then RIN_DHCPV6_TRANSMIT_RENEW
      else if state = RIN_DHCPV6_STATE_REBINDING \<or> state = RIN_DHCPV6_STATE_RECONFIGURE_REBINDING
        then RIN_DHCPV6_TRANSMIT_REBIND
      else if state = RIN_DHCPV6_STATE_INFORMATION_REQUESTING \<or>
              state = RIN_DHCPV6_STATE_RECONFIGURE_INFORMATION_REQUESTING
        then RIN_DHCPV6_TRANSMIT_INFORMATION_REQUEST
      else RIN_DHCPV6_TRANSMIT_NONE)"

section \<open>Validity\<close>

text \<open>\<open>client_valid\<close>, one definition per group of conditions, in the order of the source.\<close>

definition client_fields_valid :: "dhcpv6_client \<Rightarrow> bool" where
  "client_fields_valid client =
     (\<not> (c_version client \<noteq> RIN_DHCPV6_CLIENT_VERSION \<or>
        c_struct_size client \<noteq> sizeof_client \<or> c_initialized client \<noteq> 1 \<or>
        c_state client > RIN_DHCPV6_STATE_RECONFIGURE_REBINDING \<or>
        c_interface_generation client = 0 \<or> c_generation client = 0 \<or>
        c_iaid client = 0 \<or> \<not> duid_valid (c_duid client) (unat (c_duid_size client)) \<or>
        \<not> byte_tail_zero (c_duid client) (unat (c_duid_size client)) 32 \<or>
        c_transaction_id client > 0x00ffffff \<or>
        c_dns_server_count client > 3 \<or>
        c_pending_present client > 1 \<or>
        c_reserved client > RIN_DHCPV6_CLIENT_MODE_INFORMATION \<or>
        c_offer_preferred_seconds client < DHCPV6_MAX_RT_OPTION_MIN_SECONDS \<or>
        c_offer_preferred_seconds client > DHCPV6_MAX_RT_OPTION_MAX_SECONDS \<or>
        c_offer_valid_seconds client < DHCPV6_MAX_RT_OPTION_MIN_SECONDS \<or>
        c_offer_valid_seconds client > DHCPV6_MAX_RT_OPTION_MAX_SECONDS \<or>
        c_offer_t2_seconds client \<noteq> 0 \<or>
        \<not> pending_valid client))"

definition client_mode_valid :: "dhcpv6_client \<Rightarrow> bool" where
  "client_mode_valid client =
     (let state = c_state client in
      \<not> ((client_information_mode client \<and>
           (state = RIN_DHCPV6_STATE_SOLICITING \<or> state = RIN_DHCPV6_STATE_ADVERTISED \<or>
            state = RIN_DHCPV6_STATE_REQUESTING \<or> state = RIN_DHCPV6_STATE_RENEWING \<or>
            state = RIN_DHCPV6_STATE_REBINDING \<or>
            state = RIN_DHCPV6_STATE_RECONFIGURE_INFORMATION_REQUESTING \<or>
            state = RIN_DHCPV6_STATE_RECONFIGURE_REBINDING)) \<or>
         (\<not> client_information_mode client \<and>
           (state = RIN_DHCPV6_STATE_INFORMATION_REQUESTING \<or>
            state = RIN_DHCPV6_STATE_INFORMATION_BOUND))))"

definition client_server_valid :: "dhcpv6_client \<Rightarrow> bool" where
  "client_server_valid client =
     (let has_server = client_state_has_server (c_state client) \<or>
            (c_state client = RIN_DHCPV6_STATE_INFORMATION_REQUESTING \<and>
             c_server_duid_size client \<noteq> 0);
          has_address = client_state_has_address (c_state client)
      in \<not> (has_server \<noteq> (c_server_duid_size client \<noteq> 0) \<or>
            (has_server \<and>
             \<not> duid_valid (c_server_duid client) (unat (c_server_duid_size client))) \<or>
            \<not> byte_tail_zero (c_server_duid client) (unat (c_server_duid_size client)) 32 \<or>
            has_address \<noteq> address_usable (c_address client)))"

definition client_transaction_valid :: "dhcpv6_client \<Rightarrow> bool" where
  "client_transaction_valid client =
     (\<not> ((c_state client = RIN_DHCPV6_STATE_IDLE \<and> c_transaction_id client = 0 \<and>
          c_offer_t1_seconds client \<noteq> 0) \<or>
         (c_state client \<noteq> RIN_DHCPV6_STATE_IDLE \<and> c_transaction_id client = 0) \<or>
         (c_state client = RIN_DHCPV6_STATE_IDLE \<and> c_transaction_id client \<noteq> 0 \<and>
          \<not> client_startup_delayed client)))"

definition client_lease_valid :: "dhcpv6_client \<Rightarrow> bool" where
  "client_lease_valid client =
     (if client_has_lease client then
        \<not> (c_lease_generation client = 0 \<or>
           c_preferred_until_ms client > c_expires_at_ms client \<or>
           (if client_information_mode client \<and> \<not> client_state_has_address (c_state client)
            then c_renew_at_ms client \<ge> c_expires_at_ms client \<or>
                 c_rebind_at_ms client \<noteq> c_expires_at_ms client
            else c_renew_at_ms client \<ge> c_rebind_at_ms client \<or>
                 c_rebind_at_ms client \<ge> c_expires_at_ms client))
      else \<not> (c_lease_generation client \<noteq> 0 \<or> c_preferred_until_ms client \<noteq> 0 \<or>
              c_renew_at_ms client \<noteq> 0 \<or> c_rebind_at_ms client \<noteq> 0 \<or>
              c_expires_at_ms client \<noteq> 0 \<or> c_dns_server_count client \<noteq> 0))"

definition client_dns_valid :: "dhcpv6_client \<Rightarrow> bool" where
  "client_dns_valid client =
     list_all (\<lambda>index.
       if index < unat (c_dns_server_count client)
       then dns_address_usable (c_dns_servers client ! index)
       else byte_tail_zero (c_dns_servers client ! index) 0 16)
     [0 ..< RIN_DHCPV6_MAX_DNS_SERVERS]"

definition client_first_send_pending :: "dhcpv6_client \<Rightarrow> bool" where
  "client_first_send_pending client =
     (client_startup_delayed client \<or>
      ((c_state client = RIN_DHCPV6_STATE_RECONFIGURE_INFORMATION_REQUESTING \<or>
        c_state client = RIN_DHCPV6_STATE_RECONFIGURE_REBINDING) \<and>
       c_offer_t1_seconds client = DHCPV6_RETRANSMISSION_NOT_STARTED))"

definition client_timer_valid :: "dhcpv6_client \<Rightarrow> bool" where
  "client_timer_valid client =
     (let retransmitting = client_state_retransmits (c_state client);
          retransmission_kind = retransmission_kind_for_state (c_state client);
          first_send_pending = client_first_send_pending client
      in if retransmitting \<or> first_send_pending then
           (if c_offer_t1_seconds client = DHCPV6_RETRANSMISSION_NOT_STARTED
            then \<not> (\<not> first_send_pending \<or> c_transaction_started_ms client \<noteq> 0 \<or>
                    c_retry_ms client \<noteq> 0)
            else
              let minimum_rt = retransmission_irt_ms retransmission_kind;
                  minimum_rt = minimum_rt - minimum_rt div 10;
                  maximum_rt = retransmission_mrt_ms client retransmission_kind;
                  maximum_rt = maximum_rt + maximum_rt div 10
              in \<not> (retransmission_kind = RIN_DHCPV6_TRANSMIT_NONE \<or>
                    c_next_transmit_ms client < c_transaction_started_ms client) \<and>
                 \<not> (c_retry_ms client < minimum_rt \<or> c_retry_ms client > maximum_rt)) \<and>
           \<not> (c_state client = RIN_DHCPV6_STATE_REQUESTING \<and>
              c_offer_t1_seconds client \<ge> DHCPV6_REQUEST_MAX_RETRANSMISSIONS)
         else \<not> (c_transaction_started_ms client \<noteq> 0 \<or> c_next_transmit_ms client \<noteq> 0 \<or>
                 c_retry_ms client \<noteq> 0 \<or> c_offer_t1_seconds client \<noteq> 0))"

definition client_valid :: "dhcpv6_client \<Rightarrow> bool" where
  "client_valid client =
     (client_fields_valid client \<and> client_mode_valid client \<and> client_server_valid client \<and>
      client_transaction_valid client \<and> client_lease_valid client \<and> client_dns_valid client \<and>
      client_timer_valid client)"

definition time_valid :: "dhcpv6_client \<Rightarrow> u64 \<Rightarrow> bool" where
  "time_valid client now_ms = (now_ms \<ge> c_last_now_ms client)"

text \<open>\<open>advance_generation\<close>: \<^const>\<open>None\<close> when the counter is exhausted.\<close>

definition advance_generation :: "dhcpv6_client \<Rightarrow> dhcpv6_client option" where
  "advance_generation client =
     (if c_generation client = UINT64_MAX then None
      else Some (client\<lparr>c_generation := c_generation client + 1\<rparr>))"

definition expire_lease :: "dhcpv6_client \<Rightarrow> int \<times> dhcpv6_client" where
  "expire_lease client =
     (case advance_generation client of
        None \<Rightarrow> (RIN_DHCPV6_RANGE_EXHAUSTED, client)
      | Some client' \<Rightarrow> (RIN_DHCPV6_LEASE_EXPIRED, clear_dynamic client'))"

section \<open>Starting, mode, reconfigure requests\<close>

definition client_init :: "bytes \<Rightarrow> u32 \<Rightarrow> u32 \<Rightarrow> u64 \<Rightarrow> dhcpv6_client" where
  "client_init duid duid_size iaid interface_generation = zero_client\<lparr>
     c_version := RIN_DHCPV6_CLIENT_VERSION,
     c_struct_size := sizeof_client,
     c_initialized := 1,
     c_state := RIN_DHCPV6_STATE_IDLE,
     c_interface_generation := interface_generation,
     c_generation := 1,
     c_next_lease_generation := 1,
     c_next_transmit_sequence := 1,
     c_offer_preferred_seconds := DHCPV6_SOL_MAX_RT_DEFAULT_SECONDS,
     c_offer_valid_seconds := DHCPV6_INF_MAX_RT_DEFAULT_SECONDS,
     c_iaid := iaid,
     c_duid_size := duid_size,
     c_duid := byte_copy (zero_bytes 32) 0 (take (unat duid_size) duid)\<rparr>"

definition client_set_mode :: "dhcpv6_client \<Rightarrow> u32 \<Rightarrow> int \<times> dhcpv6_client" where
  "client_set_mode client mode =
     (if \<not> client_valid client \<or>
         (mode \<noteq> RIN_DHCPV6_CLIENT_MODE_STATEFUL \<and> mode \<noteq> RIN_DHCPV6_CLIENT_MODE_INFORMATION) \<or>
         c_state client \<noteq> RIN_DHCPV6_STATE_IDLE \<or> c_transaction_id client \<noteq> 0 \<or>
         c_pending_present client \<noteq> 0
      then (RIN_DHCPV6_INVALID_ARGUMENT, client)
      else (RIN_DHCPV6_OK, client\<lparr>c_reserved := mode\<rparr>))"

definition reconfigure_allowed :: "dhcpv6_client \<Rightarrow> u32 \<Rightarrow> bool" where
  "reconfigure_allowed client requested_kind =
     ((requested_kind = RIN_DHCPV6_TRANSMIT_RENEW \<and>
       c_state client = RIN_DHCPV6_STATE_BOUND \<and> \<not> client_information_mode client) \<or>
      (requested_kind = RIN_DHCPV6_TRANSMIT_REBIND \<and>
       c_state client = RIN_DHCPV6_STATE_BOUND \<and> \<not> client_information_mode client) \<or>
      (requested_kind = RIN_DHCPV6_TRANSMIT_INFORMATION_REQUEST \<and>
       c_state client = RIN_DHCPV6_STATE_BOUND \<and> \<not> client_information_mode client) \<or>
      (requested_kind = RIN_DHCPV6_TRANSMIT_INFORMATION_REQUEST \<and>
       c_state client = RIN_DHCPV6_STATE_INFORMATION_BOUND \<and> client_information_mode client))"

definition client_request_reconfigure ::
    "dhcpv6_client \<Rightarrow> u32 \<Rightarrow> u64 \<Rightarrow> int \<times> dhcpv6_client" where
  "client_request_reconfigure client requested_kind now_ms =
     (if \<not> client_valid client then (RIN_DHCPV6_INVALID_ARGUMENT, client)
      else if now_ms < c_last_now_ms client then (RIN_DHCPV6_CLOCK_ROLLBACK, client)
      else if c_pending_present client \<noteq> 0 then (RIN_DHCPV6_BUSY, client)
      else if \<not> reconfigure_allowed client requested_kind then (RIN_DHCPV6_INVALID_STATE, client)
      else if c_generation client \<ge> UINT64_MAX - 3 \<or>
         ((requested_kind = RIN_DHCPV6_TRANSMIT_REBIND \<or>
           (requested_kind = RIN_DHCPV6_TRANSMIT_INFORMATION_REQUEST \<and>
            \<not> client_information_mode client)) \<and>
          now_ms > UINT64_MAX - DHCPV6_MAX_RANDOMIZED_RT_MS)
      then (RIN_DHCPV6_RANGE_EXHAUSTED, client)
      else if now_ms \<ge> c_expires_at_ms client
      then expire_lease (client\<lparr>c_last_now_ms := now_ms\<rparr>)
      else
        let client' =
          (if requested_kind = RIN_DHCPV6_TRANSMIT_REBIND
           then client\<lparr>c_state := RIN_DHCPV6_STATE_RECONFIGURE_REBINDING,
                  c_transaction_started_ms := 0, c_next_transmit_ms := now_ms, c_retry_ms := 0,
                  c_offer_t1_seconds := DHCPV6_RETRANSMISSION_NOT_STARTED\<rparr>
           else if requested_kind = RIN_DHCPV6_TRANSMIT_INFORMATION_REQUEST \<and>
                   \<not> client_information_mode client
           then client\<lparr>c_state := RIN_DHCPV6_STATE_RECONFIGURE_INFORMATION_REQUESTING,
                  c_transaction_started_ms := 0, c_next_transmit_ms := now_ms, c_retry_ms := 0,
                  c_offer_t1_seconds := DHCPV6_RETRANSMISSION_NOT_STARTED\<rparr>
           else client\<lparr>c_renew_at_ms := now_ms\<rparr>)
        in (RIN_DHCPV6_OK, client'\<lparr>c_last_now_ms := now_ms,
              c_generation := c_generation client + 1\<rparr>))"

section \<open>Preparing a message\<close>

text \<open>The \<open>switch\<close> of \<open>rin_dhcpv6_client_prepare\<close>: the message kind that is due (or none), and
  whether it starts a new transaction; \<^const>\<open>None\<close> is the \<open>default\<close> branch.\<close>

definition prepare_kind :: "dhcpv6_client \<Rightarrow> u64 \<Rightarrow> (u32 \<times> bool) option" where
  "prepare_kind client now_ms =
     (let state = c_state client;
          start = (if client_information_mode client
                   then RIN_DHCPV6_TRANSMIT_INFORMATION_REQUEST else RIN_DHCPV6_TRANSMIT_SOLICIT);
          none = (RIN_DHCPV6_TRANSMIT_NONE, False);
          due = (\<lambda>kind fresh. if now_ms \<ge> c_next_transmit_ms client then (kind, fresh) else none)
      in if state = RIN_DHCPV6_STATE_IDLE then
           Some (if client_startup_delayed client then due start False else (start, True))
         else if state = RIN_DHCPV6_STATE_SOLICITING then
           Some (due RIN_DHCPV6_TRANSMIT_SOLICIT False)
         else if state = RIN_DHCPV6_STATE_ADVERTISED then
           Some (RIN_DHCPV6_TRANSMIT_REQUEST, True)
         else if state = RIN_DHCPV6_STATE_REQUESTING then
           Some (due RIN_DHCPV6_TRANSMIT_REQUEST False)
         else if state = RIN_DHCPV6_STATE_BOUND then
           Some (if now_ms \<ge> c_rebind_at_ms client then (RIN_DHCPV6_TRANSMIT_REBIND, True)
                 else if now_ms \<ge> c_renew_at_ms client then (RIN_DHCPV6_TRANSMIT_RENEW, True)
                 else none)
         else if state = RIN_DHCPV6_STATE_RENEWING then
           Some (if now_ms \<ge> c_rebind_at_ms client then (RIN_DHCPV6_TRANSMIT_REBIND, True)
                 else due RIN_DHCPV6_TRANSMIT_RENEW False)
         else if state = RIN_DHCPV6_STATE_REBINDING then
           Some (due RIN_DHCPV6_TRANSMIT_REBIND False)
         else if state = RIN_DHCPV6_STATE_INFORMATION_REQUESTING then
           Some (due RIN_DHCPV6_TRANSMIT_INFORMATION_REQUEST False)
         else if state = RIN_DHCPV6_STATE_INFORMATION_BOUND then
           Some (if now_ms \<ge> c_renew_at_ms client
                 then (RIN_DHCPV6_TRANSMIT_INFORMATION_REQUEST, True) else none)
         else if state = RIN_DHCPV6_STATE_RECONFIGURE_INFORMATION_REQUESTING then
           Some (due RIN_DHCPV6_TRANSMIT_INFORMATION_REQUEST
                   (c_offer_t1_seconds client = DHCPV6_RETRANSMISSION_NOT_STARTED))
         else if state = RIN_DHCPV6_STATE_RECONFIGURE_REBINDING then
           Some (due RIN_DHCPV6_TRANSMIT_REBIND
                   (c_offer_t1_seconds client = DHCPV6_RETRANSMISSION_NOT_STARTED))
         else None)"

text \<open>The random delay before the first message of a fresh client.\<close>

definition startup_delay :: "dhcpv6_client \<Rightarrow> u32 \<Rightarrow> u64" where
  "startup_delay client transaction_id =
     ucast (random_bounded
       (random_event_seed client transaction_id (c_next_transmit_sequence client) 0x53544152)
       (ucast DHCPV6_STARTUP_DELAY_MAX_MS + 1))"

text \<open>The end of \<open>prepare\<close>: build the message and keep it as the pending one.\<close>

definition prepare_message ::
    "dhcpv6_client \<Rightarrow> u32 \<Rightarrow> u32 \<Rightarrow> u64 \<Rightarrow> int \<times> dhcpv6_client \<times> dhcpv6_transmit" where
  "prepare_message client kind transaction_id now_ms =
     (case build_message client kind transaction_id now_ms of
        Inl status \<Rightarrow> (status, client, zero_transmit)
      | Inr transmit \<Rightarrow>
          let transmit = transmit\<lparr>tx_sequence := c_next_transmit_sequence client\<rparr>
          in (RIN_DHCPV6_PACKET_READY,
              client\<lparr>c_next_transmit_sequence :=
                       (if tx_sequence transmit = UINT32_MAX then 0 else tx_sequence transmit + 1),
                     c_pending := transmit, c_pending_present := 1, c_last_now_ms := now_ms\<rparr>,
              transmit))"

text \<open>The part of \<open>prepare\<close> behind its \<open>switch\<close>: the message kind is known.\<close>

definition prepare_startup ::
    "dhcpv6_client \<Rightarrow> u32 \<Rightarrow> u32 \<Rightarrow> u64 \<Rightarrow> int \<times> dhcpv6_client \<times> dhcpv6_transmit" where
  "prepare_startup client kind transaction_id now_ms =
     (let client' = client\<lparr>c_transaction_id := transaction_id,
            c_offer_t1_seconds := DHCPV6_RETRANSMISSION_NOT_STARTED\<rparr>;
          startup_delay_ms = startup_delay client' transaction_id;
          client' = client'\<lparr>c_next_transmit_ms := now_ms + startup_delay_ms,
            c_generation := c_generation client' + 1\<rparr>
      in if startup_delay_ms \<noteq> 0
         then (RIN_DHCPV6_OK, client'\<lparr>c_last_now_ms := now_ms\<rparr>, zero_transmit)
         else prepare_message client' kind transaction_id now_ms)"

definition prepare_transaction ::
    "dhcpv6_client \<Rightarrow> u32 \<Rightarrow> bool \<Rightarrow> u32 \<Rightarrow> u64 \<Rightarrow> int \<times> dhcpv6_client \<times> dhcpv6_transmit" where
  "prepare_transaction client kind needs_new_transaction new_transaction_id now_ms =
     (if kind = RIN_DHCPV6_TRANSMIT_NONE
      then (RIN_DHCPV6_OK, client\<lparr>c_last_now_ms := now_ms\<rparr>, zero_transmit)
      else if now_ms > UINT64_MAX - DHCPV6_MAX_RANDOMIZED_RT_MS \<or>
         c_next_transmit_sequence client = 0 \<or>
         (needs_new_transaction \<and> c_generation client = UINT64_MAX) \<or>
         (c_state client = RIN_DHCPV6_STATE_IDLE \<and> c_transaction_id client = 0 \<and>
          c_generation client \<ge> UINT64_MAX - 1)
      then (RIN_DHCPV6_RANGE_EXHAUSTED, client, zero_transmit)
      else
        let transaction_id = (if needs_new_transaction then new_transaction_id
                              else c_transaction_id client)
        in if transaction_id = 0 \<or> transaction_id > 0x00ffffff \<or>
              (needs_new_transaction \<and> transaction_id = c_transaction_id client)
           then (RIN_DHCPV6_INVALID_ARGUMENT, client, zero_transmit)
           else if c_state client = RIN_DHCPV6_STATE_IDLE \<and> c_transaction_id client = 0
           then prepare_startup client kind transaction_id now_ms
           else prepare_message client kind transaction_id now_ms)"

definition client_prepare ::
    "dhcpv6_client \<Rightarrow> u32 \<Rightarrow> u64 \<Rightarrow> int \<times> dhcpv6_client \<times> dhcpv6_transmit" where
  "client_prepare client new_transaction_id now_ms =
     (if \<not> client_valid client then (RIN_DHCPV6_INVALID_ARGUMENT, client, zero_transmit)
      else if \<not> time_valid client now_ms then (RIN_DHCPV6_CLOCK_ROLLBACK, client, zero_transmit)
      else if client_has_lease client \<and> now_ms \<ge> c_expires_at_ms client
      then (case expire_lease (client\<lparr>c_last_now_ms := now_ms\<rparr>) of
              (status, client') \<Rightarrow> (status, client', zero_transmit))
      else if c_pending_present client \<noteq> 0 then (RIN_DHCPV6_BUSY, client, zero_transmit)
      else case prepare_kind client now_ms of
        None \<Rightarrow> (RIN_DHCPV6_INVALID_STATE, client, zero_transmit)
      | Some (kind, needs_new_transaction) \<Rightarrow>
          prepare_transaction client kind needs_new_transaction new_transaction_id now_ms)"

section \<open>Completing a transmission\<close>

text \<open>
  The chain of cases of \<open>rin_dhcpv6_client_complete_transmit\<close>: the state after the message, the
  end of the phase and whether the message starts a new phase; \<^const>\<open>None\<close> is \<open>INVALID_STATE\<close>.
\<close>

definition complete_transition :: "dhcpv6_client \<Rightarrow> u32 \<Rightarrow> u32 \<Rightarrow> (u32 \<times> u64 \<times> bool) option" where
  "complete_transition client kind transaction_id =
     (let state = c_state client;
          not_started = (c_offer_t1_seconds client = DHCPV6_RETRANSMISSION_NOT_STARTED);
          same = (\<lambda>phase_end. if transaction_id \<noteq> c_transaction_id client then None
                               else Some (state, phase_end, False));
          reconfigure = (if \<not> not_started \<and> transaction_id \<noteq> c_transaction_id client then None
                         else Some (state, c_expires_at_ms client, not_started))
      in if state = RIN_DHCPV6_STATE_IDLE \<and> not_started \<and> kind = RIN_DHCPV6_TRANSMIT_SOLICIT
         then Some (RIN_DHCPV6_STATE_SOLICITING, 0, True)
         else if state = RIN_DHCPV6_STATE_IDLE \<and> not_started \<and>
                 kind = RIN_DHCPV6_TRANSMIT_INFORMATION_REQUEST
         then Some (RIN_DHCPV6_STATE_INFORMATION_REQUESTING, 0, True)
         else if state = RIN_DHCPV6_STATE_SOLICITING \<and> kind = RIN_DHCPV6_TRANSMIT_SOLICIT
         then same 0
         else if state = RIN_DHCPV6_STATE_ADVERTISED \<and> kind = RIN_DHCPV6_TRANSMIT_REQUEST
         then Some (RIN_DHCPV6_STATE_REQUESTING, 0, True)
         else if state = RIN_DHCPV6_STATE_REQUESTING \<and> kind = RIN_DHCPV6_TRANSMIT_REQUEST
         then same 0
         else if state = RIN_DHCPV6_STATE_BOUND \<and> kind = RIN_DHCPV6_TRANSMIT_RENEW
         then Some (RIN_DHCPV6_STATE_RENEWING, c_rebind_at_ms client, True)
         else if (state = RIN_DHCPV6_STATE_BOUND \<or> state = RIN_DHCPV6_STATE_RENEWING) \<and>
                 kind = RIN_DHCPV6_TRANSMIT_REBIND
         then Some (RIN_DHCPV6_STATE_REBINDING, c_expires_at_ms client, True)
         else if state = RIN_DHCPV6_STATE_RENEWING \<and> kind = RIN_DHCPV6_TRANSMIT_RENEW
         then same (c_rebind_at_ms client)
         else if state = RIN_DHCPV6_STATE_REBINDING \<and> kind = RIN_DHCPV6_TRANSMIT_REBIND
         then same (c_expires_at_ms client)
         else if state = RIN_DHCPV6_STATE_INFORMATION_BOUND \<and>
                 kind = RIN_DHCPV6_TRANSMIT_INFORMATION_REQUEST
         then Some (RIN_DHCPV6_STATE_INFORMATION_REQUESTING, 0, True)
         else if state = RIN_DHCPV6_STATE_INFORMATION_REQUESTING \<and>
                 kind = RIN_DHCPV6_TRANSMIT_INFORMATION_REQUEST
         then same 0
         else if state = RIN_DHCPV6_STATE_RECONFIGURE_INFORMATION_REQUESTING \<and>
                 kind = RIN_DHCPV6_TRANSMIT_INFORMATION_REQUEST
         then reconfigure
         else if state = RIN_DHCPV6_STATE_RECONFIGURE_REBINDING \<and> kind = RIN_DHCPV6_TRANSMIT_REBIND
         then reconfigure
         else None)"

text \<open>The repeated message of a phase: the count of retransmissions and the next timeout.\<close>

definition complete_retransmission ::
    "dhcpv6_client \<Rightarrow> dhcpv6_transmit \<Rightarrow> u32 \<Rightarrow> u64 \<Rightarrow> dhcpv6_client" where
  "complete_retransmission client transmit transaction_id phase_end =
     (let retransmissions = retransmission_mrc (tx_kind transmit);
          count = c_offer_t1_seconds client
      in if retransmissions \<noteq> 0 \<and> count < retransmissions \<and> count + 1 \<ge> retransmissions
         then clear_dynamic (case advance_generation client of None \<Rightarrow> client | Some c \<Rightarrow> c)
         else clear_pending (schedule_later_retry
                (if count < UINT32_MAX - 1 then client\<lparr>c_offer_t1_seconds := count + 1\<rparr> else client)
                (tx_kind transmit) transaction_id (tx_sequence transmit)
                (tx_prepared_at_ms transmit) phase_end))"

definition client_complete_transmit ::
    "dhcpv6_client \<Rightarrow> dhcpv6_transmit \<Rightarrow> int \<Rightarrow> int \<times> dhcpv6_client" where
  "client_complete_transmit client transmit sent_successfully =
     (if \<not> client_valid client \<or> c_pending_present client = 0 \<or> transmit \<noteq> c_pending client \<or>
         (sent_successfully \<noteq> 0 \<and> sent_successfully \<noteq> 1)
      then (RIN_DHCPV6_INVALID_ARGUMENT, client)
      else if sent_successfully = 0 then (RIN_DHCPV6_OK, clear_pending client)
      else
        let transaction_id = load_xid (tx_message transmit)
        in case complete_transition client (tx_kind transmit) transaction_id of
             None \<Rightarrow> (RIN_DHCPV6_INVALID_STATE, client)
           | Some (state, phase_end, transition) \<Rightarrow>
             (let client = client\<lparr>c_state := state\<rparr> in
              if transition then
                (case advance_generation client of
                   None \<Rightarrow> (RIN_DHCPV6_RANGE_EXHAUSTED, client)
                 | Some client \<Rightarrow>
                     (RIN_DHCPV6_OK, clear_pending (schedule_initial_retry
                        (client\<lparr>c_transaction_id := transaction_id\<rparr>) (tx_kind transmit)
                        transaction_id (tx_sequence transmit) (tx_prepared_at_ms transmit)
                        phase_end)))
              else (RIN_DHCPV6_OK, complete_retransmission
                     (client\<lparr>c_transaction_id := transaction_id\<rparr>) transmit transaction_id
                     phase_end)))"

section \<open>Receiving a message\<close>

definition parsed_client_identity_matches :: "dhcpv6_client \<Rightarrow> parsed_message \<Rightarrow> bool" where
  "parsed_client_identity_matches client parsed =
     (length (pm_client_duid parsed) = unat (c_duid_size client) \<and>
      byte_equal (pm_client_duid parsed) (c_duid client) (unat (c_duid_size client)))"

definition parsed_identity_matches :: "dhcpv6_client \<Rightarrow> parsed_message \<Rightarrow> bool" where
  "parsed_identity_matches client parsed =
     (length (pm_client_duid parsed) = unat (c_duid_size client) \<and>
      byte_equal (pm_client_duid parsed) (c_duid client) (unat (c_duid_size client)) \<and>
      pm_iaid parsed = c_iaid client)"

definition parsed_server_identity_matches :: "dhcpv6_client \<Rightarrow> parsed_message \<Rightarrow> bool" where
  "parsed_server_identity_matches client parsed =
     (length (pm_server_duid parsed) = unat (c_server_duid_size client) \<and>
      byte_equal (pm_server_duid parsed) (c_server_duid client)
        (unat (c_server_duid_size client)))"

definition max_rt_override :: "bool \<Rightarrow> u32 \<Rightarrow> u32 \<Rightarrow> u32" where
  "max_rt_override seen seconds current =
     (if seen \<and> seconds \<ge> DHCPV6_MAX_RT_OPTION_MIN_SECONDS \<and>
         seconds \<le> DHCPV6_MAX_RT_OPTION_MAX_SECONDS then seconds else current)"

definition apply_retransmission_overrides ::
    "dhcpv6_client \<Rightarrow> parsed_message \<Rightarrow> u64 \<Rightarrow> int \<times> dhcpv6_client" where
  "apply_retransmission_overrides client parsed now_ms =
     (let state = c_state client;
          requires_selected_server =
            (state = RIN_DHCPV6_STATE_REQUESTING \<or> state = RIN_DHCPV6_STATE_RENEWING \<or>
             state = RIN_DHCPV6_STATE_RECONFIGURE_INFORMATION_REQUESTING);
          allows_information_reply =
            (client_information_mode client \<or>
             state = RIN_DHCPV6_STATE_RECONFIGURE_INFORMATION_REQUESTING)
      in if \<not> pm_structural_valid parsed \<or> \<not> pm_server_seen parsed \<or>
            \<not> parsed_client_identity_matches client parsed
         then (RIN_DHCPV6_OK, client)
         else if (pm_ia_seen parsed \<and> pm_iaid parsed \<noteq> c_iaid client) \<or>
                 (\<not> pm_ia_seen parsed \<and> \<not> allows_information_reply) \<or>
                 (requires_selected_server \<and> \<not> parsed_server_identity_matches client parsed)
         then (RIN_DHCPV6_OK, client)
         else
           let sol_max_rt = max_rt_override (pm_sol_max_rt_seen parsed)
                 (pm_sol_max_rt_seconds parsed) (c_offer_preferred_seconds client);
               inf_max_rt = max_rt_override (pm_inf_max_rt_seen parsed)
                 (pm_inf_max_rt_seconds parsed) (c_offer_valid_seconds client)
           in if sol_max_rt = c_offer_preferred_seconds client \<and>
                 inf_max_rt = c_offer_valid_seconds client
              then (RIN_DHCPV6_OK, client)
              else case advance_generation client of
                  None \<Rightarrow> (RIN_DHCPV6_RANGE_EXHAUSTED, client)
                | Some client' \<Rightarrow>
                    (RIN_DHCPV6_OK, client'\<lparr>c_offer_preferred_seconds := sol_max_rt,
                       c_offer_valid_seconds := inf_max_rt, c_last_now_ms := now_ms\<rparr>))"

text \<open>The copying of parsed values into the fixed arrays of the client.\<close>

definition set_server_duid :: "bytes \<Rightarrow> dhcpv6_client \<Rightarrow> dhcpv6_client" where
  "set_server_duid duid client = client\<lparr>c_server_duid := byte_copy (zero_bytes 32) 0 duid,
     c_server_duid_size := of_nat (length duid)\<rparr>"

definition set_dns_servers :: "bytes list \<Rightarrow> dhcpv6_client \<Rightarrow> dhcpv6_client" where
  "set_dns_servers servers client = client\<lparr>
     c_dns_servers := servers @ replicate (3 - length servers) (zero_bytes 16),
     c_dns_server_count := of_nat (length servers)\<rparr>"

definition next_lease_generation :: "dhcpv6_client \<Rightarrow> dhcpv6_client" where
  "next_lease_generation client = client\<lparr>
     c_lease_generation := c_next_lease_generation client,
     c_next_lease_generation := (if c_next_lease_generation client = UINT64_MAX then 0
                                 else c_next_lease_generation client + 1)\<rparr>"

text \<open>The timers that every commit resets, with the state it enters.\<close>

definition commit_state :: "u32 \<Rightarrow> dhcpv6_client \<Rightarrow> dhcpv6_client" where
  "commit_state state client = client\<lparr>c_offer_t1_seconds := 0, c_offer_t2_seconds := 0,
     c_transaction_started_ms := 0, c_next_transmit_ms := 0, c_retry_ms := 0,
     c_state := state, c_generation := c_generation client + 1\<rparr>"

definition commit_offer :: "dhcpv6_client \<Rightarrow> parsed_message \<Rightarrow> int \<times> dhcpv6_client" where
  "commit_offer client parsed =
     (if \<not> parsed_identity_matches client parsed \<or> \<not> address_usable (pm_address parsed) \<or>
         lifetimes_normalize (pm_valid_seconds parsed) (pm_preferred_seconds parsed)
           (pm_t1_seconds parsed) (pm_t2_seconds parsed) = None
      then (RIN_DHCPV6_MALFORMED_PACKET, client)
      else if c_generation client = UINT64_MAX then (RIN_DHCPV6_RANGE_EXHAUSTED, client)
      else (RIN_DHCPV6_OFFER_READY,
        commit_state RIN_DHCPV6_STATE_ADVERTISED
          ((set_server_duid (pm_server_duid parsed) client)\<lparr>c_address := pm_address parsed\<rparr>)))"

definition commit_lease :: "dhcpv6_client \<Rightarrow> parsed_message \<Rightarrow> u64 \<Rightarrow> int \<times> dhcpv6_client" where
  "commit_lease client parsed now_ms =
     (let allow_server_change =
            (c_state client = RIN_DHCPV6_STATE_REBINDING \<or>
             c_state client = RIN_DHCPV6_STATE_RECONFIGURE_REBINDING)
      in if \<not> parsed_identity_matches client parsed \<or> \<not> address_usable (pm_address parsed)
         then (RIN_DHCPV6_MALFORMED_PACKET, client)
         else case lifetimes_normalize (pm_valid_seconds parsed) (pm_preferred_seconds parsed)
                (pm_t1_seconds parsed) (pm_t2_seconds parsed) of
           None \<Rightarrow> (RIN_DHCPV6_MALFORMED_PACKET, client)
         | Some (t1, t2) \<Rightarrow>
           if \<not> allow_server_change \<and>
              (length (pm_server_duid parsed) \<noteq> unat (c_server_duid_size client) \<or>
               \<not> byte_equal (pm_server_duid parsed) (c_server_duid client)
                   (unat (c_server_duid_size client)))
           then (RIN_DHCPV6_NOT_FOR_US, client)
           else if \<not> allow_server_change \<and> \<not> byte_equal (pm_address parsed) (c_address client) 16
           then (RIN_DHCPV6_NOT_FOR_US, client)
           else case (deadline_from_seconds now_ms t1, deadline_from_seconds now_ms t2,
                      deadline_from_seconds now_ms (pm_preferred_seconds parsed),
                      deadline_from_seconds now_ms (pm_valid_seconds parsed)) of
             (Some renew_at, Some rebind_at, Some preferred_until, Some expires_at) \<Rightarrow>
               if c_next_lease_generation client = 0 \<or> c_generation client = UINT64_MAX
               then (RIN_DHCPV6_RANGE_EXHAUSTED, client)
               else
                 let client' = (if allow_server_change
                                then set_server_duid (pm_server_duid parsed) client else client);
                     client' = set_dns_servers (pm_dns_servers parsed)
                       (client'\<lparr>c_address := pm_address parsed\<rparr>);
                     client' = next_lease_generation (client'\<lparr>
                       c_preferred_until_ms := preferred_until, c_renew_at_ms := renew_at,
                       c_rebind_at_ms := rebind_at, c_expires_at_ms := expires_at\<rparr>)
                 in (RIN_DHCPV6_LEASE_READY, commit_state RIN_DHCPV6_STATE_BOUND client')
           | _ \<Rightarrow> (RIN_DHCPV6_RANGE_EXHAUSTED, client))"

definition commit_information ::
    "dhcpv6_client \<Rightarrow> parsed_message \<Rightarrow> u64 \<Rightarrow> int \<times> dhcpv6_client" where
  "commit_information client parsed now_ms =
     (let refresh_seconds = information_refresh_normalize
            (if pm_information_refresh_seen parsed then pm_information_refresh_seconds parsed else 0)
      in if \<not> client_information_mode client \<or> \<not> parsed_client_identity_matches client parsed \<or>
            \<not> pm_server_seen parsed \<or> pm_ia_seen parsed \<or> pm_address_seen parsed
         then (RIN_DHCPV6_MALFORMED_PACKET, client)
         else case (deadline_from_seconds now_ms refresh_seconds,
                    deadline_from_seconds now_ms (refresh_seconds * 2)) of
           (Some refresh_at, Some expires_at) \<Rightarrow>
             if c_next_lease_generation client = 0 \<or> c_generation client = UINT64_MAX
             then (RIN_DHCPV6_RANGE_EXHAUSTED, client)
             else
               let client' = set_dns_servers (pm_dns_servers parsed)
                     ((set_server_duid (pm_server_duid parsed) client)\<lparr>c_address := zero_bytes 16\<rparr>);
                   client' = next_lease_generation (client'\<lparr>
                     c_preferred_until_ms := expires_at, c_renew_at_ms := refresh_at,
                     c_rebind_at_ms := expires_at, c_expires_at_ms := expires_at\<rparr>)
               in (RIN_DHCPV6_LEASE_READY,
                   commit_state RIN_DHCPV6_STATE_INFORMATION_BOUND client')
         | _ \<Rightarrow> (RIN_DHCPV6_MALFORMED_PACKET, client))"

definition commit_reconfigure_information ::
    "dhcpv6_client \<Rightarrow> parsed_message \<Rightarrow> int \<times> dhcpv6_client" where
  "commit_reconfigure_information client parsed =
     (if client_information_mode client \<or> \<not> parsed_client_identity_matches client parsed \<or>
         \<not> pm_server_seen parsed \<or> pm_ia_seen parsed \<or> pm_address_seen parsed \<or>
         length (pm_server_duid parsed) \<noteq> unat (c_server_duid_size client) \<or>
         \<not> byte_equal (pm_server_duid parsed) (c_server_duid client)
             (unat (c_server_duid_size client)) \<or>
         c_next_lease_generation client = 0 \<or> c_generation client = UINT64_MAX
      then (RIN_DHCPV6_MALFORMED_PACKET, client)
      else (RIN_DHCPV6_LEASE_READY,
        commit_state RIN_DHCPV6_STATE_BOUND
          (next_lease_generation (set_dns_servers (pm_dns_servers parsed) client))))"

text \<open>The message type a state waits for; \<^const>\<open>None\<close> when it waits for none.\<close>

definition receive_expected_type :: "u32 \<Rightarrow> u8 option" where
  "receive_expected_type state =
     (if state = RIN_DHCPV6_STATE_SOLICITING then Some DHCPV6_MESSAGE_ADVERTISE
      else if state = RIN_DHCPV6_STATE_REQUESTING \<or> state = RIN_DHCPV6_STATE_RENEWING \<or>
              state = RIN_DHCPV6_STATE_REBINDING
      then Some DHCPV6_MESSAGE_REPLY
      else if state = RIN_DHCPV6_STATE_INFORMATION_REQUESTING then Some DHCPV6_MESSAGE_REPLY
      else if state = RIN_DHCPV6_STATE_RECONFIGURE_INFORMATION_REQUESTING
      then Some DHCPV6_MESSAGE_REPLY
      else if state = RIN_DHCPV6_STATE_RECONFIGURE_REBINDING then Some DHCPV6_MESSAGE_REPLY
      else None)"

definition receive_requires_ia :: "u32 \<Rightarrow> bool" where
  "receive_requires_ia state =
     (state \<noteq> RIN_DHCPV6_STATE_INFORMATION_REQUESTING \<and>
      state \<noteq> RIN_DHCPV6_STATE_RECONFIGURE_INFORMATION_REQUESTING)"

text \<open>The last part of \<open>receive\<close>: the commit that belongs to the state.\<close>

definition receive_commit ::
    "dhcpv6_client \<Rightarrow> u8 \<Rightarrow> parsed_message \<Rightarrow> u64 \<Rightarrow> int \<times> dhcpv6_client" where
  "receive_commit client expected_type parsed now_ms =
     (case (if expected_type = DHCPV6_MESSAGE_ADVERTISE then commit_offer client parsed
            else if c_state client = RIN_DHCPV6_STATE_INFORMATION_REQUESTING
            then commit_information client parsed now_ms
            else if c_state client = RIN_DHCPV6_STATE_RECONFIGURE_INFORMATION_REQUESTING
            then commit_reconfigure_information client parsed
            else commit_lease client parsed now_ms) of
        (status, client') \<Rightarrow>
          (status, if status > 0 then client'\<lparr>c_last_now_ms := now_ms\<rparr> else client'))"

definition receive_parsed ::
    "dhcpv6_client \<Rightarrow> u8 \<Rightarrow> int \<Rightarrow> parsed_message \<Rightarrow> u64 \<Rightarrow> int \<times> dhcpv6_client" where
  "receive_parsed client expected_type status parsed now_ms =
     (case (if status = RIN_DHCPV6_OK \<or> status = RIN_DHCPV6_SERVER_REJECTED
            then apply_retransmission_overrides client parsed now_ms
            else (RIN_DHCPV6_OK, client)) of
        (override_status, client') \<Rightarrow>
          if override_status \<noteq> RIN_DHCPV6_OK then (override_status, client')
          else
            let client' = (if status = RIN_DHCPV6_SERVER_REJECTED \<and> pm_structural_valid parsed \<and>
                              parsed_client_identity_matches client' parsed
                           then client'\<lparr>c_last_now_ms := now_ms\<rparr> else client')
            in if status \<noteq> RIN_DHCPV6_OK then (status, client')
               else receive_commit client' expected_type parsed now_ms)"

definition client_receive :: "dhcpv6_client \<Rightarrow> bytes \<Rightarrow> u64 \<Rightarrow> int \<times> dhcpv6_client" where
  "client_receive client message now_ms =
     (if \<not> client_valid client \<or> length message < 4 \<or> length message > RIN_DHCPV6_MAX_MESSAGE_SIZE
      then (RIN_DHCPV6_INVALID_ARGUMENT, client)
      else if now_ms < c_last_now_ms client then (RIN_DHCPV6_CLOCK_ROLLBACK, client)
      else if c_pending_present client \<noteq> 0 then (RIN_DHCPV6_BUSY, client)
      else case receive_expected_type (c_state client) of
        None \<Rightarrow> (RIN_DHCPV6_INVALID_STATE, client)
      | Some expected_type \<Rightarrow>
        if load_xid message \<noteq> c_transaction_id client then (RIN_DHCPV6_NOT_FOR_US, client)
        else case parse_message message expected_type (receive_requires_ia (c_state client)) of
          (status, parsed) \<Rightarrow> receive_parsed client expected_type status parsed now_ms)"

section \<open>Reading the lease, stopping\<close>

definition lease_of_client :: "dhcpv6_client \<Rightarrow> dhcpv6_lease" where
  "lease_of_client client = zero_lease\<lparr>
     ls_version := RIN_DHCPV6_CLIENT_VERSION,
     ls_struct_size := sizeof_lease,
     ls_interface_generation := c_interface_generation client,
     ls_lease_generation := c_lease_generation client,
     ls_preferred_until_ms := c_preferred_until_ms client,
     ls_renew_at_ms := c_renew_at_ms client,
     ls_rebind_at_ms := c_rebind_at_ms client,
     ls_expires_at_ms := c_expires_at_ms client,
     ls_dns_server_count := c_dns_server_count client,
     ls_state := c_state client,
     ls_address := c_address client,
     ls_dns_servers := take (unat (c_dns_server_count client)) (c_dns_servers client) @
       drop (unat (c_dns_server_count client)) (ls_dns_servers zero_lease)\<rparr>"

definition client_get_lease :: "dhcpv6_client \<Rightarrow> u64 \<Rightarrow> int \<times> dhcpv6_client \<times> dhcpv6_lease" where
  "client_get_lease client now_ms =
     (if \<not> client_valid client then (RIN_DHCPV6_INVALID_ARGUMENT, client, zero_lease)
      else if \<not> time_valid client now_ms then (RIN_DHCPV6_CLOCK_ROLLBACK, client, zero_lease)
      else if client_has_lease client \<and> now_ms \<ge> c_expires_at_ms client
      then (case expire_lease (client\<lparr>c_last_now_ms := now_ms\<rparr>) of
              (status, client') \<Rightarrow> (status, client', zero_lease))
      else if \<not> client_has_lease client then (RIN_DHCPV6_NOT_FOUND, client, zero_lease)
      else let client' = client\<lparr>c_last_now_ms := now_ms\<rparr>
        in (RIN_DHCPV6_OK, client', lease_of_client client'))"

definition client_stop :: "dhcpv6_client \<Rightarrow> int \<times> dhcpv6_client" where
  "client_stop client =
     (if \<not> client_valid client then (RIN_DHCPV6_INVALID_ARGUMENT, client)
      else if c_state client = RIN_DHCPV6_STATE_IDLE \<and> c_transaction_id client = 0 \<and>
         c_pending_present client = 0
      then (RIN_DHCPV6_OK, client)
      else case advance_generation client of
          None \<Rightarrow> (RIN_DHCPV6_RANGE_EXHAUSTED, client)
        | Some client' \<Rightarrow> (RIN_DHCPV6_OK, clear_dynamic client'))"

section \<open>The entry points\<close>

text \<open>The public functions on pointers: \<open>NULL\<close> arguments and overlapping objects.\<close>

definition rin_dhcpv6_client_state_valid :: "dhcpv6_client cptr \<Rightarrow> bool" where
  "rin_dhcpv6_client_state_valid client =
     (case client of Null \<Rightarrow> False | Ptr _ c \<Rightarrow> client_valid c)"

definition rin_dhcpv6_client_init :: "dhcpv6_client cptr \<Rightarrow> bytes cptr \<Rightarrow> u32 \<Rightarrow> u32 \<Rightarrow> u64 \<Rightarrow>
    int \<times> dhcpv6_client cptr" where
  "rin_dhcpv6_client_init client duid duid_size iaid interface_generation =
     (case (client, duid) of
        (Ptr a _, Ptr d bs) \<Rightarrow>
          if \<not> duid_valid bs (unat duid_size) \<or> iaid = 0 \<or> interface_generation = 0 \<or>
             memory_overlaps a (ucast sizeof_client) d (ucast duid_size)
          then (RIN_DHCPV6_INVALID_ARGUMENT, client)
          else (RIN_DHCPV6_OK, Ptr a (client_init bs duid_size iaid interface_generation))
      | _ \<Rightarrow> (RIN_DHCPV6_INVALID_ARGUMENT, client))"

definition rin_dhcpv6_client_set_mode :: "dhcpv6_client cptr \<Rightarrow> u32 \<Rightarrow> int \<times> dhcpv6_client cptr" where
  "rin_dhcpv6_client_set_mode client mode =
     (case client of
        Null \<Rightarrow> (RIN_DHCPV6_INVALID_ARGUMENT, client)
      | Ptr a c \<Rightarrow> map_prod id (Ptr a) (client_set_mode c mode))"

definition rin_dhcpv6_client_request_reconfigure ::
    "dhcpv6_client cptr \<Rightarrow> u32 \<Rightarrow> u64 \<Rightarrow> int \<times> dhcpv6_client cptr" where
  "rin_dhcpv6_client_request_reconfigure client requested_kind now_ms =
     (case client of
        Null \<Rightarrow> (RIN_DHCPV6_INVALID_ARGUMENT, client)
      | Ptr a c \<Rightarrow> map_prod id (Ptr a) (client_request_reconfigure c requested_kind now_ms))"

definition rin_dhcpv6_client_prepare ::
    "dhcpv6_client cptr \<Rightarrow> u32 \<Rightarrow> u64 \<Rightarrow> dhcpv6_transmit cptr \<Rightarrow>
     int \<times> dhcpv6_client cptr \<times> dhcpv6_transmit cptr" where
  "rin_dhcpv6_client_prepare client new_transaction_id now_ms transmit_out =
     (if memory_overlaps (ptr_address client) (ucast sizeof_client)
           (ptr_address transmit_out) (ucast sizeof_transmit)
      then (RIN_DHCPV6_INVALID_ARGUMENT, client, transmit_out)
      else case (client, transmit_out) of
        (Ptr a c, Ptr t _) \<Rightarrow>
          (case client_prepare c new_transaction_id now_ms of
             (status, c', transmit) \<Rightarrow> (status, Ptr a c', Ptr t transmit))
      | (Null, Ptr t _) \<Rightarrow> (RIN_DHCPV6_INVALID_ARGUMENT, client, Ptr t zero_transmit)
      | _ \<Rightarrow> (RIN_DHCPV6_INVALID_ARGUMENT, client, transmit_out))"

definition rin_dhcpv6_client_complete_transmit ::
    "dhcpv6_client cptr \<Rightarrow> dhcpv6_transmit cptr \<Rightarrow> int \<Rightarrow> int \<times> dhcpv6_client cptr" where
  "rin_dhcpv6_client_complete_transmit client transmit sent_successfully =
     (case (client, transmit) of
        (Ptr a c, Ptr t tx) \<Rightarrow>
          if memory_overlaps a (ucast sizeof_client) t (ucast sizeof_transmit)
          then (RIN_DHCPV6_INVALID_ARGUMENT, client)
          else map_prod id (Ptr a) (client_complete_transmit c tx sent_successfully)
      | _ \<Rightarrow> (RIN_DHCPV6_INVALID_ARGUMENT, client))"

definition rin_dhcpv6_client_receive ::
    "dhcpv6_client cptr \<Rightarrow> bytes cptr \<Rightarrow> u64 \<Rightarrow> int \<times> dhcpv6_client cptr" where
  "rin_dhcpv6_client_receive client message now_ms =
     (case (client, message) of
        (Ptr a c, Ptr m bs) \<Rightarrow>
          if memory_overlaps a (ucast sizeof_client) m (of_nat (length bs))
          then (RIN_DHCPV6_INVALID_ARGUMENT, client)
          else map_prod id (Ptr a) (client_receive c bs now_ms)
      | _ \<Rightarrow> (RIN_DHCPV6_INVALID_ARGUMENT, client))"

definition rin_dhcpv6_client_get_lease ::
    "dhcpv6_client cptr \<Rightarrow> u64 \<Rightarrow> dhcpv6_lease cptr \<Rightarrow>
     int \<times> dhcpv6_client cptr \<times> dhcpv6_lease cptr" where
  "rin_dhcpv6_client_get_lease client now_ms lease_out =
     (if memory_overlaps (ptr_address client) (ucast sizeof_client)
           (ptr_address lease_out) (ucast sizeof_lease)
      then (RIN_DHCPV6_INVALID_ARGUMENT, client, lease_out)
      else case (client, lease_out) of
        (Ptr a c, Ptr l _) \<Rightarrow>
          (case client_get_lease c now_ms of
             (status, c', lease) \<Rightarrow> (status, Ptr a c', Ptr l lease))
      | (Null, Ptr l _) \<Rightarrow> (RIN_DHCPV6_INVALID_ARGUMENT, client, Ptr l zero_lease)
      | _ \<Rightarrow> (RIN_DHCPV6_INVALID_ARGUMENT, client, lease_out))"

definition rin_dhcpv6_client_stop :: "dhcpv6_client cptr \<Rightarrow> int \<times> dhcpv6_client cptr" where
  "rin_dhcpv6_client_stop client =
     (case client of
        Null \<Rightarrow> (RIN_DHCPV6_INVALID_ARGUMENT, client)
      | Ptr a c \<Rightarrow> map_prod id (Ptr a) (client_stop c))"

definition rin_dhcpv6_client_destroy :: "dhcpv6_client cptr \<Rightarrow> dhcpv6_client cptr" where
  "rin_dhcpv6_client_destroy client =
     (case client of Null \<Rightarrow> Null | Ptr a _ \<Rightarrow> Ptr a zero_client)"

end
