(* ===== verification/Dhcpv6_Client_V2.thy ===== *)
theory Dhcpv6_Client_V2
  imports Dhcpv6_Client
begin

text \<open>
  The version 2 client of \<open>src/rin_dhcpv6_client.c\<close>: it keeps up to four address bindings beside
  an embedded version 1 client. Received messages are parsed twice, once for the bindings and once,
  rewritten to a single synthetic address, by the embedded client. The array of bindings is a list
  of four records of which the first \<open>address_count\<close> are in use.
\<close>

section \<open>Validity\<close>

text \<open>The index of an address among the used bindings; \<^const>\<open>None\<close> is the result \<open>-1\<close>.\<close>

fun client_v2_binding_index :: "dhcpv6_binding list \<Rightarrow> bytes \<Rightarrow> nat option" where
  "client_v2_binding_index [] address = None"
| "client_v2_binding_index (b # bs) address =
     (if byte_equal (b_address b) address 16 then Some 0
      else map_option Suc (client_v2_binding_index bs address))"

definition v2_live :: "dhcpv6_client_v2 \<Rightarrow> dhcpv6_binding list" where
  "v2_live client = take (unat (v2_address_count client)) (v2_addresses client)"

definition v2_binding_valid :: "dhcpv6_client_v2 \<Rightarrow> nat \<Rightarrow> bool" where
  "v2_binding_valid client index =
     (let binding = v2_addresses client ! index in
      if index \<ge> unat (v2_address_count client) then binding = zero_binding
      else \<not> (\<not> address_usable (b_address binding) \<or> b_reserved binding \<noteq> 0 \<or>
              b_reserved_alignment binding \<noteq> 0 \<or> b_generation binding = 0 \<or>
              b_preferred_until_ms binding > b_valid_until_ms binding \<or>
              b_generation binding \<ge> v2_next_address_generation client) \<and>
           list_all (\<lambda>prior. \<not> byte_equal (b_address (v2_addresses client ! prior))
                                  (b_address binding) 16) [0 ..< index])"

definition client_v2_state_valid :: "dhcpv6_client_v2 \<Rightarrow> bool" where
  "client_v2_state_valid client =
     (if v2_version client \<noteq> RIN_DHCPV6_CLIENT_V2_VERSION \<or>
         v2_struct_size client \<noteq> sizeof_client_v2 \<or> v2_reserved client \<noteq> 0 \<or>
         v2_address_count client > 4 \<or> v2_next_address_generation client = 0 \<or>
         \<not> client_valid (v2_exchange client)
      then False
      else if \<not> list_all (v2_binding_valid client) [0 ..< RIN_DHCPV6_MAX_IA_ADDRESSES] then False
      else \<not> (v2_address_count client \<noteq> 0 \<and>
              \<not> client_state_has_lease (c_state (v2_exchange client)) \<and>
              c_state (v2_exchange client) \<noteq> RIN_DHCPV6_STATE_ADVERTISED \<and>
              c_state (v2_exchange client) \<noteq> RIN_DHCPV6_STATE_REQUESTING))"

section \<open>Operations passed on to the exchange\<close>

definition client_v2_init :: "bytes \<Rightarrow> u32 \<Rightarrow> u32 \<Rightarrow> u64 \<Rightarrow> int \<times> dhcpv6_client_v2" where
  "client_v2_init duid duid_size iaid interface_generation =
     (if \<not> duid_valid duid (unat duid_size) \<or> iaid = 0 \<or> interface_generation = 0
      then (RIN_DHCPV6_INVALID_ARGUMENT, zero_client_v2)
      else (RIN_DHCPV6_OK, zero_client_v2\<lparr>
              v2_exchange := client_init duid duid_size iaid interface_generation,
              v2_version := RIN_DHCPV6_CLIENT_V2_VERSION,
              v2_struct_size := sizeof_client_v2,
              v2_next_address_generation := 1\<rparr>))"

definition client_v2_set_mode :: "dhcpv6_client_v2 \<Rightarrow> u32 \<Rightarrow> int \<times> dhcpv6_client_v2" where
  "client_v2_set_mode client mode =
     (if \<not> client_v2_state_valid client then (RIN_DHCPV6_INVALID_ARGUMENT, client)
      else case client_set_mode (v2_exchange client) mode of
        (status, exchange) \<Rightarrow> (status, client\<lparr>v2_exchange := exchange\<rparr>))"

definition client_v2_request_reconfigure ::
    "dhcpv6_client_v2 \<Rightarrow> u32 \<Rightarrow> u64 \<Rightarrow> int \<times> dhcpv6_client_v2" where
  "client_v2_request_reconfigure client requested_kind now_ms =
     (if \<not> client_v2_state_valid client then (RIN_DHCPV6_INVALID_ARGUMENT, client)
      else case client_request_reconfigure (v2_exchange client) requested_kind now_ms of
        (status, exchange) \<Rightarrow> (status, client\<lparr>v2_exchange := exchange\<rparr>))"

definition client_v2_complete_transmit ::
    "dhcpv6_client_v2 \<Rightarrow> dhcpv6_transmit \<Rightarrow> int \<Rightarrow> int \<times> dhcpv6_client_v2" where
  "client_v2_complete_transmit client transmit sent_successfully =
     (if \<not> client_v2_state_valid client then (RIN_DHCPV6_INVALID_ARGUMENT, client)
      else case client_complete_transmit (v2_exchange client) transmit sent_successfully of
        (status, exchange) \<Rightarrow> (status, client\<lparr>v2_exchange := exchange\<rparr>))"

definition client_v2_stop :: "dhcpv6_client_v2 \<Rightarrow> int \<times> dhcpv6_client_v2" where
  "client_v2_stop client =
     (if \<not> client_v2_state_valid client then (RIN_DHCPV6_INVALID_ARGUMENT, client)
      else case client_stop (v2_exchange client) of
        (status, exchange) \<Rightarrow>
          (status, if status = RIN_DHCPV6_OK
                   then client\<lparr>v2_exchange := exchange, v2_address_count := 0,
                               v2_addresses := replicate 4 zero_binding\<rparr>
                   else client\<lparr>v2_exchange := exchange\<rparr>))"

section \<open>Preparing a message with all bindings\<close>

definition client_v2_remaining_seconds :: "u64 \<Rightarrow> u64 \<Rightarrow> u32" where
  "client_v2_remaining_seconds deadline now_ms =
     (if deadline \<le> now_ms then 0
      else let seconds = (deadline - now_ms) div 1000;
               seconds = (if (deadline - now_ms) mod 1000 \<noteq> 0 then seconds + 1 else seconds)
           in if seconds > ucast UINT32_MAX then UINT32_MAX else ucast seconds)"

text \<open>The bindings that are still valid, as the options of a rewritten IA_NA.\<close>

definition v2_unexpired :: "dhcpv6_client_v2 \<Rightarrow> u64 \<Rightarrow> dhcpv6_binding list" where
  "v2_unexpired client now_ms = filter (\<lambda>b. b_valid_until_ms b > now_ms) (v2_live client)"

definition v2_binding_option :: "u64 \<Rightarrow> dhcpv6_binding \<Rightarrow> bytes" where
  "v2_binding_option now_ms binding =
     store_be16 DHCPV6_OPTION_IA_ADDRESS @ store_be16 24 @ take 16 (b_address binding) @
     store_be32 (client_v2_remaining_seconds (b_preferred_until_ms binding) now_ms) @
     store_be32 (client_v2_remaining_seconds (b_valid_until_ms binding) now_ms)"

text \<open>
  The loop over the options of the message: (IA_NA found, bytes written so far). Copying an option
  is copying its four header bytes and its value.
\<close>

definition rewrite_ia_option :: "dhcpv6_client_v2 \<Rightarrow> u64 \<Rightarrow> u16 \<Rightarrow> bytes \<Rightarrow> bool \<times> bytes \<Rightarrow>
    int + bool \<times> bytes" where
  "rewrite_ia_option client now_ms code value acc =
     (let found = fst acc; rewritten = snd acc in
      if code \<noteq> DHCPV6_OPTION_IA_NA then
        (if 4 + length value > 512 - length rewritten then Inl RIN_DHCPV6_RANGE_EXHAUSTED
         else Inr (found, rewritten @ store_be16 code @ store_be16 (of_nat (length value)) @ value))
      else if found \<or> length value < 12 then Inl RIN_DHCPV6_INVALID_STATE
      else
        let live = v2_unexpired client now_ms;
            ia_payload_size = 12 + 28 * length live
        in if ia_payload_size > 65535 \<or> ia_payload_size + 4 > 512 - length rewritten
           then Inl RIN_DHCPV6_RANGE_EXHAUSTED
           else Inr (True, rewritten @ store_be16 DHCPV6_OPTION_IA_NA @
                  store_be16 (of_nat ia_payload_size) @ take 12 value @
                  concat (map (v2_binding_option now_ms) live)))"

definition client_v2_rewrite_renew_ia :: "dhcpv6_client_v2 \<Rightarrow> u64 \<Rightarrow> dhcpv6_transmit \<Rightarrow>
    int \<times> dhcpv6_client_v2 \<times> dhcpv6_transmit" where
  "client_v2_rewrite_renew_ia client now_ms transmit =
     (if tx_kind transmit \<noteq> RIN_DHCPV6_TRANSMIT_REQUEST \<and>
         tx_kind transmit \<noteq> RIN_DHCPV6_TRANSMIT_RENEW \<and>
         tx_kind transmit \<noteq> RIN_DHCPV6_TRANSMIT_REBIND
      then (RIN_DHCPV6_OK, client, transmit)
      else if tx_message_size transmit < 4 \<or> tx_message_size transmit > 512
      then (RIN_DHCPV6_INVALID_STATE, client, transmit)
      else
        let message = take (unat (tx_message_size transmit)) (tx_message transmit)
        in case option_walk RIN_DHCPV6_INVALID_STATE (rewrite_ia_option client now_ms)
                  (drop 4 message) (False, take 4 message) of
             Inl status \<Rightarrow> (status, client, transmit)
           | Inr (found, rewritten) \<Rightarrow>
             if \<not> found then (RIN_DHCPV6_INVALID_STATE, client, transmit)
             else if length rewritten > 512 then (RIN_DHCPV6_RANGE_EXHAUSTED, client, transmit)
             else
               let bytes = byte_copy (zero_bytes 512) 0 rewritten;
                   n = of_nat (length rewritten);
                   exchange = v2_exchange client
               in (RIN_DHCPV6_OK,
                   client\<lparr>v2_exchange := exchange\<lparr>c_pending := (c_pending exchange)\<lparr>
                     tx_message_size := n, tx_message := bytes\<rparr>\<rparr>\<rparr>,
                   transmit\<lparr>tx_message := bytes, tx_message_size := n\<rparr>))"

definition client_v2_prepare :: "dhcpv6_client_v2 \<Rightarrow> u32 \<Rightarrow> u64 \<Rightarrow> dhcpv6_transmit \<Rightarrow>
    int \<times> dhcpv6_client_v2 \<times> dhcpv6_transmit" where
  "client_v2_prepare client new_transaction_id now_ms transmit_out =
     (if \<not> client_v2_state_valid client then (RIN_DHCPV6_INVALID_ARGUMENT, client, transmit_out)
      else case client_prepare (v2_exchange client) new_transaction_id now_ms of
        (status, exchange, transmit) \<Rightarrow>
          let client = client\<lparr>v2_exchange := exchange\<rparr> in
          if status \<noteq> RIN_DHCPV6_PACKET_READY then (status, client, transmit)
          else case client_v2_rewrite_renew_ia client now_ms transmit of
            (status, client, transmit) \<Rightarrow>
              if status \<noteq> RIN_DHCPV6_OK
              then (status, client\<lparr>v2_exchange :=
                      snd (client_complete_transmit (v2_exchange client) transmit 0)\<rparr>, zero_transmit)
              else (RIN_DHCPV6_PACKET_READY, client, transmit))"

section \<open>Bindings from a received message\<close>

text \<open>
  The candidates are the used prefix of the array \<open>candidate\<close>. One address of the message: an
  address with an error status or no lifetime is removed, a known one is updated, a new one is
  appended; \<^const>\<open>None\<close> is \<open>RANGE_EXHAUSTED\<close>.
\<close>

definition prepare_binding :: "u64 \<Rightarrow> parsed_ia_address \<Rightarrow> dhcpv6_binding list \<times> u64 \<Rightarrow>
    (dhcpv6_binding list \<times> u64) option" where
  "prepare_binding now_ms parsed_address acc =
     (let candidate = fst acc; next_generation = snd acc;
          found = client_v2_binding_index candidate (pia_address parsed_address)
      in if pia_status_code parsed_address \<noteq> 0 \<or> pia_valid_seconds parsed_address = 0
         then Some (case found of None \<Rightarrow> candidate
                    | Some i \<Rightarrow> take i candidate @ drop (Suc i) candidate, next_generation)
         else case (deadline_from_seconds now_ms (pia_preferred_seconds parsed_address),
                    deadline_from_seconds now_ms (pia_valid_seconds parsed_address)) of
           (Some preferred_until, Some valid_until) \<Rightarrow>
             (let binding = (\<lambda>generation. zero_binding\<lparr>b_address := pia_address parsed_address,
                    b_preferred_until_ms := preferred_until, b_valid_until_ms := valid_until,
                    b_generation := generation\<rparr>)
              in case found of
                Some i \<Rightarrow>
                  (let previous = candidate ! i in
                   if b_preferred_until_ms previous \<noteq> preferred_until \<or>
                      b_valid_until_ms previous \<noteq> valid_until
                   then (if next_generation = UINT64_MAX then None
                         else Some (candidate[i := binding next_generation], next_generation + 1))
                   else Some (candidate[i := binding (b_generation previous)], next_generation))
              | None \<Rightarrow>
                  (if length candidate \<ge> RIN_DHCPV6_MAX_IA_ADDRESSES \<or>
                      next_generation = UINT64_MAX then None
                   else Some (candidate @ [binding next_generation], next_generation + 1)))
         | _ \<Rightarrow> None)"

fun prepare_binding_list :: "u64 \<Rightarrow> parsed_ia_address list \<Rightarrow> dhcpv6_binding list \<times> u64 \<Rightarrow>
    (dhcpv6_binding list \<times> u64) option" where
  "prepare_binding_list now_ms [] acc = Some acc"
| "prepare_binding_list now_ms (a # as) acc =
     Option.bind (prepare_binding now_ms a acc) (prepare_binding_list now_ms as)"

definition client_v2_prepare_bindings :: "dhcpv6_client_v2 \<Rightarrow> parsed_message \<Rightarrow> u64 \<Rightarrow> u32 \<Rightarrow>
    (dhcpv6_binding list \<times> u64) option" where
  "client_v2_prepare_bindings client parsed now_ms old_state =
     (let preserve_omitted = (old_state = RIN_DHCPV6_STATE_RENEWING \<or>
            old_state = RIN_DHCPV6_STATE_REBINDING \<or>
            old_state = RIN_DHCPV6_STATE_RECONFIGURE_REBINDING)
      in prepare_binding_list now_ms (pm_ia_addresses parsed)
           (if preserve_omitted then v2_live client else [], v2_next_address_generation client))"

section \<open>The message for the exchange\<close>

text \<open>The walk over the options inside the IA_NA: everything but addresses is copied.\<close>

definition copy_ia_suboption :: "nat \<Rightarrow> u16 \<Rightarrow> bytes \<Rightarrow> bytes \<Rightarrow> int + bytes" where
  "copy_ia_suboption used code value payload =
     (if code \<noteq> DHCPV6_OPTION_IA_ADDRESS then
        (if 4 + length value > RIN_DHCPV6_MAX_MESSAGE_SIZE - (used + 4 + length payload)
         then Inl RIN_DHCPV6_RANGE_EXHAUSTED
         else Inr (payload @ store_be16 code @ store_be16 (of_nat (length value)) @ value))
      else Inr payload)"

definition single_address_option :: "parsed_message \<Rightarrow> bytes \<Rightarrow> u16 \<Rightarrow> bytes \<Rightarrow> bool \<times> bytes \<Rightarrow>
    int + bool \<times> bytes" where
  "single_address_option parsed address code value acc =
     (let found_ia = fst acc; output = snd acc in
      if code \<noteq> DHCPV6_OPTION_IA_NA then
        (if 4 + length value > RIN_DHCPV6_MAX_MESSAGE_SIZE - length output
         then Inl RIN_DHCPV6_RANGE_EXHAUSTED
         else Inr (found_ia, output @ store_be16 code @ store_be16 (of_nat (length value)) @ value))
      else if found_ia \<or> length value < 12 \<or> RIN_DHCPV6_MAX_MESSAGE_SIZE - length output < 32
      then Inl RIN_DHCPV6_MALFORMED_PACKET
      else
        let fixed = take 4 value @ store_be32 (pm_t1_seconds parsed) @
              store_be32 (pm_t2_seconds parsed) @
              store_be16 DHCPV6_OPTION_IA_ADDRESS @ store_be16 24 @ take 16 address @
              store_be32 DHCPV6_MAX_VALID_SECONDS @ store_be32 DHCPV6_MAX_VALID_SECONDS
        in case option_walk RIN_DHCPV6_MALFORMED_PACKET (copy_ia_suboption (length output))
                  (drop 12 value) fixed of
             Inl status \<Rightarrow> Inl status
           | Inr payload \<Rightarrow>
               if length payload > 65535 then Inl RIN_DHCPV6_MALFORMED_PACKET
               else Inr (True, output @ store_be16 DHCPV6_OPTION_IA_NA @
                           store_be16 (of_nat (length payload)) @ payload))"

definition client_v2_single_address_reply ::
    "bytes \<Rightarrow> parsed_message \<Rightarrow> bytes \<Rightarrow> int + bytes" where
  "client_v2_single_address_reply message parsed address =
     (if length message < 4 \<or> length message > RIN_DHCPV6_MAX_MESSAGE_SIZE
      then Inl RIN_DHCPV6_INVALID_ARGUMENT
      else case option_walk RIN_DHCPV6_MALFORMED_PACKET (single_address_option parsed address)
                  (drop 4 message) (False, take 4 message) of
          Inl status \<Rightarrow> Inl status
        | Inr (found_ia, output) \<Rightarrow>
            if \<not> found_ia \<or> length output > RIN_DHCPV6_MAX_MESSAGE_SIZE
            then Inl RIN_DHCPV6_MALFORMED_PACKET else Inr output)"

definition client_v2_expected_reply :: "u32 \<Rightarrow> (u8 \<times> bool) option" where
  "client_v2_expected_reply state =
     (if state = RIN_DHCPV6_STATE_SOLICITING then Some (DHCPV6_MESSAGE_ADVERTISE, True)
      else if state = RIN_DHCPV6_STATE_REQUESTING \<or> state = RIN_DHCPV6_STATE_RENEWING \<or>
              state = RIN_DHCPV6_STATE_REBINDING \<or> state = RIN_DHCPV6_STATE_RECONFIGURE_REBINDING
      then Some (DHCPV6_MESSAGE_REPLY, True)
      else if state = RIN_DHCPV6_STATE_INFORMATION_REQUESTING \<or>
              state = RIN_DHCPV6_STATE_RECONFIGURE_INFORMATION_REQUESTING
      then Some (DHCPV6_MESSAGE_REPLY, False)
      else None)"

section \<open>Receiving\<close>

definition v2_set_bindings :: "dhcpv6_binding list \<Rightarrow> u64 \<Rightarrow> dhcpv6_client_v2 \<Rightarrow> dhcpv6_client_v2" where
  "v2_set_bindings candidate next_generation client = client\<lparr>
     v2_address_count := of_nat (length candidate),
     v2_next_address_generation := next_generation,
     v2_addresses := candidate @ replicate (4 - length candidate) zero_binding\<rparr>"

text \<open>The expiry of the exchange: the last expiry of a binding, but behind the rebind time.\<close>

definition v2_expiry :: "dhcpv6_binding list \<Rightarrow> u64 \<Rightarrow> u64" where
  "v2_expiry candidate rebind_at =
     (let maximum_valid = fold (\<lambda>b m. if b_valid_until_ms b > m then b_valid_until_ms b else m)
            candidate 0
      in if maximum_valid < rebind_at
         then (let floor = (if rebind_at \<noteq> UINT64_MAX then rebind_at + 1 else rebind_at)
               in if floor > maximum_valid then floor else maximum_valid)
         else maximum_valid)"

text \<open>The exchange after a committed lease, with the state and the exchange before the message.\<close>

definition v2_commit_lease :: "dhcpv6_binding list \<Rightarrow> parsed_message \<Rightarrow> dhcpv6_client \<Rightarrow>
    dhcpv6_client \<Rightarrow> dhcpv6_client" where
  "v2_commit_lease candidate parsed before exchange =
     (if candidate \<noteq> [] then
        exchange\<lparr>c_address := b_address (hd candidate),
          c_preferred_until_ms := b_preferred_until_ms (hd candidate),
          c_expires_at_ms := v2_expiry candidate (c_rebind_at_ms exchange)\<rparr>
      else if client_state_has_lease (c_state before) then
        exchange\<lparr>c_address := c_address before, c_renew_at_ms := c_renew_at_ms before,
          c_rebind_at_ms := c_rebind_at_ms before, c_expires_at_ms := c_expires_at_ms before\<rparr>
      else if pm_ia_addresses parsed \<noteq> [] then exchange\<lparr>c_address := c_address before\<rparr>
      else exchange)"

text \<open>The message that the exchange receives; the left case is an early return.\<close>

definition v2_exchange_message :: "dhcpv6_client_v2 \<Rightarrow> bytes \<Rightarrow> parsed_message \<Rightarrow> bool \<Rightarrow>
    dhcpv6_binding list \<Rightarrow> int + bytes" where
  "v2_exchange_message client message parsed require_ia candidate =
     (if require_ia \<and> (candidate \<noteq> [] \<or> pm_ia_addresses parsed \<noteq> []) then
        client_v2_single_address_reply message parsed
          (if address_usable (c_address (v2_exchange client)) then c_address (v2_exchange client)
           else case candidate of [] \<Rightarrow> zero_bytes 16 | b # _ \<Rightarrow> b_address b)
      else Inr message)"

definition client_v2_receive :: "dhcpv6_client_v2 \<Rightarrow> bytes \<Rightarrow> u64 \<Rightarrow> int \<times> dhcpv6_client_v2" where
  "client_v2_receive client message now_ms =
     (let before = v2_exchange client;
          pass = (\<lambda>m. case client_receive before m now_ms of
                    (status, exchange) \<Rightarrow> (status, client\<lparr>v2_exchange := exchange\<rparr>))
      in if \<not> client_v2_state_valid client \<or> length message < 4 \<or>
            length message > RIN_DHCPV6_MAX_MESSAGE_SIZE
         then (RIN_DHCPV6_INVALID_ARGUMENT, client)
         else if now_ms < c_last_now_ms before then (RIN_DHCPV6_CLOCK_ROLLBACK, client)
         else case client_v2_expected_reply (c_state before) of
           None \<Rightarrow> (RIN_DHCPV6_INVALID_STATE, client)
         | Some (expected_type, require_ia) \<Rightarrow>
           (case parse_message message expected_type require_ia of
              (parsed_status, parsed) \<Rightarrow>
                if parsed_status \<noteq> RIN_DHCPV6_OK then pass message
                else case (if require_ia
                           then client_v2_prepare_bindings client parsed now_ms (c_state before)
                           else Some ([], v2_next_address_generation client)) of
                  None \<Rightarrow> (RIN_DHCPV6_RANGE_EXHAUSTED, client)
                | Some (candidate, next_generation) \<Rightarrow>
                  (case v2_exchange_message client message parsed require_ia candidate of
                     Inl status \<Rightarrow> (status, client)
                   | Inr m \<Rightarrow>
                     (case pass m of (status, client') \<Rightarrow>
                        (status,
                         if status = RIN_DHCPV6_OFFER_READY \<and> require_ia
                         then v2_set_bindings candidate next_generation client'
                         else if status = RIN_DHCPV6_LEASE_READY \<and> require_ia
                         then (v2_set_bindings candidate next_generation client')\<lparr>v2_exchange :=
                                 v2_commit_lease candidate parsed before (v2_exchange client')\<rparr>
                         else client')))))"

section \<open>Reading the lease\<close>

definition v2_lease_of_client :: "dhcpv6_client_v2 \<Rightarrow> dhcpv6_binding list \<Rightarrow> dhcpv6_lease_v2" where
  "v2_lease_of_client client live =
     (let exchange = v2_exchange client in zero_lease_v2\<lparr>
        l2_version := RIN_DHCPV6_CLIENT_V2_VERSION,
        l2_struct_size := sizeof_lease_v2,
        l2_interface_generation := c_interface_generation exchange,
        l2_lease_generation := c_lease_generation exchange,
        l2_renew_at_ms := c_renew_at_ms exchange,
        l2_rebind_at_ms := c_rebind_at_ms exchange,
        l2_expires_at_ms := (if live \<noteq> []
          then fold (\<lambda>b m. if b_valid_until_ms b > m then b_valid_until_ms b else m) live 0
          else c_expires_at_ms exchange),
        l2_address_count := of_nat (length live),
        l2_dns_server_count := c_dns_server_count exchange,
        l2_state := c_state exchange,
        l2_addresses := live @ replicate (4 - length live) zero_binding,
        l2_dns_servers := take (unat (c_dns_server_count exchange)) (c_dns_servers exchange) @
          drop (unat (c_dns_server_count exchange)) (l2_dns_servers zero_lease_v2)\<rparr>)"

definition client_v2_get_lease ::
    "dhcpv6_client_v2 \<Rightarrow> u64 \<Rightarrow> int \<times> dhcpv6_client_v2 \<times> dhcpv6_lease_v2" where
  "client_v2_get_lease client now_ms =
     (let exchange = v2_exchange client;
          live = filter (\<lambda>b. \<not> now_ms \<ge> b_valid_until_ms b) (v2_live client)
      in if \<not> client_v2_state_valid client then (RIN_DHCPV6_INVALID_ARGUMENT, client, zero_lease_v2)
         else if \<not> time_valid exchange now_ms
         then (RIN_DHCPV6_CLOCK_ROLLBACK, client, zero_lease_v2)
         else if \<not> client_has_lease exchange then (RIN_DHCPV6_NOT_FOUND, client, zero_lease_v2)
         else if now_ms \<ge> c_expires_at_ms exchange
         then (RIN_DHCPV6_LEASE_EXPIRED,
               client\<lparr>v2_exchange := snd (expire_lease (exchange\<lparr>c_last_now_ms := now_ms\<rparr>)),
                      v2_address_count := 0, v2_addresses := replicate 4 zero_binding\<rparr>,
               zero_lease_v2)
         else
           let client = (if of_nat (length live) \<noteq> v2_address_count client
                 then client\<lparr>v2_address_count := of_nat (length live),
                        v2_addresses := live @ replicate (4 - length live) zero_binding\<rparr>
                 else client);
               exchange = (if live \<noteq> []
                 then exchange\<lparr>c_address := b_address (hd live),
                        c_preferred_until_ms := b_preferred_until_ms (hd live)\<rparr>
                 else exchange);
               client = client\<lparr>v2_exchange := exchange\<lparr>c_last_now_ms := now_ms\<rparr>\<rparr>
           in (RIN_DHCPV6_OK, client, v2_lease_of_client client live))"

section \<open>The entry points\<close>

text \<open>The exchange begins eight bytes behind the beginning of the client.\<close>

definition rin_dhcpv6_client_v2_state_valid :: "dhcpv6_client_v2 cptr \<Rightarrow> bool" where
  "rin_dhcpv6_client_v2_state_valid client =
     (case client of Null \<Rightarrow> False | Ptr _ c \<Rightarrow> client_v2_state_valid c)"

definition rin_dhcpv6_client_v2_init :: "dhcpv6_client_v2 cptr \<Rightarrow> bytes cptr \<Rightarrow> u32 \<Rightarrow> u32 \<Rightarrow>
    u64 \<Rightarrow> int \<times> dhcpv6_client_v2 cptr" where
  "rin_dhcpv6_client_v2_init client duid duid_size iaid interface_generation =
     (case client of
        Null \<Rightarrow> (RIN_DHCPV6_INVALID_ARGUMENT, client)
      | Ptr a _ \<Rightarrow>
        (case duid of
           Null \<Rightarrow> (RIN_DHCPV6_INVALID_ARGUMENT, Ptr a zero_client_v2)
         | Ptr d bs \<Rightarrow>
           if memory_overlaps (a + 8) (ucast sizeof_client) d (ucast duid_size)
           then (RIN_DHCPV6_INVALID_ARGUMENT, Ptr a zero_client_v2)
           else map_prod id (Ptr a) (client_v2_init bs duid_size iaid interface_generation)))"

definition rin_dhcpv6_client_v2_set_mode ::
    "dhcpv6_client_v2 cptr \<Rightarrow> u32 \<Rightarrow> int \<times> dhcpv6_client_v2 cptr" where
  "rin_dhcpv6_client_v2_set_mode client mode =
     (case client of Null \<Rightarrow> (RIN_DHCPV6_INVALID_ARGUMENT, client)
      | Ptr a c \<Rightarrow> map_prod id (Ptr a) (client_v2_set_mode c mode))"

definition rin_dhcpv6_client_v2_request_reconfigure ::
    "dhcpv6_client_v2 cptr \<Rightarrow> u32 \<Rightarrow> u64 \<Rightarrow> int \<times> dhcpv6_client_v2 cptr" where
  "rin_dhcpv6_client_v2_request_reconfigure client requested_kind now_ms =
     (case client of Null \<Rightarrow> (RIN_DHCPV6_INVALID_ARGUMENT, client)
      | Ptr a c \<Rightarrow> map_prod id (Ptr a) (client_v2_request_reconfigure c requested_kind now_ms))"

definition rin_dhcpv6_client_v2_prepare ::
    "dhcpv6_client_v2 cptr \<Rightarrow> u32 \<Rightarrow> u64 \<Rightarrow> dhcpv6_transmit cptr \<Rightarrow>
     int \<times> dhcpv6_client_v2 cptr \<times> dhcpv6_transmit cptr" where
  "rin_dhcpv6_client_v2_prepare client new_transaction_id now_ms transmit_out =
     (case client of
        Null \<Rightarrow> (RIN_DHCPV6_INVALID_ARGUMENT, client, transmit_out)
      | Ptr a c \<Rightarrow>
        if \<not> client_v2_state_valid c then (RIN_DHCPV6_INVALID_ARGUMENT, client, transmit_out)
        else if memory_overlaps (a + 8) (ucast sizeof_client)
               (ptr_address transmit_out) (ucast sizeof_transmit)
        then (RIN_DHCPV6_INVALID_ARGUMENT, client, transmit_out)
        else case transmit_out of
          Null \<Rightarrow> (RIN_DHCPV6_INVALID_ARGUMENT, client, transmit_out)
        | Ptr t out \<Rightarrow>
          (case client_v2_prepare c new_transaction_id now_ms out of
             (status, c', transmit) \<Rightarrow> (status, Ptr a c', Ptr t transmit)))"

definition rin_dhcpv6_client_v2_complete_transmit ::
    "dhcpv6_client_v2 cptr \<Rightarrow> dhcpv6_transmit cptr \<Rightarrow> int \<Rightarrow> int \<times> dhcpv6_client_v2 cptr" where
  "rin_dhcpv6_client_v2_complete_transmit client transmit sent_successfully =
     (case (client, transmit) of
        (Ptr a c, Ptr t tx) \<Rightarrow>
          if memory_overlaps (a + 8) (ucast sizeof_client) t (ucast sizeof_transmit)
          then (RIN_DHCPV6_INVALID_ARGUMENT, client)
          else map_prod id (Ptr a) (client_v2_complete_transmit c tx sent_successfully)
      | _ \<Rightarrow> (RIN_DHCPV6_INVALID_ARGUMENT, client))"

definition rin_dhcpv6_client_v2_receive ::
    "dhcpv6_client_v2 cptr \<Rightarrow> bytes cptr \<Rightarrow> u64 \<Rightarrow> int \<times> dhcpv6_client_v2 cptr" where
  "rin_dhcpv6_client_v2_receive client message now_ms =
     (case (client, message) of
        (Ptr a c, Ptr m bs) \<Rightarrow>
          if memory_overlaps a (ucast sizeof_client_v2) m (of_nat (length bs))
          then (RIN_DHCPV6_INVALID_ARGUMENT, client)
          else map_prod id (Ptr a) (client_v2_receive c bs now_ms)
      | _ \<Rightarrow> (RIN_DHCPV6_INVALID_ARGUMENT, client))"

definition rin_dhcpv6_client_v2_get_lease ::
    "dhcpv6_client_v2 cptr \<Rightarrow> u64 \<Rightarrow> dhcpv6_lease_v2 cptr \<Rightarrow>
     int \<times> dhcpv6_client_v2 cptr \<times> dhcpv6_lease_v2 cptr" where
  "rin_dhcpv6_client_v2_get_lease client now_ms lease_out =
     (if memory_overlaps (ptr_address client) (ucast sizeof_client_v2)
           (ptr_address lease_out) (ucast sizeof_lease_v2)
      then (RIN_DHCPV6_INVALID_ARGUMENT, client, lease_out)
      else case (client, lease_out) of
        (Ptr a c, Ptr l _) \<Rightarrow>
          (case client_v2_get_lease c now_ms of
             (status, c', lease) \<Rightarrow> (status, Ptr a c', Ptr l lease))
      | (Null, Ptr l _) \<Rightarrow> (RIN_DHCPV6_INVALID_ARGUMENT, client, Ptr l zero_lease_v2)
      | _ \<Rightarrow> (RIN_DHCPV6_INVALID_ARGUMENT, client, lease_out))"

definition rin_dhcpv6_client_v2_stop :: "dhcpv6_client_v2 cptr \<Rightarrow> int \<times> dhcpv6_client_v2 cptr" where
  "rin_dhcpv6_client_v2_stop client =
     (case client of Null \<Rightarrow> (RIN_DHCPV6_INVALID_ARGUMENT, client)
      | Ptr a c \<Rightarrow> map_prod id (Ptr a) (client_v2_stop c))"

definition rin_dhcpv6_client_v2_destroy :: "dhcpv6_client_v2 cptr \<Rightarrow> dhcpv6_client_v2 cptr" where
  "rin_dhcpv6_client_v2_destroy client =
     (case client of Null \<Rightarrow> Null | Ptr a _ \<Rightarrow> Ptr a zero_client_v2)"

end
