(* ===== verification/Dhcpv6_Client_Inv.thy ===== *)
theory Dhcpv6_Client_Inv
  imports Dhcpv6_Client
begin

text \<open>
  The invariant of the version 1 client and its preservation by every operation. \<open>client_inv\<close>
  strengthens the validity check of the source by what the check does not see: the pending message
  is the one that was due when it was prepared, the clock readings are ordered, and a transition
  that is under way can still advance the generation.
\<close>

lemmas state_simps = client_state_has_server_def client_state_has_address_def
  client_state_has_lease_def client_state_retransmits_def retransmission_kind_for_state_def

lemmas valid_defs = client_valid_def client_fields_valid_def client_mode_valid_def
  client_server_valid_def client_transaction_valid_def client_lease_valid_def client_timer_valid_def
  client_first_send_pending_def client_startup_delayed_def client_has_lease_def
  client_information_mode_def

section \<open>The invariant\<close>

text \<open>The pending message is the one that \<open>prepare\<close> found due at its preparation time.\<close>

definition pending_due :: "dhcpv6_client \<Rightarrow> bool" where
  "pending_due c = (let t = c_pending c in
     tx_prepared_at_ms t \<le> c_last_now_ms c \<and>
     c_transaction_started_ms c \<le> tx_prepared_at_ms t \<and>
     tx_prepared_at_ms t \<le> UINT64_MAX - DHCPV6_MAX_RANDOMIZED_RT_MS \<and>
     (client_has_lease c \<longrightarrow> tx_prepared_at_ms t < c_expires_at_ms c) \<and>
     (c_state c = RIN_DHCPV6_STATE_IDLE \<longrightarrow> client_startup_delayed c) \<and>
     (\<exists>fresh. prepare_kind c (tx_prepared_at_ms t) = Some (tx_kind t, fresh) \<and>
        (fresh \<longrightarrow> c_generation c < UINT64_MAX) \<and>
        (\<not> fresh \<longrightarrow> load_xid (tx_message t) = c_transaction_id c)))"

definition client_inv :: "dhcpv6_client \<Rightarrow> bool" where
  "client_inv c = (wf_client c \<and> client_valid c \<and>
     (client_information_mode c \<longrightarrow> c_state c \<noteq> RIN_DHCPV6_STATE_BOUND) \<and>
     c_transaction_started_ms c \<le> c_last_now_ms c \<and>
     (client_startup_delayed c \<longrightarrow> c_generation c < UINT64_MAX) \<and>
     (c_pending_present c \<noteq> 0 \<longrightarrow> pending_due c))"

lemma client_invD:
  assumes "client_inv c"
  shows "wf_client c" "client_valid c" "c_transaction_started_ms c \<le> c_last_now_ms c"
    "client_information_mode c \<Longrightarrow> c_state c \<noteq> RIN_DHCPV6_STATE_BOUND"
    "c_pending_present c \<noteq> 0 \<Longrightarrow> pending_due c"
    "client_startup_delayed c \<Longrightarrow> c_generation c < UINT64_MAX"
  using assms by (auto simp: client_inv_def)

text \<open>The groups of the check as facts, and the fields each group reads.\<close>

lemma client_validD:
  assumes "client_valid c"
  shows "client_fields_valid c" "client_mode_valid c" "client_server_valid c"
    "client_transaction_valid c" "client_lease_valid c" "client_dns_valid c" "client_timer_valid c"
  using assms by (simp_all add: client_valid_def)

lemma client_mode_valid_cong:
  "c_state c' = c_state c \<Longrightarrow> c_reserved c' = c_reserved c \<Longrightarrow>
     client_mode_valid c' = client_mode_valid c"
  by (simp add: client_mode_valid_def client_information_mode_def)

lemma client_server_valid_cong:
  "c_state c' = c_state c \<Longrightarrow> c_server_duid c' = c_server_duid c \<Longrightarrow>
     c_server_duid_size c' = c_server_duid_size c \<Longrightarrow> c_address c' = c_address c \<Longrightarrow>
     client_server_valid c' = client_server_valid c"
  by (simp add: client_server_valid_def)

lemma client_transaction_valid_cong:
  "c_state c' = c_state c \<Longrightarrow> c_transaction_id c' = c_transaction_id c \<Longrightarrow>
     c_offer_t1_seconds c' = c_offer_t1_seconds c \<Longrightarrow>
     client_transaction_valid c' = client_transaction_valid c"
  by (simp add: client_transaction_valid_def client_startup_delayed_def)

lemma client_lease_valid_cong:
  "c_state c' = c_state c \<Longrightarrow> c_reserved c' = c_reserved c \<Longrightarrow>
     c_lease_generation c' = c_lease_generation c \<Longrightarrow>
     c_preferred_until_ms c' = c_preferred_until_ms c \<Longrightarrow> c_renew_at_ms c' = c_renew_at_ms c \<Longrightarrow>
     c_rebind_at_ms c' = c_rebind_at_ms c \<Longrightarrow> c_expires_at_ms c' = c_expires_at_ms c \<Longrightarrow>
     c_dns_server_count c' = c_dns_server_count c \<Longrightarrow>
     client_lease_valid c' = client_lease_valid c"
  by (simp add: client_lease_valid_def client_has_lease_def client_information_mode_def)

lemma client_dns_valid_cong:
  "c_dns_servers c' = c_dns_servers c \<Longrightarrow> c_dns_server_count c' = c_dns_server_count c \<Longrightarrow>
     client_dns_valid c' = client_dns_valid c"
  by (simp add: client_dns_valid_def)

lemma client_timer_valid_cong:
  "c_state c' = c_state c \<Longrightarrow> c_transaction_id c' = c_transaction_id c \<Longrightarrow>
     c_offer_t1_seconds c' = c_offer_t1_seconds c \<Longrightarrow> c_retry_ms c' = c_retry_ms c \<Longrightarrow>
     c_transaction_started_ms c' = c_transaction_started_ms c \<Longrightarrow>
     c_next_transmit_ms c' = c_next_transmit_ms c \<Longrightarrow>
     c_offer_preferred_seconds c' = c_offer_preferred_seconds c \<Longrightarrow>
     c_offer_valid_seconds c' = c_offer_valid_seconds c \<Longrightarrow>
     client_timer_valid c' = client_timer_valid c"
  by (simp add: client_timer_valid_def client_first_send_pending_def client_startup_delayed_def
      retransmission_mrt_ms_def)

lemmas client_congs = client_mode_valid_cong client_server_valid_cong client_transaction_valid_cong
  client_lease_valid_cong client_dns_valid_cong client_timer_valid_cong

section \<open>Cleared clients\<close>

lemma client_dns_valid_zero:
  "c_dns_servers c = replicate 3 (zero_bytes 16) \<Longrightarrow> c_dns_server_count c = 0 \<Longrightarrow> client_dns_valid c"
  by (simp add: client_dns_valid_def list_all_iff)

lemma clear_dynamic_inv:
  assumes "client_inv c" and "g \<noteq> 0"
  shows "client_inv (clear_dynamic (c\<lparr>c_generation := g\<rparr>))"
proof -
  let ?c = "clear_dynamic (c\<lparr>c_generation := g\<rparr>)"
  have dns: "client_dns_valid ?c"
    by (rule client_dns_valid_zero) (simp_all add: clear_dynamic_def clear_pending_def)
  have "client_fields_valid c" "wf_client c"
    using assms(1) by (simp_all add: client_inv_def client_valid_def)
  with dns assms(2) show ?thesis
    by (simp add: client_inv_def valid_defs state_simps clear_dynamic_def clear_pending_def
        pending_valid_def wf_client_def word_gt_0)
qed

lemma duid_valid_bound: "duid_valid d n \<Longrightarrow> 5 \<le> n \<and> n \<le> 32"
  by (simp add: duid_valid_def split: if_splits)

lemma load_be16_append: "2 \<le> length xs \<Longrightarrow> load_be16 (xs @ ys) = load_be16 xs"
  by (cases xs) (auto simp: load_be16_def nth_append)

lemma load_be16_take: "2 \<le> n \<Longrightarrow> load_be16 (take n xs) = load_be16 xs"
  by (simp add: load_be16_def)

text \<open>Validity of an identifier reads only its bytes, not what lies behind them.\<close>

lemma duid_valid_copy:
  assumes "duid_valid d n" and "n \<le> length d"
  shows "duid_valid (byte_copy (zero_bytes 32) 0 (take n d)) n"
proof -
  from duid_valid_bound [OF assms(1)] have "2 \<le> n" "n \<le> 32" by auto
  moreover have "2 \<le> length (take n d)" using \<open>2 \<le> n\<close> assms(2) by simp
  ultimately show ?thesis
    using assms by (simp add: duid_valid_def load_be16_append load_be16_take Let_def split: if_splits)
qed

lemma byte_tail_zero_copied:
  "length d = n \<Longrightarrow> n \<le> 32 \<Longrightarrow> byte_tail_zero (byte_copy (zero_bytes 32) 0 d) n 32"
  by (simp add: byte_tail_zero_def list_all_iff zero_bytes_def)

lemma client_init_inv:
  assumes "duid_valid duid (unat duid_size)" and "unat duid_size \<le> length duid"
    and "iaid \<noteq> 0" and "interface_generation \<noteq> 0"
  shows "client_inv (client_init duid duid_size iaid interface_generation)"
proof -
  let ?d = "byte_copy (zero_bytes 32) 0 (take (unat duid_size) duid)"
  have n: "unat duid_size \<le> 32" using duid_valid_bound [OF assms(1)] by simp
  have len: "length ?d = 32" using n assms(2) by simp
  have "duid_valid ?d (unat duid_size)" using assms(1,2) by (rule duid_valid_copy)
  moreover have "byte_tail_zero ?d (unat duid_size) 32"
    using n assms(2) by (intro byte_tail_zero_copied) simp_all
  moreover have "client_dns_valid (client_init duid duid_size iaid interface_generation)"
    by (rule client_dns_valid_zero) (simp_all add: client_init_def zero_client_def)
  ultimately show ?thesis
    using assms(3,4) len
    by (simp add: client_inv_def valid_defs state_simps client_init_def zero_client_def
        pending_valid_def wf_client_def del: byte_copy_0)
qed

lemma advance_generation_Some:
  "advance_generation c = Some c' \<longleftrightarrow>
     c_generation c \<noteq> UINT64_MAX \<and> c' = c\<lparr>c_generation := c_generation c + 1\<rparr>"
  by (auto simp: advance_generation_def)

lemma advance_generation_None: "advance_generation c = None \<longleftrightarrow> c_generation c = UINT64_MAX"
  by (simp add: advance_generation_def)

lemma generation_suc_nonzero:
  assumes "g \<noteq> UINT64_MAX"
  shows "g + 1 \<noteq> (0 :: u64)"
proof
  assume "g + 1 = 0"
  then have "g = - 1" by (simp add: eq_neg_iff_add_eq_0)
  with assms show False by simp
qed

lemma clear_advanced_inv:
  "client_inv c \<Longrightarrow> c_generation c \<noteq> UINT64_MAX \<Longrightarrow>
     client_inv (clear_dynamic (c\<lparr>c_generation := c_generation c + 1\<rparr>))"
  by (rule clear_dynamic_inv [OF _ generation_suc_nonzero])

text \<open>Validity does not depend on the last clock reading.\<close>

lemma client_valid_last_now [simp]: "client_valid (c\<lparr>c_last_now_ms := n\<rparr>) = client_valid c"
proof -
  let ?c = "c\<lparr>c_last_now_ms := n\<rparr>"
  have "client_fields_valid ?c = client_fields_valid c"
    by (simp add: client_fields_valid_def pending_valid_def)
  then show ?thesis using client_congs [of ?c c] by (simp add: client_valid_def)
qed

lemma prepare_kind_last_now [simp]: "prepare_kind (c\<lparr>c_last_now_ms := n\<rparr>) t = prepare_kind c t"
  by (simp add: prepare_kind_def client_startup_delayed_def client_information_mode_def Let_def)

lemma client_inv_last_now:
  assumes "client_inv c" and "c_last_now_ms c \<le> n"
  shows "client_inv (c\<lparr>c_last_now_ms := n\<rparr>)"
  using assms order_trans [OF _ assms(2)]
  by (auto simp: client_inv_def wf_client_def pending_due_def Let_def client_information_mode_def
      client_startup_delayed_def client_has_lease_def)

lemma expire_lease_cases:
  "expire_lease c = (if c_generation c = UINT64_MAX then (RIN_DHCPV6_RANGE_EXHAUSTED, c)
     else (RIN_DHCPV6_LEASE_EXPIRED, clear_dynamic (c\<lparr>c_generation := c_generation c + 1\<rparr>)))"
  by (simp add: expire_lease_def advance_generation_def)

lemma expire_lease_inv:
  assumes "client_inv c" and "c_last_now_ms c \<le> n"
  shows "client_inv (snd (expire_lease (c\<lparr>c_last_now_ms := n\<rparr>)))"
  using client_inv_last_now [OF assms] clear_advanced_inv [OF client_inv_last_now [OF assms]]
  by (simp add: expire_lease_cases)

lemma client_set_mode_inv:
  assumes "client_inv c"
  shows "client_inv (snd (client_set_mode c mode))"
proof (cases "fst (client_set_mode c mode) = RIN_DHCPV6_OK")
  case True
  then have s: "c_state c = 0" "c_transaction_id c = 0" "c_pending_present c = 0" "mode \<le> 1"
    by (auto simp: client_set_mode_def split: if_splits)
  have "client_dns_valid (c\<lparr>c_reserved := mode\<rparr>) = client_dns_valid c"
    by (simp add: client_dns_valid_def)
  then show ?thesis
    using assms s by (simp add: client_set_mode_def client_inv_def valid_defs state_simps
        pending_valid_def wf_client_def) auto
next
  case False
  then show ?thesis using assms by (auto simp: client_set_mode_def split: if_splits)
qed

lemma client_stop_inv: "client_inv c \<Longrightarrow> client_inv (snd (client_stop c))"
  using clear_advanced_inv [of c] by (simp add: client_stop_def advance_generation_def)

lemma client_get_lease_inv:
  assumes "client_inv c"
  shows "client_inv (fst (snd (client_get_lease c now_ms)))"
  using assms expire_lease_inv [OF assms, of now_ms] client_inv_last_now [OF assms, of now_ms]
  by (cases "expire_lease (c\<lparr>c_last_now_ms := now_ms\<rparr>)")
    (simp add: client_get_lease_def time_valid_def Let_def)

section \<open>Reconfigure requests\<close>

lemma reconfigure_state_inv:
  assumes "client_inv c" and "c_state c = RIN_DHCPV6_STATE_BOUND"
    and "\<not> client_information_mode c" and "c_pending_present c = 0"
    and "c_generation c \<noteq> UINT64_MAX"
    and "s = RIN_DHCPV6_STATE_RECONFIGURE_REBINDING \<or>
         s = RIN_DHCPV6_STATE_RECONFIGURE_INFORMATION_REQUESTING"
  shows "client_inv (c\<lparr>c_state := s, c_transaction_started_ms := 0, c_next_transmit_ms := now_ms,
    c_retry_ms := 0, c_offer_t1_seconds := DHCPV6_RETRANSMISSION_NOT_STARTED,
    c_last_now_ms := now_ms, c_generation := c_generation c + 1\<rparr>)"
    (is "client_inv ?c")
proof -
  note v = client_invD(1,2) [OF assms(1)]
  note vs = client_validD [OF v(2)]
  note d = client_information_mode_def client_startup_delayed_def client_has_lease_def
  have "client_fields_valid ?c"
    using vs(1) assms(4,6) generation_suc_nonzero [OF assms(5)]
    by (auto simp: client_fields_valid_def pending_valid_def)
  moreover have "client_mode_valid ?c"
    using assms(3,6) by (auto simp: client_mode_valid_def d)
  moreover have "client_server_valid ?c"
    using vs(3) assms(2,6) by (auto simp: client_server_valid_def state_simps)
  moreover have "client_transaction_valid ?c"
    using vs(4) assms(2,6) by (auto simp: client_transaction_valid_def)
  moreover have "client_lease_valid ?c"
    using vs(5) assms(2,3,6) by (auto simp: client_lease_valid_def d state_simps)
  moreover have "client_timer_valid ?c"
    using assms(6) by (auto simp: client_timer_valid_def client_first_send_pending_def d state_simps)
  moreover have "client_dns_valid ?c"
    using vs(6) client_dns_valid_cong [of ?c c] by simp
  ultimately show ?thesis
    using v(1) assms(3,4,6) by (auto simp: client_inv_def client_valid_def wf_client_def d)
qed

lemma renew_now_inv:
  assumes "client_inv c" and "c_pending_present c = 0" and "c_generation c \<noteq> UINT64_MAX"
    and "c_state c = RIN_DHCPV6_STATE_BOUND \<and> \<not> client_information_mode c \<and> now_ms < c_rebind_at_ms c \<or>
         c_state c = RIN_DHCPV6_STATE_INFORMATION_BOUND \<and> now_ms < c_expires_at_ms c"
  shows "client_inv (c\<lparr>c_renew_at_ms := now_ms, c_last_now_ms := now_ms,
    c_generation := c_generation c + 1\<rparr>)" (is "client_inv ?c")
proof -
  note v = client_invD(1,2) [OF assms(1)]
  note vs = client_validD [OF v(2)]
  note d = client_information_mode_def client_startup_delayed_def client_has_lease_def
  have started: "c_transaction_started_ms c = 0"
    using vs(7) assms(4) by (auto simp: client_timer_valid_def client_first_send_pending_def d state_simps)
  have "client_fields_valid ?c"
    using vs(1) assms(2) generation_suc_nonzero [OF assms(3)]
    by (auto simp: client_fields_valid_def pending_valid_def)
  moreover have "client_lease_valid ?c"
    using vs(2,5) assms(4) by (auto simp: client_mode_valid_def client_lease_valid_def d state_simps)
  ultimately have "client_valid ?c"
    using vs client_congs [of ?c c] by (simp add: client_valid_def)
  then show ?thesis
    using v(1) assms(2,4) started by (auto simp: client_inv_def wf_client_def d)
qed

text \<open>
  The request keeps the invariant, except for a Renew that arrives between the rebind time and the
  expiry: it would set the renew time behind the rebind time.
\<close>

definition renew_after_rebind :: "dhcpv6_client \<Rightarrow> u32 \<Rightarrow> u64 \<Rightarrow> bool" where
  "renew_after_rebind c kind now_ms =
     (kind = RIN_DHCPV6_TRANSMIT_RENEW \<and> c_rebind_at_ms c \<le> now_ms \<and> now_ms < c_expires_at_ms c)"

lemma client_request_reconfigure_inv:
  assumes "client_inv c" and "\<not> renew_after_rebind c kind now_ms"
  shows "client_inv (snd (client_request_reconfigure c kind now_ms))"
proof (cases "client_valid c \<and> c_last_now_ms c \<le> now_ms \<and> c_pending_present c = 0 \<and>
    reconfigure_allowed c kind \<and> c_generation c < UINT64_MAX - 3 \<and> now_ms < c_expires_at_ms c")
  case False
  then show ?thesis
    using assms(1) expire_lease_inv [OF assms(1), of now_ms]
    by (auto simp: client_request_reconfigure_def not_le)
next
  case True
  then have g: "c_generation c \<noteq> UINT64_MAX" by auto
  have "c_state c = RIN_DHCPV6_STATE_BOUND \<and> \<not> client_information_mode c \<and>
        (kind = 5 \<or> kind = 6 \<or> kind = 11) \<or>
      c_state c = RIN_DHCPV6_STATE_INFORMATION_BOUND \<and> client_information_mode c \<and> kind = 11"
    using True by (auto simp: reconfigure_allowed_def)
  moreover have "kind = 5 \<Longrightarrow> now_ms < c_rebind_at_ms c"
    using assms(2) True by (auto simp: renew_after_rebind_def)
  ultimately show ?thesis
    using True assms(1) reconfigure_state_inv [OF assms(1) _ _ _ g, of _ now_ms]
      renew_now_inv [OF assms(1) _ g, of now_ms]
    by (auto simp: client_request_reconfigure_def not_le)
qed

section \<open>Preparing\<close>

lemma prepare_kind_values:
  "prepare_kind c n = Some (k, fresh) \<Longrightarrow>
     k = RIN_DHCPV6_TRANSMIT_NONE \<or> k = RIN_DHCPV6_TRANSMIT_SOLICIT \<or>
     k = RIN_DHCPV6_TRANSMIT_REQUEST \<or> k = RIN_DHCPV6_TRANSMIT_RENEW \<or>
     k = RIN_DHCPV6_TRANSMIT_REBIND \<or> k = RIN_DHCPV6_TRANSMIT_INFORMATION_REQUEST"
  by (simp add: prepare_kind_def Let_def split: if_splits)

lemma client_sizes:
  assumes "client_valid c"
  shows "unat (c_duid_size c) \<le> 32" "unat (c_server_duid_size c) \<le> 32"
proof -
  note vs = client_validD [OF assms]
  show "unat (c_duid_size c) \<le> 32"
    using vs(1) by (auto simp: client_fields_valid_def dest: duid_valid_bound)
  show "unat (c_server_duid_size c) \<le> 32"
    using vs(3) by (cases "c_server_duid_size c = 0")
      (auto simp: client_server_valid_def Let_def dest: duid_valid_bound)
qed

text \<open>The pending message is valid, and the rest of the client is as before.\<close>

lemma prepare_message_ok:
  assumes "wf_client c" and "unat (c_duid_size c) \<le> 32" and "unat (c_server_duid_size c) \<le> 32"
    and "transaction_id \<noteq> 0" and "transaction_id \<le> 0x00ffffff"
    and "kind \<noteq> RIN_DHCPV6_TRANSMIT_NONE" and "prepare_kind c n = Some (kind, fresh)"
    and "c_next_transmit_sequence c \<noteq> 0"
  shows "\<exists>t. prepare_message c kind transaction_id now_ms = (RIN_DHCPV6_PACKET_READY,
      c\<lparr>c_next_transmit_sequence := (if c_next_transmit_sequence c = UINT32_MAX then 0
          else c_next_transmit_sequence c + 1),
        c_pending := t, c_pending_present := 1, c_last_now_ms := now_ms\<rparr>, t) \<and>
    wf_transmit t \<and> tx_kind t = kind \<and> tx_prepared_at_ms t = now_ms \<and>
    tx_sequence t = c_next_transmit_sequence c \<and>
    load_xid (tx_message t) = transaction_id \<and>
    pending_valid (c\<lparr>c_next_transmit_sequence := s, c_pending := t, c_pending_present := 1,
      c_last_now_ms := now_ms\<rparr>)"
proof -
  obtain t where b: "build_message c kind transaction_id now_ms = Inr t"
    and t: "wf_transmit t" "tx_version t = RIN_DHCPV6_CLIENT_VERSION"
      "tx_struct_size t = sizeof_transmit" "tx_owner_generation t = c_generation c"
      "tx_reserved t = 0" "tx_prepared_at_ms t = now_ms" "tx_kind t = kind"
      "4 \<le> unat (tx_message_size t)" "unat (tx_message_size t) \<le> 512"
      "byte_tail_zero (tx_message t) (unat (tx_message_size t)) 512"
    and m: "take (unat (tx_message_size t)) (tx_message t) = transaction_header kind transaction_id @
      options_encode (message_options c kind transaction_id now_ms)"
    using build_message_ok [OF assms(1-5)] by blast
  obtain rest where rest: "tx_message t = transaction_header kind transaction_id @ rest"
    using append_take_drop_id [of "unat (tx_message_size t)" "tx_message t"] unfolding m
    by (metis append.assoc)
  have xid: "load_xid (tx_message t) = transaction_id"
    unfolding rest by (rule load_xid_header [OF assms(5)])
  have first: "tx_message t ! 0 = ucast kind" by (simp add: rest transaction_header_def)
  have "4 \<le> tx_message_size t" "tx_message_size t \<le> 512"
    using t(8,9) by (simp_all add: word_le_nat_alt)
  then have "pending_valid (c\<lparr>c_next_transmit_sequence := s,
      c_pending := t\<lparr>tx_sequence := c_next_transmit_sequence c\<rparr>, c_pending_present := 1,
      c_last_now_ms := now_ms\<rparr>)"
    using t xid first assms(4,6,8) prepare_kind_values [OF assms(7)]
    by (auto simp: pending_valid_def Let_def not_less)
  then show ?thesis
    using b t(1,6,7) xid by (simp add: prepare_message_def Let_def wf_transmit_def)
qed

lemma prepare_kind_pending [simp]:
  "prepare_kind (c\<lparr>c_next_transmit_sequence := s, c_pending := t, c_pending_present := p\<rparr>) n =
     prepare_kind c n"
  by (simp add: prepare_kind_def client_startup_delayed_def client_information_mode_def Let_def)

lemma prepare_message_inv:
  assumes "client_inv c" and "c_pending_present c = 0" and "c_last_now_ms c \<le> now_ms"
    and "transaction_id \<noteq> 0" and "transaction_id \<le> 0x00ffffff"
    and "kind \<noteq> RIN_DHCPV6_TRANSMIT_NONE" and "prepare_kind c now_ms = Some (kind, fresh)"
    and "c_next_transmit_sequence c \<noteq> 0"
    and "now_ms \<le> UINT64_MAX - DHCPV6_MAX_RANDOMIZED_RT_MS"
    and "client_has_lease c \<Longrightarrow> now_ms < c_expires_at_ms c"
    and "fresh \<Longrightarrow> c_generation c < UINT64_MAX"
    and "\<not> fresh \<Longrightarrow> transaction_id = c_transaction_id c"
    and "c_state c = RIN_DHCPV6_STATE_IDLE \<Longrightarrow> client_startup_delayed c"
  shows "client_inv (fst (snd (prepare_message c kind transaction_id now_ms)))"
proof -
  note v = client_invD [OF assms(1)]
  note vs = client_validD [OF v(2)]
  define s where "s = (if c_next_transmit_sequence c = UINT32_MAX then 0
          else c_next_transmit_sequence c + 1)"
  obtain t where p: "prepare_message c kind transaction_id now_ms = (RIN_DHCPV6_PACKET_READY,
      c\<lparr>c_next_transmit_sequence := s, c_pending := t, c_pending_present := 1,
        c_last_now_ms := now_ms\<rparr>, t)"
    and t: "wf_transmit t" "tx_kind t = kind" "tx_prepared_at_ms t = now_ms"
      "load_xid (tx_message t) = transaction_id"
    and pv: "pending_valid (c\<lparr>c_next_transmit_sequence := s, c_pending := t, c_pending_present := 1,
      c_last_now_ms := now_ms\<rparr>)"
    using prepare_message_ok [OF v(1) client_sizes [OF v(2)] assms(4-8), of now_ms s]
    unfolding s_def by blast
  let ?c = "c\<lparr>c_next_transmit_sequence := s, c_pending := t, c_pending_present := 1,
      c_last_now_ms := now_ms\<rparr>"
  have "client_fields_valid ?c"
    using vs(1) pv by (simp add: client_fields_valid_def)
  then have valid: "client_valid ?c"
    using vs client_congs [of ?c c] by (simp add: client_valid_def)
  have "pending_due ?c"
    using assms(7,9-13) t order_trans [OF v(3) assms(3)]
    by (auto simp: pending_due_def Let_def client_has_lease_def client_startup_delayed_def)
  then show ?thesis
    using valid v t(1) order_trans [OF v(3) assms(3)]
    by (simp add: p client_inv_def wf_client_def client_information_mode_def
        client_startup_delayed_def)
qed

text \<open>A fresh client that has drawn its transaction identifier and its start-up delay.\<close>

lemma startup_inv:
  assumes "client_inv c" and "c_state c = RIN_DHCPV6_STATE_IDLE" and "c_transaction_id c = 0"
    and "c_pending_present c = 0" and "transaction_id \<noteq> 0" and "transaction_id \<le> 0x00ffffff"
    and "c_generation c < UINT64_MAX - 1" and "c_last_now_ms c \<le> now_ms"
  shows "client_inv (c\<lparr>c_transaction_id := transaction_id,
    c_offer_t1_seconds := DHCPV6_RETRANSMISSION_NOT_STARTED, c_next_transmit_ms := d,
    c_generation := c_generation c + 1\<rparr>)" (is "client_inv ?c")
proof -
  note v = client_invD [OF assms(1)]
  note vs = client_validD [OF v(2)]
  note d = client_information_mode_def client_startup_delayed_def client_has_lease_def
  have "unat (c_generation c) < 18446744073709551614"
    using assms(7) by (simp add: word_less_nat_alt)
  then have "unat (c_generation c + 1) = unat (c_generation c) + 1" "c_generation c \<noteq> UINT64_MAX"
    by (auto simp: unat_add_lem [THEN iffD1])
  then have g: "c_generation c + 1 < UINT64_MAX" "c_generation c + 1 \<noteq> 0"
    using assms(7) generation_suc_nonzero [of "c_generation c"] by (auto simp: word_less_nat_alt)
  have "client_fields_valid ?c"
    using vs(1) assms(4,6) g(2) by (auto simp: client_fields_valid_def pending_valid_def)
  moreover have "client_transaction_valid ?c"
    using assms(2,5) by (simp add: client_transaction_valid_def d)
  moreover have "client_timer_valid ?c"
    using vs(4,7) assms(2,3,5)
    by (auto simp: client_transaction_valid_def client_timer_valid_def client_first_send_pending_def
        d state_simps)
  ultimately have "client_valid ?c"
    using vs client_mode_valid_cong [of ?c c] client_server_valid_cong [of ?c c]
      client_lease_valid_cong [of ?c c] client_dns_valid_cong [of ?c c]
    by (simp add: client_valid_def)
  then show ?thesis
    using v assms(2,4) g(1) by (simp add: client_inv_def wf_client_def d)
qed

lemma u64_less_max: "(g < UINT64_MAX) = (g \<noteq> UINT64_MAX)"
proof -
  have max: "UINT64_MAX = (- 1 :: u64)" by simp
  show ?thesis unfolding max using word_order.not_eq_extremum [of g] by (rule sym)
qed

lemma prepare_startup_inv:
  assumes "client_inv c" and "c_state c = RIN_DHCPV6_STATE_IDLE" and "c_transaction_id c = 0"
    and "c_pending_present c = 0" and "transaction_id \<noteq> 0" and "transaction_id \<le> 0x00ffffff"
    and "c_generation c < UINT64_MAX - 1" and "c_last_now_ms c \<le> now_ms"
    and "kind \<noteq> RIN_DHCPV6_TRANSMIT_NONE" and "prepare_kind c now_ms = Some (kind, fresh)"
    and "c_next_transmit_sequence c \<noteq> 0"
    and "now_ms \<le> UINT64_MAX - DHCPV6_MAX_RANDOMIZED_RT_MS"
  shows "client_inv (fst (snd (prepare_startup c kind transaction_id now_ms)))"
proof -
  define delay where "delay = startup_delay (c\<lparr>c_transaction_id := transaction_id,
    c_offer_t1_seconds := DHCPV6_RETRANSMISSION_NOT_STARTED\<rparr>) transaction_id"
  define c' where "c' = c\<lparr>c_transaction_id := transaction_id,
    c_offer_t1_seconds := DHCPV6_RETRANSMISSION_NOT_STARTED, c_next_transmit_ms := now_ms + delay,
    c_generation := c_generation c + 1\<rparr>"
  have inv: "client_inv c'"
    unfolding c'_def using startup_inv [OF assms(1-8)] .
  have same: "c_last_now_ms c' = c_last_now_ms c" "c_pending_present c' = 0"
      "c_next_transmit_sequence c' = c_next_transmit_sequence c" "\<not> client_has_lease c'"
      "transaction_id = c_transaction_id c'" "client_startup_delayed c'"
    using assms(2,4,5)
    by (simp_all add: c'_def client_has_lease_def client_state_has_lease_def client_startup_delayed_def)
  have p: "prepare_startup c kind transaction_id now_ms =
      (if delay \<noteq> 0 then (RIN_DHCPV6_OK, c'\<lparr>c_last_now_ms := now_ms\<rparr>, zero_transmit)
       else prepare_message c' kind transaction_id now_ms)"
    by (simp add: prepare_startup_def Let_def delay_def c'_def)
  show ?thesis
  proof (cases "delay = 0")
    case True
    have "prepare_kind c' now_ms = Some (kind, False)"
      using assms(2,3,5,10) True
      by (simp add: prepare_kind_def c'_def client_startup_delayed_def client_information_mode_def
          Let_def split: if_splits)
    from prepare_message_inv [OF inv same(2) _ assms(5,6,9) this] same assms(8,11,12)
    have "client_inv (fst (snd (prepare_message c' kind transaction_id now_ms)))" by simp
    with True show ?thesis by (simp only: p) simp
  next
    case False
    then show ?thesis using client_inv_last_now [OF inv] same(1) assms(8) by (simp add: p)
  qed
qed

lemma prepare_transaction_inv:
  assumes "client_inv c" and "c_pending_present c = 0" and "c_last_now_ms c \<le> now_ms"
    and "client_has_lease c \<Longrightarrow> now_ms < c_expires_at_ms c"
    and "prepare_kind c now_ms = Some (kind, fresh)"
  shows "client_inv (fst (snd (prepare_transaction c kind fresh new_id now_ms)))"
proof -
  define tid where "tid = (if fresh then new_id else c_transaction_id c)"
  have idle: "client_inv (fst (snd (prepare_startup c kind tid now_ms)))"
    if "kind \<noteq> 0" "c_state c = 0" "c_transaction_id c = 0" "tid \<noteq> 0" "tid \<le> 0x00ffffff"
      "c_generation c < UINT64_MAX - 1" "c_next_transmit_sequence c \<noteq> 0"
      "now_ms \<le> UINT64_MAX - DHCPV6_MAX_RANDOMIZED_RT_MS"
    using that prepare_startup_inv [OF assms(1) _ _ assms(2) _ _ _ assms(3) _ assms(5)] by blast
  have message: "client_inv (fst (snd (prepare_message c kind tid now_ms)))"
    if "kind \<noteq> 0" "tid \<noteq> 0" "tid \<le> 0x00ffffff" "c_next_transmit_sequence c \<noteq> 0"
      "now_ms \<le> UINT64_MAX - DHCPV6_MAX_RANDOMIZED_RT_MS" "fresh \<Longrightarrow> c_generation c \<noteq> UINT64_MAX"
      "\<not> (c_state c = 0 \<and> c_transaction_id c = 0)"
    using that assms(4) client_validD(4) [OF client_invD(2) [OF assms(1)]]
    by (intro prepare_message_inv [OF assms(1-3) _ _ _ assms(5)])
      (auto simp: tid_def u64_less_max client_transaction_valid_def)
  show ?thesis
    using assms(1) client_inv_last_now [OF assms(1,3)] idle message
    by (simp add: prepare_transaction_def Let_def not_less not_le flip: tid_def)
qed

lemma client_prepare_inv:
  assumes "client_inv c"
  shows "client_inv (fst (snd (client_prepare c new_id now_ms)))"
proof (cases "client_valid c \<and> time_valid c now_ms \<and>
    \<not> (client_has_lease c \<and> c_expires_at_ms c \<le> now_ms) \<and> c_pending_present c = 0")
  case False
  then show ?thesis
    using assms expire_lease_inv [OF assms, of now_ms]
    by (cases "expire_lease (c\<lparr>c_last_now_ms := now_ms\<rparr>)")
      (auto simp: client_prepare_def time_valid_def)
next
  case True
  show ?thesis
  proof (cases "prepare_kind c now_ms")
    case None
    with True assms show ?thesis by (auto simp: client_prepare_def)
  next
    case (Some kf)
    obtain kind fresh where k: "prepare_kind c now_ms = Some (kind, fresh)"
      using Some by (cases kf) auto
    have "client_prepare c new_id now_ms = prepare_transaction c kind fresh new_id now_ms"
      using True by (auto simp: client_prepare_def k)
    then show ?thesis
      using True prepare_transaction_inv [OF assms _ _ _ k]
      by (simp add: time_valid_def not_le)
  qed
qed

section \<open>Completing\<close>

abbreviation (input) known_kind :: "u32 \<Rightarrow> bool" where
  "known_kind k \<equiv> k = RIN_DHCPV6_TRANSMIT_SOLICIT \<or> k = RIN_DHCPV6_TRANSMIT_REQUEST \<or>
     k = RIN_DHCPV6_TRANSMIT_RENEW \<or> k = RIN_DHCPV6_TRANSMIT_REBIND \<or>
     k = RIN_DHCPV6_TRANSMIT_INFORMATION_REQUEST"

text \<open>The two configurable limits of the timeouts.\<close>

definition max_rt_valid :: "dhcpv6_client \<Rightarrow> bool" where
  "max_rt_valid c =
     (\<not> c_offer_preferred_seconds c < DHCPV6_MAX_RT_OPTION_MIN_SECONDS \<and>
      \<not> c_offer_preferred_seconds c > DHCPV6_MAX_RT_OPTION_MAX_SECONDS \<and>
      \<not> c_offer_valid_seconds c < DHCPV6_MAX_RT_OPTION_MIN_SECONDS \<and>
      \<not> c_offer_valid_seconds c > DHCPV6_MAX_RT_OPTION_MAX_SECONDS)"

lemma client_fields_max_rt: "client_fields_valid c \<Longrightarrow> max_rt_valid c"
  by (simp add: client_fields_valid_def max_rt_valid_def)

text \<open>A timeout between nine tenths of the initial and eleven tenths of the maximal one.\<close>

definition rt_in_range :: "dhcpv6_client \<Rightarrow> u32 \<Rightarrow> u64 \<Rightarrow> bool" where
  "rt_in_range c kind r =
     (\<not> r < retransmission_irt_ms kind - retransmission_irt_ms kind div 10 \<and>
      \<not> r > retransmission_mrt_ms c kind + retransmission_mrt_ms c kind div 10)"

lemma rt_limits:
  assumes "max_rt_valid c" and "known_kind kind"
  shows "1000 \<le> unat (retransmission_irt_ms kind)"
    "unat (retransmission_irt_ms kind) \<le> unat (retransmission_mrt_ms c kind)"
    "unat (retransmission_mrt_ms c kind) \<le> 86400000"
proof -
  have "60 \<le> unat (c_offer_preferred_seconds c)" "unat (c_offer_preferred_seconds c) \<le> 86400"
      "60 \<le> unat (c_offer_valid_seconds c)" "unat (c_offer_valid_seconds c) \<le> 86400"
    using assms(1) by (simp_all add: max_rt_valid_def not_less word_le_nat_alt)
  then show "1000 \<le> unat (retransmission_irt_ms kind)"
    "unat (retransmission_irt_ms kind) \<le> unat (retransmission_mrt_ms c kind)"
    "unat (retransmission_mrt_ms c kind) \<le> 86400000"
    using assms(2) by (auto simp: retransmission_irt_ms_def retransmission_mrt_ms_def)
qed

lemma rt_in_range_nat:
  assumes "max_rt_valid c" and "known_kind kind"
  shows "rt_in_range c kind r \<longleftrightarrow>
    unat (retransmission_irt_ms kind) - unat (retransmission_irt_ms kind) div 10 \<le> unat r \<and>
    unat r \<le> unat (retransmission_mrt_ms c kind) + unat (retransmission_mrt_ms c kind) div 10"
proof -
  note b = rt_limits [OF assms]
  have "unat (retransmission_irt_ms kind div 10) = unat (retransmission_irt_ms kind) div 10"
      "unat (retransmission_mrt_ms c kind div 10) = unat (retransmission_mrt_ms c kind) div 10"
    by (simp_all add: unat_div)
  moreover from this have "unat (retransmission_irt_ms kind - retransmission_irt_ms kind div 10) =
      unat (retransmission_irt_ms kind) - unat (retransmission_irt_ms kind) div 10"
    by (simp add: unat_sub word_le_nat_alt)
  moreover from calculation b have "unat (retransmission_mrt_ms c kind + retransmission_mrt_ms c kind div 10) =
      unat (retransmission_mrt_ms c kind) + unat (retransmission_mrt_ms c kind) div 10"
    by (simp add: unat_add_lem [THEN iffD1])
  ultimately show ?thesis by (simp add: rt_in_range_def not_less word_le_nat_alt)
qed

lemma initial_rt_in_range:
  assumes "max_rt_valid c" and "known_kind kind"
  shows "rt_in_range c kind (randomized_rt d (retransmission_irt_ms kind) first k t s)"
proof -
  note b = rt_limits [OF assms]
  have "unat (retransmission_irt_ms kind) \<le> 86400000" using b by simp
  note r = randomized_rt_bounds(1,2) [OF this, of d first k t s]
  have "unat (retransmission_irt_ms kind) div 10 \<le> unat (retransmission_mrt_ms c kind) div 10"
    using b(2) by (rule div_le_mono)
  then show ?thesis using r b(2) by (simp add: rt_in_range_nat [OF assms])
qed

lemma later_rt_in_range:
  assumes "max_rt_valid c" and "known_kind kind" and "rt_in_range c kind r"
    and "base = (if r > UINT64_MAX div 2 then retransmission_mrt_ms c kind else r * 2)"
  shows "rt_in_range c kind (randomized_rt d
    (if base > retransmission_mrt_ms c kind then retransmission_mrt_ms c kind else base) first k t s)"
proof -
  let ?irt = "unat (retransmission_irt_ms kind)" and ?mrt = "unat (retransmission_mrt_ms c kind)"
  let ?base = "if base > retransmission_mrt_ms c kind then retransmission_mrt_ms c kind else base"
  note b = rt_limits [OF assms(1,2)]
  have r: "?irt - ?irt div 10 \<le> unat r" "unat r \<le> ?mrt + ?mrt div 10"
    using assms(3) by (simp_all add: rt_in_range_nat [OF assms(1,2)])
  have small: "unat r \<le> 95040000" using r(2) b(3) by linarith
  then have "unat (r * 2) = unat r * 2" by (simp add: unat_mult_lem [THEN iffD1])
  moreover have "\<not> r > UINT64_MAX div 2" using small by (simp add: word_less_nat_alt not_less)
  ultimately have base: "unat base = unat r * 2" by (simp add: assms(4))
  have lo: "?irt \<le> unat ?base" and hi: "unat ?base \<le> ?mrt"
    using b r(1) base by (auto simp: word_less_nat_alt not_less)
  have "unat ?base \<le> 86400000" using hi b(3) by linarith
  note rr = randomized_rt_bounds(1,2) [OF this, of d first k t s]
  have "?irt - ?irt div 10 \<le> unat ?base - unat ?base div 10" using lo by linarith
  moreover have "unat ?base + unat ?base div 10 \<le> ?mrt + ?mrt div 10" using hi by linarith
  ultimately show ?thesis
    using rr by (simp add: rt_in_range_nat [OF assms(1,2)] del: if_split)
qed

lemma rt_small:
  assumes "max_rt_valid c" and "known_kind kind" and "rt_in_range c kind r"
  shows "unat r \<le> 95040000"
proof -
  have "unat r \<le> unat (retransmission_mrt_ms c kind) + unat (retransmission_mrt_ms c kind) div 10"
    using assms(3) by (simp add: rt_in_range_nat [OF assms(1,2)])
  then show ?thesis using rt_limits(3) [OF assms(1,2)] by linarith
qed

text \<open>The next transmission is not before the start of the transaction.\<close>

lemma earlier_deadline_ge:
  assumes "started \<le> prepared" and "prepared \<le> UINT64_MAX - DHCPV6_MAX_RANDOMIZED_RT_MS"
    and "unat r \<le> 95040000" and "phase_end = 0 \<or> prepared \<le> phase_end"
  shows "started \<le> earlier_deadline (prepared + r) phase_end"
proof -
  have "unat prepared \<le> 18446744073614511615" using assms(2) by (simp add: word_le_nat_alt)
  then have "unat (prepared + r) = unat prepared + unat r"
    using assms(3) by (simp add: unat_add_lem [THEN iffD1])
  then have "prepared \<le> prepared + r" by (simp add: word_le_nat_alt)
  then show ?thesis using assms(1,4) by (auto simp: earlier_deadline_def)
qed

text \<open>The transitions of a completed message, one line per case of the source.\<close>

lemma complete_transition_cases:
  assumes "complete_transition c kind tid = Some (s, phase_end, True)"
  shows "(c_state c = 0 \<and> kind = 1 \<and> s = 1 \<and> phase_end = 0) \<or>
    (c_state c = 0 \<and> kind = 11 \<and> s = 7 \<and> phase_end = 0) \<or>
    (c_state c = 2 \<and> kind = 3 \<and> s = 3 \<and> phase_end = 0) \<or>
    (c_state c = 4 \<and> kind = 5 \<and> s = 5 \<and> phase_end = c_rebind_at_ms c) \<or>
    ((c_state c = 4 \<or> c_state c = 5) \<and> kind = 6 \<and> s = 6 \<and> phase_end = c_expires_at_ms c) \<or>
    (c_state c = 8 \<and> kind = 11 \<and> s = 7 \<and> phase_end = 0) \<or>
    (c_state c = 9 \<and> kind = 11 \<and> s = 9 \<and> phase_end = c_expires_at_ms c) \<or>
    (c_state c = 10 \<and> kind = 6 \<and> s = 10 \<and> phase_end = c_expires_at_ms c)"
  using assms by (simp add: complete_transition_def Let_def split: if_splits)

lemma complete_repeat_cases:
  assumes "complete_transition c kind tid = Some (s, phase_end, False)"
  shows "s = c_state c \<and> tid = c_transaction_id c \<and>
    ((c_state c = 1 \<and> kind = 1 \<and> phase_end = 0) \<or> (c_state c = 3 \<and> kind = 3 \<and> phase_end = 0) \<or>
     (c_state c = 5 \<and> kind = 5 \<and> phase_end = c_rebind_at_ms c) \<or>
     (c_state c = 6 \<and> kind = 6 \<and> phase_end = c_expires_at_ms c) \<or>
     (c_state c = 7 \<and> kind = 11 \<and> phase_end = 0) \<or>
     (c_state c = 9 \<and> kind = 11 \<and> phase_end = c_expires_at_ms c \<and> c_offer_t1_seconds c \<noteq> UINT32_MAX) \<or>
     (c_state c = 10 \<and> kind = 6 \<and> phase_end = c_expires_at_ms c \<and> c_offer_t1_seconds c \<noteq> UINT32_MAX))"
  using assms by (simp add: complete_transition_def Let_def split: if_splits)

lemma load_xid_le: "load_xid m \<le> 0x00ffffff"
proof -
  have "load_xid m = take_bit 24 (load_xid m)"
    by (rule bit_word_eqI) (auto simp: load_xid_def bit_simps dest: bit_imp_le_length)
  also have "\<dots> \<le> mask 24" by (simp add: take_bit_eq_mask word_and_le1)
  finally show ?thesis by (simp add: mask_eq_exp_minus_1)
qed

text \<open>The phase of a due message has not ended when it is prepared.\<close>

lemma pending_phase:
  assumes "client_inv c" and "c_pending_present c \<noteq> 0"
    and "complete_transition c (tx_kind (c_pending c)) tid = Some (s, phase_end, tr)"
  shows "phase_end = 0 \<or> tx_prepared_at_ms (c_pending c) \<le> phase_end"
proof -
  note d = client_invD(5) [OF assms(1,2)]
  have lease: "client_has_lease c \<Longrightarrow> tx_prepared_at_ms (c_pending c) \<le> c_expires_at_ms c"
    using d by (auto simp: pending_due_def Let_def)
  obtain fresh where k: "prepare_kind c (tx_prepared_at_ms (c_pending c)) = Some (tx_kind (c_pending c), fresh)"
    using d by (auto simp: pending_due_def Let_def)
  have renew: "tx_prepared_at_ms (c_pending c) \<le> c_rebind_at_ms c"
    if "c_state c = 4 \<or> c_state c = 5" "tx_kind (c_pending c) = 5"
    using k that by (auto simp: prepare_kind_def Let_def not_le split: if_splits)
  show ?thesis
    using complete_transition_cases [of c "tx_kind (c_pending c)" tid s phase_end] 
      complete_repeat_cases [of c "tx_kind (c_pending c)" tid s phase_end] assms(3) lease renew
    by (cases tr) (auto simp: client_has_lease_def client_state_has_lease_def)
qed

lemma schedule_initial_timer:
  assumes "max_rt_valid c" and "s = c_state c" and "kind = retransmission_kind_for_state s"
    and "known_kind kind" and "client_state_retransmits s"
    and "prepared \<le> UINT64_MAX - DHCPV6_MAX_RANDOMIZED_RT_MS"
    and "phase_end = 0 \<or> prepared \<le> phase_end"
  shows "client_timer_valid (clear_pending (schedule_initial_retry c kind tid seq prepared phase_end))"
proof -
  let ?r = "randomized_rt c (retransmission_irt_ms kind) (kind = RIN_DHCPV6_TRANSMIT_SOLICIT) kind tid seq"
  have r: "rt_in_range c kind ?r" using initial_rt_in_range [OF assms(1,4)] .
  then have "prepared \<le> earlier_deadline (prepared + ?r) phase_end"
    using rt_small [OF assms(1,4) r] assms(6,7) by (intro earlier_deadline_ge) auto
  then show ?thesis
    using r assms(2-5)
    by (auto simp: client_timer_valid_def schedule_initial_retry_def clear_pending_def Let_def
        rt_in_range_def retransmission_mrt_ms_def)
qed

lemma transition_inv:
  assumes "client_inv c" and "c_pending_present c \<noteq> 0"
    and "complete_transition c (tx_kind (c_pending c)) tid = Some (s, phase_end, True)"
    and "tid \<noteq> 0" and "tid \<le> 0x00ffffff" and "c_generation c \<noteq> UINT64_MAX"
  shows "client_inv (clear_pending (schedule_initial_retry
    (c\<lparr>c_state := s, c_generation := c_generation c + 1, c_transaction_id := tid\<rparr>)
    (tx_kind (c_pending c)) tid seq (tx_prepared_at_ms (c_pending c)) phase_end))"
    (is "client_inv (clear_pending (schedule_initial_retry ?b ?k tid seq ?p phase_end))")
proof -
  note v = client_invD [OF assms(1)]
  note vs = client_validD [OF v(2)]
  note d = client_information_mode_def client_startup_delayed_def client_has_lease_def
  note t = complete_transition_cases [OF assms(3)]
  define c' where "c' = clear_pending (schedule_initial_retry ?b ?k tid seq ?p phase_end)"
  note c'_simps = c'_def clear_pending_def schedule_initial_retry_def Let_def
  obtain fresh where k: "prepare_kind c ?p = Some (?k, fresh)" and p: "?p \<le> c_last_now_ms c"
      "?p \<le> UINT64_MAX - DHCPV6_MAX_RANDOMIZED_RT_MS"
    using v(5) [OF assms(2)] by (auto simp: pending_due_def Let_def)
  have mode: "s = 1 \<Longrightarrow> c_reserved c \<noteq> 1" "s = 7 \<Longrightarrow> c_reserved c = 1"
    using k t vs(2) by (auto simp: prepare_kind_def Let_def d client_mode_valid_def split: if_splits)
  have bound: "c_state c = 4 \<Longrightarrow> c_reserved c \<noteq> 1"
    using v(4) by (auto simp: client_information_mode_def)
  have gen: "c_generation c + 1 \<noteq> 0" using assms(6) by (rule generation_suc_nonzero)
  have "max_rt_valid ?b" using client_fields_max_rt [OF vs(1)] by (simp add: max_rt_valid_def)
  then have "client_timer_valid c'"
    unfolding c'_def using t p(2) pending_phase [OF assms(1-3)]
    by (intro schedule_initial_timer [where s = s]) (auto simp: state_simps)
  moreover have "client_fields_valid c'"
    using vs(1) assms(5) gen t by (auto simp: client_fields_valid_def pending_valid_def c'_simps)
  moreover have "client_mode_valid c'"
    using t by (elim disjE conjE; use vs(2) mode bound in \<open>simp add: client_mode_valid_def d c'_simps\<close>)
  moreover have "client_server_valid c'"
    using t by (elim disjE conjE; use vs(3) in \<open>clarsimp simp: client_server_valid_def state_simps c'_simps\<close>)
  moreover have "client_transaction_valid c'"
    using t by (elim disjE conjE; use assms(4) in \<open>simp add: client_transaction_valid_def c'_simps\<close>)
  moreover have "client_lease_valid c'"
    using t by (elim disjE conjE; use vs(5) mode in \<open>simp add: client_lease_valid_def d state_simps c'_simps\<close>)
  moreover have "client_dns_valid c'"
    using vs(6) client_dns_valid_cong [of c' c] by (simp add: c'_simps)
  ultimately have "client_valid c'" by (simp add: client_valid_def)
  then show ?thesis
    using v(1) p(1) t by (auto simp: client_inv_def wf_client_def d c'_simps)
qed

lemma client_update_same:
  "s = c_state c \<Longrightarrow> t = c_transaction_id c \<Longrightarrow> c\<lparr>c_state := s, c_transaction_id := t\<rparr> = c"
  by simp

lemma retransmission_mrt_ms_cong:
  "c_offer_preferred_seconds c' = c_offer_preferred_seconds c \<Longrightarrow>
     c_offer_valid_seconds c' = c_offer_valid_seconds c \<Longrightarrow>
     retransmission_mrt_ms c' k = retransmission_mrt_ms c k"
  by (simp add: retransmission_mrt_ms_def)

lemma client_timer_validI:
  assumes "client_state_retransmits (c_state c)" and "kind = retransmission_kind_for_state (c_state c)"
    and "kind \<noteq> RIN_DHCPV6_TRANSMIT_NONE" and "c_offer_t1_seconds c \<noteq> UINT32_MAX"
    and "rt_in_range c kind (c_retry_ms c)"
    and "c_transaction_started_ms c \<le> c_next_transmit_ms c"
    and "c_state c = RIN_DHCPV6_STATE_REQUESTING \<Longrightarrow>
      c_offer_t1_seconds c < DHCPV6_REQUEST_MAX_RETRANSMISSIONS"
  shows "client_timer_valid c"
  using assms by (auto simp: client_timer_valid_def rt_in_range_def Let_def)

lemma schedule_later_retry_range:
  assumes "max_rt_valid c" and "known_kind kind" and "rt_in_range c kind (c_retry_ms c)"
  shows "\<exists>r. schedule_later_retry c kind tid seq prepared phase_end =
    c\<lparr>c_next_transmit_ms := earlier_deadline (prepared + r) phase_end, c_retry_ms := r\<rparr> \<and>
    rt_in_range c kind r"
  using later_rt_in_range [OF assms refl, of c False kind tid seq]
  by (intro exI conjI) (simp_all only: schedule_later_retry_def Let_def)

lemma schedule_later_timer:
  assumes "client_valid c" and "kind = retransmission_kind_for_state (c_state c)"
    and "known_kind kind" and "client_state_retransmits (c_state c)"
    and "c_offer_t1_seconds c \<noteq> UINT32_MAX" and "t1 \<noteq> UINT32_MAX"
    and "c_state c = RIN_DHCPV6_STATE_REQUESTING \<Longrightarrow> t1 < DHCPV6_REQUEST_MAX_RETRANSMISSIONS"
    and "c_transaction_started_ms c \<le> prepared"
    and "prepared \<le> UINT64_MAX - DHCPV6_MAX_RANDOMIZED_RT_MS"
    and "phase_end = 0 \<or> prepared \<le> phase_end"
  shows "client_timer_valid (clear_pending (schedule_later_retry (c\<lparr>c_offer_t1_seconds := t1\<rparr>)
    kind tid seq prepared phase_end))"
proof -
  note vs = client_validD [OF assms(1)]
  let ?c = "c\<lparr>c_offer_t1_seconds := t1\<rparr>"
  have lim: "max_rt_valid ?c"
    using client_fields_max_rt [OF vs(1)] by (simp add: max_rt_valid_def)
  have "rt_in_range ?c kind (c_retry_ms ?c)"
    using vs(7) assms(2-5) retransmission_mrt_ms_cong [of ?c c kind]
    by (simp add: client_timer_valid_def rt_in_range_def Let_def)
  from schedule_later_retry_range [OF lim assms(3) this] obtain r where
    s: "schedule_later_retry ?c kind tid seq prepared phase_end =
      ?c\<lparr>c_next_transmit_ms := earlier_deadline (prepared + r) phase_end, c_retry_ms := r\<rparr>"
    and r: "rt_in_range ?c kind r" by blast
  have "c_transaction_started_ms c \<le> earlier_deadline (prepared + r) phase_end"
    using rt_small [OF lim assms(3) r] assms(8-10) by (intro earlier_deadline_ge) auto
  moreover have "kind \<noteq> 0" using assms(3) by auto
  moreover have "rt_in_range (clear_pending (?c\<lparr>c_next_transmit_ms := e, c_retry_ms := r\<rparr>)) kind r" for e
    using r by (simp add: rt_in_range_def clear_pending_def
        retransmission_mrt_ms_cong [of "_\<lparr>c_pending := _\<rparr>" ?c])
  ultimately show ?thesis
    unfolding s using assms(2,4,6,7)
    by (intro client_timer_validI [where kind = kind]) (simp_all add: clear_pending_def)
qed

lemma later_retry_inv:
  assumes "client_inv c" and "c_pending_present c \<noteq> 0"
    and "complete_transition c (tx_kind (c_pending c)) tid = Some (s, phase_end, False)"
    and "t1 \<noteq> UINT32_MAX"
    and "c_state c = RIN_DHCPV6_STATE_REQUESTING \<Longrightarrow> t1 < DHCPV6_REQUEST_MAX_RETRANSMISSIONS"
  shows "client_inv (clear_pending (schedule_later_retry (c\<lparr>c_offer_t1_seconds := t1\<rparr>)
    (tx_kind (c_pending c)) tid seq (tx_prepared_at_ms (c_pending c)) phase_end))"
proof -
  let ?k = "tx_kind (c_pending c)" and ?p = "tx_prepared_at_ms (c_pending c)"
  note v = client_invD [OF assms(1)]
  note vs = client_validD [OF v(2)]
  note d = client_information_mode_def client_startup_delayed_def client_has_lease_def
  note t = complete_repeat_cases [OF assms(3)]
  define c' where "c' = clear_pending (schedule_later_retry (c\<lparr>c_offer_t1_seconds := t1\<rparr>)
    ?k tid seq ?p phase_end)"
  note c'_simps = c'_def clear_pending_def schedule_later_retry_def Let_def
  have p: "?p \<le> UINT64_MAX - DHCPV6_MAX_RANDOMIZED_RT_MS" "c_transaction_started_ms c \<le> ?p"
    using v(5) [OF assms(2)] by (auto simp: pending_due_def Let_def)
  have k: "?k = retransmission_kind_for_state (c_state c)" "known_kind ?k"
      "client_state_retransmits (c_state c)" "c_state c \<noteq> 0"
    using t by (auto simp: state_simps)
  have t1: "c_offer_t1_seconds c \<noteq> UINT32_MAX"
    using t vs(7) by (auto simp: client_timer_valid_def client_first_send_pending_def d state_simps)
  have "client_timer_valid c'"
    unfolding c'_def using pending_phase [OF assms(1-3)] p assms(4,5) t1 k
    by (intro schedule_later_timer [OF v(2)]) auto
  moreover have "client_fields_valid c'"
    using vs(1) by (simp add: client_fields_valid_def pending_valid_def c'_simps)
  moreover have "client_transaction_valid c'"
    using vs(4) k(4) by (simp add: client_transaction_valid_def c'_simps)
  moreover have "client_mode_valid c'" "client_server_valid c'" "client_lease_valid c'"
      "client_dns_valid c'"
    using vs client_mode_valid_cong [of c' c] client_server_valid_cong [of c' c]
      client_lease_valid_cong [of c' c] client_dns_valid_cong [of c' c]
    by (simp_all add: c'_simps)
  ultimately have "client_valid c'" by (simp add: client_valid_def)
  then show ?thesis
    using v(1,3,4) k(4) by (simp add: client_inv_def wf_client_def d c'_simps)
qed

text \<open>The counter of retransmissions never reaches the value that means "not started".\<close>

lemma retransmission_count:
  assumes "n \<noteq> (UINT32_MAX :: u32)"
  shows "(if n < UINT32_MAX - 1 then n + 1 else n) \<noteq> UINT32_MAX"
proof (cases "n < UINT32_MAX - 1")
  case True
  then have "unat n < 4294967294" by (simp add: word_less_nat_alt)
  then have "unat (n + 1) = unat n + 1" by (simp add: unat_add_lem [THEN iffD1])
  then have "unat (n + 1) \<noteq> unat UINT32_MAX" using \<open>unat n < 4294967294\<close> by simp
  then have "n + 1 \<noteq> UINT32_MAX" by metis
  with True show ?thesis by simp
next
  case False
  with assms show ?thesis by simp
qed

lemma complete_retransmission_inv:
  assumes "client_inv c" and "c_pending_present c \<noteq> 0"
    and "complete_transition c (tx_kind (c_pending c)) tid = Some (s, phase_end, False)"
  shows "client_inv (complete_retransmission c (c_pending c) tid phase_end)"
proof -
  note v = client_invD [OF assms(1)]
  note vs = client_validD [OF v(2)]
  note t = complete_repeat_cases [OF assms(3)]
  let ?n = "c_offer_t1_seconds c" and ?k = "tx_kind (c_pending c)"
  have t1: "?n \<noteq> UINT32_MAX"
    using t vs(7) by (auto simp: client_timer_valid_def client_first_send_pending_def
        client_startup_delayed_def state_simps)
  define exhausted where "exhausted = (retransmission_mrc ?k \<noteq> 0 \<and> ?n < retransmission_mrc ?k \<and>
    ?n + 1 \<ge> retransmission_mrc ?k)"
  show ?thesis
  proof (cases exhausted)
    case True
    have "client_inv (clear_dynamic (case advance_generation c of None \<Rightarrow> c | Some c \<Rightarrow> c))"
      using clear_advanced_inv [OF assms(1)] clear_dynamic_inv [OF assms(1), of "c_generation c"]
      by (simp add: advance_generation_def)
    with True show ?thesis by (simp add: complete_retransmission_def exhausted_def)
  next
    case False
    define m where "m = (if ?n < UINT32_MAX - 1 then ?n + 1 else ?n)"
    have m: "m \<noteq> UINT32_MAX" unfolding m_def using t1 by (rule retransmission_count)
    have "m < DHCPV6_REQUEST_MAX_RETRANSMISSIONS" if "c_state c = RIN_DHCPV6_STATE_REQUESTING"
    proof -
      have "?k = RIN_DHCPV6_TRANSMIT_REQUEST" using t that by auto
      moreover have "?n < 10"
        using vs(7) that by (auto simp: client_timer_valid_def state_simps)
      ultimately show ?thesis
        using False by (auto simp: exhausted_def retransmission_mrc_def m_def not_le)
    qed
    then have "client_inv (clear_pending (schedule_later_retry (c\<lparr>c_offer_t1_seconds := m\<rparr>)
        ?k tid (tx_sequence (c_pending c)) (tx_prepared_at_ms (c_pending c)) phase_end))"
      using later_retry_inv [OF assms m] by blast
    moreover have "(if ?n < UINT32_MAX - 1 then c\<lparr>c_offer_t1_seconds := ?n + 1\<rparr> else c) =
        c\<lparr>c_offer_t1_seconds := m\<rparr>"
      by (simp add: m_def)
    ultimately show ?thesis
      unfolding complete_retransmission_def Let_def exhausted_def [symmetric]
      using False by (simp only: if_False)
  qed
qed

lemma due_transition:
  assumes "client_inv c" and "c_pending_present c \<noteq> 0"
  shows "\<exists>s phase_end tr. complete_transition c (tx_kind (c_pending c))
      (load_xid (tx_message (c_pending c))) = Some (s, phase_end, tr) \<and>
    (tr \<longrightarrow> c_generation c \<noteq> UINT64_MAX)"
proof -
  note v = client_invD [OF assms(1)]
  note vs = client_validD [OF v(2)]
  let ?k = "tx_kind (c_pending c)" and ?x = "load_xid (tx_message (c_pending c))"
  obtain fresh where k: "prepare_kind c (tx_prepared_at_ms (c_pending c)) = Some (?k, fresh)"
    and g: "fresh \<longrightarrow> c_generation c \<noteq> UINT64_MAX" and x: "\<not> fresh \<longrightarrow> ?x = c_transaction_id c"
    using v(5) [OF assms(2)] unfolding pending_due_def Let_def u64_less_max by blast
  have idle: "c_state c = 0 \<longrightarrow> c_offer_t1_seconds c = UINT32_MAX"
    using v(5) [OF assms(2)] by (auto simp: pending_due_def Let_def client_startup_delayed_def)
  have start: "client_startup_delayed c \<longrightarrow> c_generation c \<noteq> UINT64_MAX" using v(6) by auto
  have nz: "?k \<noteq> 0"
    using vs(1) assms(2) by (auto simp: client_fields_valid_def pending_valid_def Let_def split: if_splits)
  then show ?thesis
    using k g x idle start
    by (auto simp: prepare_kind_def complete_transition_def Let_def client_startup_delayed_def
        split: if_splits)
qed

lemma clear_pending_inv:
  assumes "client_inv c"
  shows "client_inv (clear_pending c)"
proof -
  note v = client_invD [OF assms]
  let ?c = "clear_pending c"
  have "client_fields_valid ?c"
    using client_validD(1) [OF v(2)]
    by (simp add: client_fields_valid_def pending_valid_def clear_pending_def)
  then have "client_valid ?c"
    using client_validD [OF v(2)] client_congs [of ?c c]
    by (simp add: client_valid_def) (simp add: clear_pending_def)
  then show ?thesis
    using v by (simp add: client_inv_def clear_pending_def wf_client_def client_information_mode_def
        client_startup_delayed_def)
qed

lemma client_complete_transmit_inv:
  assumes "client_inv c"
  shows "client_inv (snd (client_complete_transmit c transmit sent))"
proof (cases "c_pending_present c = 0 \<or> transmit \<noteq> c_pending c \<or> sent \<noteq> 1")
  case True
  with assms clear_pending_inv [OF assms] show ?thesis
    by (auto simp: client_complete_transmit_def)
next
  case False
  let ?x = "load_xid (tx_message (c_pending c))"
  from False have p: "c_pending_present c \<noteq> 0" "transmit = c_pending c" "sent = 1" by auto
  note v = client_invD [OF assms]
  have x: "?x \<noteq> 0"
    using client_validD(1) [OF v(2)] p(1)
    by (auto simp: client_fields_valid_def pending_valid_def Let_def split: if_splits)
  obtain s phase_end tr where
    t: "complete_transition c (tx_kind (c_pending c)) ?x = Some (s, phase_end, tr)"
    and g: "tr \<Longrightarrow> c_generation c \<noteq> UINT64_MAX"
    using due_transition [OF assms p(1)] by blast
  show ?thesis
  proof (cases tr)
    case True
    with t have "complete_transition c (tx_kind (c_pending c)) ?x = Some (s, phase_end, True)" by simp
    from transition_inv [OF assms p(1) this x load_xid_le g [OF True]] show ?thesis
      using v(2) p t True g [OF True]
      by (simp add: client_complete_transmit_def Let_def advance_generation_def)
  next
    case False
    with t have r: "complete_transition c (tx_kind (c_pending c)) ?x = Some (s, phase_end, False)" by simp
    have "client_inv (complete_retransmission c (c_pending c) ?x phase_end)"
      using assms p(1) r by (rule complete_retransmission_inv)
    moreover have "c\<lparr>c_state := s, c_transaction_id := ?x\<rparr> = c"
      using complete_repeat_cases [OF r] by (simp add: client_update_same)
    ultimately show ?thesis
      using v(2) p r by (simp add: client_complete_transmit_def Let_def)
  qed
qed

end
