(* ===== verification/Dhcpv6_Client_Receive.thy ===== *)
theory Dhcpv6_Client_Receive
  imports Dhcpv6_Client_Inv
begin

text \<open>
  What receiving a message does to the invariant of the version 1 client. Every commit restores
  the timers, so it needs only the part of the invariant that does not mention them; a message
  that is not committed can leave the client with a timeout above a limit it has just lowered.
\<close>

section \<open>Copying parsed values\<close>

lemma unat_of_nat_small: "n \<le> 32 \<Longrightarrow> unat (of_nat n :: u32) = n"
  by (simp add: unat_of_nat)

lemma set_server_duid_valid:
  assumes "duid_valid d (length d)"
  shows "duid_valid (c_server_duid (set_server_duid d c)) (unat (c_server_duid_size (set_server_duid d c)))"
    "byte_tail_zero (c_server_duid (set_server_duid d c)) (unat (c_server_duid_size (set_server_duid d c))) 32"
    "length (c_server_duid (set_server_duid d c)) = 32"
    "c_server_duid_size (set_server_duid d c) \<noteq> 0"
proof -
  note b = duid_valid_bound [OF assms]
  have n: "unat (c_server_duid_size (set_server_duid d c)) = length d"
    using b by (simp add: set_server_duid_def unat_of_nat_small)
  show "duid_valid (c_server_duid (set_server_duid d c)) (unat (c_server_duid_size (set_server_duid d c)))"
    unfolding n using duid_valid_copy [OF assms] by (simp add: set_server_duid_def)
  show "byte_tail_zero (c_server_duid (set_server_duid d c)) (unat (c_server_duid_size (set_server_duid d c))) 32"
    unfolding n using b byte_tail_zero_copied [of d "length d"] by (simp add: set_server_duid_def)
  show "length (c_server_duid (set_server_duid d c)) = 32"
    using b by (simp add: set_server_duid_def)
  show "c_server_duid_size (set_server_duid d c) \<noteq> 0"
    using n b by auto
qed

lemma set_dns_servers_valid:
  assumes "parsed_ok p"
  shows "client_dns_valid (set_dns_servers (pm_dns_servers p) c)"
    and "wf_dns (c_dns_servers (set_dns_servers (pm_dns_servers p) c))"
    and "\<not> c_dns_server_count (set_dns_servers (pm_dns_servers p) c) > 3"
proof -
  let ?s = "pm_dns_servers p"
  have len: "length ?s \<le> 3" using parsed_ok_lengths(2) [OF assms] .
  then have n: "unat (of_nat (length ?s) :: u32) = length ?s" by (simp add: unat_of_nat_small)
  have usable: "i < length ?s \<Longrightarrow> dns_address_usable (?s ! i)" for i
    using parsed_ok_lengths(3) [OF assms] by (simp add: nth_mem)
  show "client_dns_valid (set_dns_servers ?s c)"
    using usable len
    by (auto simp: client_dns_valid_def set_dns_servers_def n list_all_iff nth_append)
  show "wf_dns (c_dns_servers (set_dns_servers ?s c))"
    using len parsed_ok_lengths(3) [OF assms]
    by (auto simp: wf_dns_def set_dns_servers_def list_all_iff)
  show "\<not> c_dns_server_count (set_dns_servers ?s c) > 3"
    using len n by (simp add: set_dns_servers_def word_less_nat_alt)
qed

section \<open>The part of the invariant without timers\<close>

definition untimed_inv :: "dhcpv6_client \<Rightarrow> bool" where
  "untimed_inv c = (wf_client c \<and> client_fields_valid c \<and> client_mode_valid c \<and>
     client_server_valid c \<and> client_transaction_valid c \<and> client_lease_valid c \<and>
     client_dns_valid c \<and> c_pending_present c = 0)"

lemma untimed_invD:
  assumes "untimed_inv c"
  shows "c_pending_present c = 0" "wf_client c" "client_fields_valid c" "client_mode_valid c"
    "client_server_valid c" "client_transaction_valid c" "client_lease_valid c" "client_dns_valid c"
  using assms by (simp_all add: untimed_inv_def)

lemma client_inv_untimed: "client_inv c \<Longrightarrow> c_pending_present c = 0 \<Longrightarrow> untimed_inv c"
  by (simp add: client_inv_def untimed_inv_def client_valid_def)

text \<open>What every commit keeps, and what its caller has to show.\<close>

lemma commit_state_inv:
  assumes "client_fields_valid c" and "c_pending_present c = 0" and "c_generation c \<noteq> UINT64_MAX"
    and "wf_client c" and "s = 2 \<or> s = 4 \<or> s = 8" and "c_transaction_id c \<noteq> 0"
    and "client_dns_valid c" and "c_reserved c = 1 \<longleftrightarrow> s = 8"
    and "client_server_valid (c\<lparr>c_state := s\<rparr>)" and "client_lease_valid (c\<lparr>c_state := s\<rparr>)"
  shows "client_inv (commit_state s c)"
proof -
  note d = client_information_mode_def client_startup_delayed_def client_has_lease_def
  let ?c = "commit_state s c"
  have "client_fields_valid ?c"
    using assms(1,2,5) generation_suc_nonzero [OF assms(3)]
    by (auto simp: client_fields_valid_def pending_valid_def commit_state_def)
  moreover have "client_mode_valid ?c"
    using assms(5,8) by (auto simp: client_mode_valid_def d commit_state_def)
  moreover have "client_server_valid ?c" "client_lease_valid ?c" "client_dns_valid ?c"
    using assms(7,9,10) client_server_valid_cong [of ?c "c\<lparr>c_state := s\<rparr>"]
      client_lease_valid_cong [of ?c "c\<lparr>c_state := s\<rparr>"] client_dns_valid_cong [of ?c c]
    by (simp_all add: commit_state_def)
  moreover have "client_transaction_valid ?c"
    using assms(5,6) by (auto simp: client_transaction_valid_def commit_state_def)
  moreover have "client_timer_valid ?c"
    using assms(5) by (auto simp: client_timer_valid_def client_first_send_pending_def d state_simps
        commit_state_def)
  ultimately have "client_valid ?c" by (simp add: client_valid_def)
  then show ?thesis
    using assms(2,4,5,8) by (auto simp: client_inv_def wf_client_def d commit_state_def)
qed

lemma parsed_ok_server:
  "parsed_ok p \<Longrightarrow> pm_server_seen p \<Longrightarrow> duid_valid (pm_server_duid p) (length (pm_server_duid p))"
  by (simp add: parsed_ok_def)

lemma commit_offer_inv:
  assumes "untimed_inv c" and "parsed_ok p" and "pm_server_seen p"
    and "c_state c = RIN_DHCPV6_STATE_SOLICITING"
    and "commit_offer c p = (RIN_DHCPV6_OFFER_READY, c')"
  shows "client_inv c'"
proof -
  let ?c = "(set_server_duid (pm_server_duid p) c)\<lparr>c_address := pm_address p\<rparr>"
  have c': "c' = commit_state 2 ?c" "c_generation c \<noteq> UINT64_MAX" "address_usable (pm_address p)"
    using assms(5) by (auto simp: commit_offer_def split: if_splits)
  note u = untimed_invD [OF assms(1)]
  note sv = set_server_duid_valid [OF parsed_ok_server [OF assms(2,3)], of c]
  have frame: "c_generation ?c = c_generation c" "c_pending_present ?c = 0"
      "c_transaction_id ?c = c_transaction_id c" "c_reserved ?c = c_reserved c"
      "c_server_duid ?c = c_server_duid (set_server_duid (pm_server_duid p) c)"
      "c_server_duid_size ?c = c_server_duid_size (set_server_duid (pm_server_duid p) c)"
    using u(1) by (simp_all add: set_server_duid_def)
  have fields: "client_fields_valid ?c"
    using u(1,3) by (simp add: client_fields_valid_def pending_valid_def set_server_duid_def)
  have wf: "wf_client ?c"
    using u(2) sv(3) parsed_ok_lengths(1) [OF assms(2)] by (simp add: wf_client_def set_server_duid_def)
  have tid: "c_transaction_id c \<noteq> 0" using u(6) assms(4) by (auto simp: client_transaction_valid_def)
  have mode: "c_reserved c \<noteq> 1"
    using u(4) assms(4) by (auto simp: client_mode_valid_def client_information_mode_def)
  have server: "client_server_valid (?c\<lparr>c_state := 2\<rparr>)"
    using sv c'(3) by (simp add: client_server_valid_def state_simps frame)
  have lease: "client_lease_valid (?c\<lparr>c_state := 2\<rparr>)"
    using u(7) assms(4) by (simp add: client_lease_valid_def client_has_lease_def state_simps set_server_duid_def)
  have dns: "client_dns_valid ?c"
    using u(8) client_dns_valid_cong [of ?c c] by (simp add: set_server_duid_def)
  show ?thesis
    unfolding c'(1) using fields wf frame c'(2) tid mode server lease dns
    by (intro commit_state_inv) simp_all
qed

lemma deadline_mono:
  assumes "deadline_from_seconds now a = Some x" and "deadline_from_seconds now b = Some y"
  shows "a < b \<Longrightarrow> x < y" and "a \<le> b \<Longrightarrow> x \<le> y"
  using assms by (auto simp: deadline_from_seconds_iff word_less_nat_alt word_le_nat_alt)

lemma next_lease_generation_simps [simp]:
  "c_lease_generation (next_lease_generation c) = c_next_lease_generation c"
  "c_state (next_lease_generation c) = c_state c"
  "c_reserved (next_lease_generation c) = c_reserved c"
  "c_generation (next_lease_generation c) = c_generation c"
  "c_transaction_id (next_lease_generation c) = c_transaction_id c"
  "c_pending_present (next_lease_generation c) = c_pending_present c"
  "c_server_duid (next_lease_generation c) = c_server_duid c"
  "c_server_duid_size (next_lease_generation c) = c_server_duid_size c"
  "c_address (next_lease_generation c) = c_address c"
  "c_preferred_until_ms (next_lease_generation c) = c_preferred_until_ms c"
  "c_renew_at_ms (next_lease_generation c) = c_renew_at_ms c"
  "c_rebind_at_ms (next_lease_generation c) = c_rebind_at_ms c"
  "c_expires_at_ms (next_lease_generation c) = c_expires_at_ms c"
  "c_dns_servers (next_lease_generation c) = c_dns_servers c"
  "c_dns_server_count (next_lease_generation c) = c_dns_server_count c"
  by (simp_all add: next_lease_generation_def)

lemma next_lease_generation_fields:
  "c_pending_present c = 0 \<Longrightarrow> client_fields_valid (next_lease_generation c) = client_fields_valid c"
  "wf_client (next_lease_generation c) = wf_client c"
  by (simp_all add: next_lease_generation_def client_fields_valid_def pending_valid_def wf_client_def)

lemma set_dns_servers_simps [simp]:
  "c_state (set_dns_servers d c) = c_state c"
  "c_reserved (set_dns_servers d c) = c_reserved c"
  "c_generation (set_dns_servers d c) = c_generation c"
  "c_transaction_id (set_dns_servers d c) = c_transaction_id c"
  "c_pending_present (set_dns_servers d c) = c_pending_present c"
  "c_server_duid (set_dns_servers d c) = c_server_duid c"
  "c_server_duid_size (set_dns_servers d c) = c_server_duid_size c"
  "c_address (set_dns_servers d c) = c_address c"
  "c_next_lease_generation (set_dns_servers d c) = c_next_lease_generation c"
  "c_preferred_until_ms (set_dns_servers d c) = c_preferred_until_ms c"
  "c_renew_at_ms (set_dns_servers d c) = c_renew_at_ms c"
  "c_rebind_at_ms (set_dns_servers d c) = c_rebind_at_ms c"
  "c_expires_at_ms (set_dns_servers d c) = c_expires_at_ms c"
  by (simp_all add: set_dns_servers_def)

lemma set_dns_servers_deadlines:
  "(set_dns_servers d c)\<lparr>c_preferred_until_ms := a, c_renew_at_ms := b, c_rebind_at_ms := e,
     c_expires_at_ms := x\<rparr> = set_dns_servers d (c\<lparr>c_preferred_until_ms := a, c_renew_at_ms := b,
     c_rebind_at_ms := e, c_expires_at_ms := x\<rparr>)"
  by (cases c) (simp add: set_dns_servers_def)

text \<open>A client that enters a lease state with fresh name servers, server and deadlines.\<close>

lemma commit_lease_state_inv:
  assumes "client_fields_valid c" and "c_pending_present c = 0" and "wf_client c"
    and "c_generation c \<noteq> UINT64_MAX" and "c_transaction_id c \<noteq> 0" and "parsed_ok p"
    and "c_next_lease_generation c \<noteq> 0"
    and "s = 4 \<or> s = 8" and "c_reserved c = 1 \<longleftrightarrow> s = 8"
    and "duid_valid (c_server_duid c) (unat (c_server_duid_size c))"
    and "byte_tail_zero (c_server_duid c) (unat (c_server_duid_size c)) 32"
    and "c_server_duid_size c \<noteq> 0"
    and "address_usable (c_address c) \<longleftrightarrow> s = 4"
    and "c_preferred_until_ms c \<le> c_expires_at_ms c"
    and "s = 4 \<Longrightarrow> c_renew_at_ms c < c_rebind_at_ms c \<and> c_rebind_at_ms c < c_expires_at_ms c"
    and "s = 8 \<Longrightarrow> c_renew_at_ms c < c_expires_at_ms c \<and> c_rebind_at_ms c = c_expires_at_ms c"
  shows "client_inv (commit_state s (next_lease_generation (set_dns_servers (pm_dns_servers p) c)))"
proof -
  let ?d = "set_dns_servers (pm_dns_servers p) c" and ?c = "next_lease_generation (set_dns_servers (pm_dns_servers p) c)"
  note dns = set_dns_servers_valid [OF assms(6), of c]
  have "client_fields_valid ?d"
    using assms(1,2) dns(3)
    by (simp add: client_fields_valid_def pending_valid_def) (simp add: set_dns_servers_def)
  then have fields: "client_fields_valid ?c"
    using assms(2) by (simp add: next_lease_generation_fields)
  have wf: "wf_client ?c"
    using assms(3) dns(2) unfolding next_lease_generation_fields
    by (simp add: wf_client_def) (simp add: set_dns_servers_def)
  have "client_dns_valid ?c"
    using dns(1) client_dns_valid_cong [of ?c ?d] by simp
  moreover have "client_server_valid (?c\<lparr>c_state := s\<rparr>)"
    using assms(8,10-13) by (auto simp: client_server_valid_def state_simps)
  moreover have "client_lease_valid (?c\<lparr>c_state := s\<rparr>)"
    using assms(7-9,14-16)
    by (auto simp: client_lease_valid_def client_has_lease_def client_information_mode_def state_simps)
  ultimately show ?thesis
    using fields wf assms(2,4,5,8,9) by (intro commit_state_inv) auto
qed

lemma commit_lease_inv:
  assumes "untimed_inv c" and "parsed_ok p" and "pm_server_seen p"
    and "c_state c = 3 \<or> c_state c = 5 \<or> c_state c = 6 \<or> c_state c = 10"
    and "commit_lease c p now_ms = (RIN_DHCPV6_LEASE_READY, c')"
  shows "client_inv c'"
proof -
  note u = untimed_invD [OF assms(1)]
  obtain t1 t2 renew rebind preferred expires where
    l: "lifetimes_normalize (pm_valid_seconds p) (pm_preferred_seconds p) (pm_t1_seconds p)
      (pm_t2_seconds p) = Some (t1, t2)"
    and dl: "deadline_from_seconds now_ms t1 = Some renew" "deadline_from_seconds now_ms t2 = Some rebind"
      "deadline_from_seconds now_ms (pm_preferred_seconds p) = Some preferred"
      "deadline_from_seconds now_ms (pm_valid_seconds p) = Some expires"
    and g: "c_next_lease_generation c \<noteq> 0" "c_generation c \<noteq> UINT64_MAX"
    and a: "address_usable (pm_address p)"
    and c': "c' = (let b = (if c_state c = 6 \<or> c_state c = 10
                                then set_server_duid (pm_server_duid p) c else c) in
        commit_state 4 (next_lease_generation ((set_dns_servers (pm_dns_servers p)
          (b\<lparr>c_address := pm_address p\<rparr>))\<lparr>c_preferred_until_ms := preferred, c_renew_at_ms := renew,
              c_rebind_at_ms := rebind, c_expires_at_ms := expires\<rparr>)))"
    using assms(5) by (auto simp: commit_lease_def Let_def split: if_splits option.splits prod.splits)
  define b where "b = ((if c_state c = 6 \<or> c_state c = 10 then set_server_duid (pm_server_duid p) c
    else c)\<lparr>c_address := pm_address p, c_preferred_until_ms := preferred, c_renew_at_ms := renew,
              c_rebind_at_ms := rebind, c_expires_at_ms := expires\<rparr>)"
  have c'_b: "c' = commit_state 4 (next_lease_generation (set_dns_servers (pm_dns_servers p) b))"
    by (simp add: c' b_def Let_def set_dns_servers_deadlines)
  note sv = set_server_duid_valid [OF parsed_ok_server [OF assms(2,3)], of c]
  note lt = lifetimes_normalize_ok [OF l]
  have times: "preferred \<le> expires" "renew < rebind" "rebind < expires"
    using deadline_mono(2) [OF dl(3,4) lt(4)] deadline_mono(1) [OF dl(1,2) lt(2)]
      deadline_mono(1) [OF dl(2,4) lt(3)] by auto
  have "client_fields_valid b"
    using u(1,3) by (simp add: client_fields_valid_def pending_valid_def b_def set_server_duid_def)
  moreover have "wf_client b"
    using u(2) sv(3) parsed_ok_lengths(1) [OF assms(2)]
    by (simp add: wf_client_def b_def) (simp add: set_server_duid_def)
  moreover have "c_transaction_id c \<noteq> 0" "c_reserved c \<noteq> 1"
    using u(4,6) assms(4)
    by (auto simp: client_transaction_valid_def client_mode_valid_def client_information_mode_def)
  moreover have "duid_valid (c_server_duid b) (unat (c_server_duid_size b)) \<and>
      byte_tail_zero (c_server_duid b) (unat (c_server_duid_size b)) 32 \<and> c_server_duid_size b \<noteq> 0"
    using u(5) sv assms(4) by (auto simp: client_server_valid_def state_simps b_def)
  moreover have "c_pending_present b = 0" "c_generation b = c_generation c"
      "c_transaction_id b = c_transaction_id c" "c_next_lease_generation b = c_next_lease_generation c"
      "c_reserved b = c_reserved c"
    using u(1) by (simp_all add: b_def set_server_duid_def)
  moreover have "c_address b = pm_address p" "c_preferred_until_ms b = preferred"
      "c_renew_at_ms b = renew" "c_rebind_at_ms b = rebind" "c_expires_at_ms b = expires"
    by (simp_all add: b_def)
  ultimately show ?thesis
    unfolding c'_b using times a g assms(2) by (intro commit_lease_state_inv) auto
qed

lemma commit_information_inv:
  assumes "untimed_inv c" and "parsed_ok p" and "pm_server_seen p"
    and "c_state c = RIN_DHCPV6_STATE_INFORMATION_REQUESTING"
    and "commit_information c p now_ms = (RIN_DHCPV6_LEASE_READY, c')"
  shows "client_inv c'"
proof -
  note u = untimed_invD [OF assms(1)]
  define r where "r = information_refresh_normalize
    (if pm_information_refresh_seen p then pm_information_refresh_seconds p else 0)"
  obtain refresh expires where
    dl: "deadline_from_seconds now_ms r = Some refresh" "deadline_from_seconds now_ms (r * 2) = Some expires"
    and g: "c_next_lease_generation c \<noteq> 0" "c_generation c \<noteq> UINT64_MAX"
    and mode: "c_reserved c = 1"
    and c': "c' = commit_state 8 (next_lease_generation ((set_dns_servers (pm_dns_servers p)
          ((set_server_duid (pm_server_duid p) c)\<lparr>c_address := zero_bytes 16\<rparr>))\<lparr>
            c_preferred_until_ms := expires, c_renew_at_ms := refresh,
            c_rebind_at_ms := expires, c_expires_at_ms := expires\<rparr>))"
    using assms(5) unfolding commit_information_def r_def
    by (auto simp: Let_def client_information_mode_def split: if_splits option.splits)
  define b where "b = (set_server_duid (pm_server_duid p) c)\<lparr>c_address := zero_bytes 16,
            c_preferred_until_ms := expires, c_renew_at_ms := refresh,
            c_rebind_at_ms := expires, c_expires_at_ms := expires\<rparr>"
  have c'_b: "c' = commit_state 8 (next_lease_generation (set_dns_servers (pm_dns_servers p) b))"
    by (simp add: c' b_def set_dns_servers_deadlines)
  note sv = set_server_duid_valid [OF parsed_ok_server [OF assms(2,3)], of c]
  have "600 \<le> unat r" "unat r \<le> 86400"
    using information_refresh_bounds by (simp_all add: r_def word_le_nat_alt)
  then have "r < r * 2" by (simp add: word_less_nat_alt unat_mult_lem [THEN iffD1])
  then have times: "refresh < expires" by (rule deadline_mono(1) [OF dl])
  have "client_fields_valid b"
    using u(1,3) by (simp add: client_fields_valid_def pending_valid_def b_def set_server_duid_def)
  moreover have "wf_client b"
    using u(2) sv(3) by (simp add: wf_client_def b_def) (simp add: set_server_duid_def)
  moreover have "c_transaction_id c \<noteq> 0"
    using u(6) assms(4) by (auto simp: client_transaction_valid_def)
  moreover have "duid_valid (c_server_duid b) (unat (c_server_duid_size b)) \<and>
      byte_tail_zero (c_server_duid b) (unat (c_server_duid_size b)) 32 \<and> c_server_duid_size b \<noteq> 0"
    using sv by (simp add: b_def)
  moreover have "c_pending_present b = 0" "c_generation b = c_generation c"
      "c_transaction_id b = c_transaction_id c" "c_next_lease_generation b = c_next_lease_generation c"
      "c_reserved b = c_reserved c"
    using u(1) by (simp_all add: b_def set_server_duid_def)
  moreover have "\<not> address_usable (c_address b)" "c_preferred_until_ms b = expires"
      "c_renew_at_ms b = refresh" "c_rebind_at_ms b = expires" "c_expires_at_ms b = expires"
    by (simp_all add: b_def)
  ultimately show ?thesis
    unfolding c'_b using times mode g assms(2) by (intro commit_lease_state_inv) auto
qed

lemma commit_reconfigure_information_inv:
  assumes "untimed_inv c" and "parsed_ok p"
    and "c_state c = RIN_DHCPV6_STATE_RECONFIGURE_INFORMATION_REQUESTING"
    and "commit_reconfigure_information c p = (RIN_DHCPV6_LEASE_READY, c')"
  shows "client_inv c'"
proof -
  note u = untimed_invD [OF assms(1)]
  have g: "c_next_lease_generation c \<noteq> 0" "c_generation c \<noteq> UINT64_MAX" "c_reserved c \<noteq> 1"
    and c': "c' = commit_state 4 (next_lease_generation (set_dns_servers (pm_dns_servers p) c))"
    using assms(4)
    by (auto simp: commit_reconfigure_information_def client_information_mode_def split: if_splits)
  have tid: "c_transaction_id c \<noteq> 0" using u(6) assms(3) by (auto simp: client_transaction_valid_def)
  have server: "duid_valid (c_server_duid c) (unat (c_server_duid_size c)) \<and>
      byte_tail_zero (c_server_duid c) (unat (c_server_duid_size c)) 32 \<and>
      c_server_duid_size c \<noteq> 0 \<and> address_usable (c_address c)"
    using u(5) assms(3) by (simp add: client_server_valid_def state_simps)
  have "c_preferred_until_ms c \<le> c_expires_at_ms c" "c_renew_at_ms c < c_rebind_at_ms c"
      "c_rebind_at_ms c < c_expires_at_ms c"
    using u(7) assms(3) g(3)
    by (auto simp: client_lease_valid_def client_has_lease_def client_information_mode_def state_simps)
  with server tid g u(1-3) assms(2) show ?thesis
    unfolding c' by (intro commit_lease_state_inv) auto
qed

section \<open>Limits from the server\<close>

text \<open>A running timeout above eleven tenths of the limit that the client keeps.\<close>

definition retry_above_limit :: "dhcpv6_client \<Rightarrow> bool" where
  "retry_above_limit c =
     (c_offer_t1_seconds c \<noteq> DHCPV6_RETRANSMISSION_NOT_STARTED \<and>
      (let kind = retransmission_kind_for_state (c_state c);
           maximum_rt = retransmission_mrt_ms c kind
       in c_retry_ms c > maximum_rt + maximum_rt div 10))"

lemma max_rt_override_valid:
  "60 \<le> r \<Longrightarrow> r \<le> 86400 \<Longrightarrow> 60 \<le> max_rt_override seen s r \<and> max_rt_override seen s r \<le> 86400"
  by (auto simp: max_rt_override_def)

lemma limits_inv:
  assumes "client_inv c" and "c_pending_present c = 0" and "c_generation c \<noteq> UINT64_MAX"
    and "c_last_now_ms c \<le> now_ms" and "client_state_retransmits (c_state c)"
    and "60 \<le> sol_rt" "sol_rt \<le> 86400" "60 \<le> inf_rt" "inf_rt \<le> 86400"
  defines "c' \<equiv> c\<lparr>c_generation := c_generation c + 1, c_offer_preferred_seconds := sol_rt,
    c_offer_valid_seconds := inf_rt, c_last_now_ms := now_ms\<rparr>"
  shows "untimed_inv c'" and "\<not> retry_above_limit c' \<Longrightarrow> client_inv c'"
proof -
  note v = client_invD [OF assms(1)]
  note vs = client_validD [OF v(2)]
  have fields: "client_fields_valid c'"
    using vs(1) assms(2,6-9) generation_suc_nonzero [OF assms(3)]
    by (simp add: client_fields_valid_def pending_valid_def c'_def not_less)
  have rest: "client_mode_valid c'" "client_server_valid c'" "client_transaction_valid c'"
      "client_lease_valid c'" "client_dns_valid c'"
    using vs client_mode_valid_cong [of c' c] client_server_valid_cong [of c' c]
      client_transaction_valid_cong [of c' c] client_lease_valid_cong [of c' c]
      client_dns_valid_cong [of c' c]
    by (simp_all add: c'_def)
  have wf: "wf_client c'" using v(1) by (simp add: c'_def wf_client_def)
  show "untimed_inv c'"
    using fields rest wf assms(2) by (simp add: untimed_inv_def) (simp add: c'_def)
  have not_idle: "c_state c \<noteq> 0" using assms(5) by (auto simp: client_state_retransmits_def)
  show "client_inv c'" if "\<not> retry_above_limit c'"
  proof -
    have "client_timer_valid c'"
      using vs(7) assms(5) that not_idle
      by (simp add: client_timer_valid_def client_first_send_pending_def client_startup_delayed_def
          Let_def retry_above_limit_def)
        (auto simp: c'_def Let_def split: if_splits)
    then have "client_valid c'" using fields rest by (simp add: client_valid_def)
    then show ?thesis
      using wf v(3,4) not_idle assms(2,4)
      by (auto simp: client_inv_def c'_def client_information_mode_def client_startup_delayed_def)
  qed
qed

lemma overrides_cases:
  assumes "client_inv c" and "c_pending_present c = 0" and "c_last_now_ms c \<le> now_ms"
    and "client_state_retransmits (c_state c)"
    and "apply_retransmission_overrides c p now_ms = (status, c')"
  shows "untimed_inv c'" and "c_state c' = c_state c" and "c_last_now_ms c' \<le> now_ms"
    and "status = RIN_DHCPV6_OK \<or> status = RIN_DHCPV6_RANGE_EXHAUSTED \<and> c' = c"
    and "client_inv c' \<or> retry_above_limit c'"
proof -
  let ?sol = "max_rt_override (pm_sol_max_rt_seen p) (pm_sol_max_rt_seconds p) (c_offer_preferred_seconds c)"
  let ?inf = "max_rt_override (pm_inf_max_rt_seen p) (pm_inf_max_rt_seconds p) (c_offer_valid_seconds c)"
  have lim: "60 \<le> ?sol" "?sol \<le> 86400" "60 \<le> ?inf" "?inf \<le> 86400"
    using client_fields_max_rt [OF client_validD(1) [OF client_invD(2) [OF assms(1)]]]
      max_rt_override_valid by (auto simp: max_rt_valid_def not_less)
  have "c' = c \<and> (status = RIN_DHCPV6_OK \<or> status = RIN_DHCPV6_RANGE_EXHAUSTED) \<or>
    c_generation c \<noteq> UINT64_MAX \<and> status = RIN_DHCPV6_OK \<and>
    c' = c\<lparr>c_generation := c_generation c + 1, c_offer_preferred_seconds := ?sol,
      c_offer_valid_seconds := ?inf, c_last_now_ms := now_ms\<rparr>"
    using assms(5)
    by (simp add: apply_retransmission_overrides_def Let_def advance_generation_def split: if_splits)
  then show "untimed_inv c'" and "c_state c' = c_state c" and "c_last_now_ms c' \<le> now_ms"
    and "status = RIN_DHCPV6_OK \<or> status = RIN_DHCPV6_RANGE_EXHAUSTED \<and> c' = c"
    and "client_inv c' \<or> retry_above_limit c'"
    using assms(1-4) limits_inv [OF assms(1,2) _ assms(3,4) lim] client_inv_untimed [OF assms(1,2)]
    by auto
qed

section \<open>Receiving\<close>

lemma parse_message_status:
  "parse_message message type require_ia = (st, p) \<Longrightarrow>
     st = RIN_DHCPV6_OK \<or> st = RIN_DHCPV6_SERVER_REJECTED \<or> st = RIN_DHCPV6_MALFORMED_PACKET"
  by (auto simp: parse_message_def Let_def dest: message_walk.counted_walk_error
      split: if_splits sum.splits prod.splits)

lemma commit_clock [simp]:
  "c_last_now_ms (commit_state s c) = c_last_now_ms c"
  "c_last_now_ms (next_lease_generation c) = c_last_now_ms c"
  "c_last_now_ms (set_dns_servers d c) = c_last_now_ms c"
  "c_last_now_ms (set_server_duid d' c) = c_last_now_ms c"
  by (simp_all add: commit_state_def next_lease_generation_def set_dns_servers_def set_server_duid_def)

lemma commit_results:
  "commit_offer c p = (st, c') \<Longrightarrow>
     c_last_now_ms c' = c_last_now_ms c \<and> (st = RIN_DHCPV6_OFFER_READY \<or> st < 0 \<and> c' = c)"
  "commit_lease c p now_ms = (st, c') \<Longrightarrow>
     c_last_now_ms c' = c_last_now_ms c \<and> (st = RIN_DHCPV6_LEASE_READY \<or> st < 0 \<and> c' = c)"
  "commit_information c p now_ms = (st, c') \<Longrightarrow>
     c_last_now_ms c' = c_last_now_ms c \<and> (st = RIN_DHCPV6_LEASE_READY \<or> st < 0 \<and> c' = c)"
  "commit_reconfigure_information c p = (st, c') \<Longrightarrow>
     c_last_now_ms c' = c_last_now_ms c \<and> (st = RIN_DHCPV6_LEASE_READY \<or> st < 0 \<and> c' = c)"
  by (auto simp: commit_offer_def commit_lease_def commit_information_def
      commit_reconfigure_information_def Let_def split: if_splits option.splits prod.splits)

text \<open>A commit that succeeds restores the whole invariant; one that fails changes nothing.\<close>

lemma receive_commit_cases:
  assumes "untimed_inv c" and "parsed_ok p" and "pm_server_seen p"
    and "receive_expected_type (c_state c) = Some type"
    and "c_last_now_ms c \<le> now_ms"
    and "receive_commit c type p now_ms = (st, c')"
  shows "st > 0 \<and> client_inv c' \<or> st < 0 \<and> c' = c"
proof -
  define r where "r = (if type = DHCPV6_MESSAGE_ADVERTISE then commit_offer c p
            else if c_state c = RIN_DHCPV6_STATE_INFORMATION_REQUESTING
            then commit_information c p now_ms
            else if c_state c = RIN_DHCPV6_STATE_RECONFIGURE_INFORMATION_REQUESTING
            then commit_reconfigure_information c p
            else commit_lease c p now_ms)"
  obtain d where d: "r = (st, d)" and c': "c' = (if st > 0 then d\<lparr>c_last_now_ms := now_ms\<rparr> else d)"
    using assms(6) by (auto simp: receive_commit_def r_def split: prod.splits)
  have "client_inv d \<and> c_last_now_ms d = c_last_now_ms c \<and> st > 0 \<or> st < 0 \<and> d = c"
  proof -
    consider "c_state c = 1" "type = 2" | "c_state c = 7" "type = 7" | "c_state c = 9" "type = 7"
      | "c_state c = 3 \<or> c_state c = 5 \<or> c_state c = 6 \<or> c_state c = 10" "type = 7"
      using assms(4) by (auto simp: receive_expected_type_def split: if_splits)
    then show ?thesis
    proof cases
      case 1
      then show ?thesis
        using d commit_results(1) [of c p st d] commit_offer_inv [OF assms(1-3), of d]
        by (auto simp: r_def)
    next
      case 2
      then show ?thesis
        using d commit_results(3) [of c p now_ms st d] commit_information_inv [OF assms(1-3), of now_ms d]
        by (auto simp: r_def)
    next
      case 3
      then show ?thesis
        using d commit_results(4) [of c p st d] commit_reconfigure_information_inv [OF assms(1,2), of d]
        by (auto simp: r_def)
    next
      case 4
      then show ?thesis
        using d commit_results(2) [of c p now_ms st d] commit_lease_inv [OF assms(1-3), of now_ms d]
        by (auto simp: r_def)
    qed
  qed
  then show ?thesis using c' client_inv_last_now [of d now_ms] assms(5) by auto
qed

text \<open>
  Receiving keeps the invariant, or it fails and leaves a timeout above a limit that the message
  has lowered.
\<close>

lemma receive_parsed_cases:
  assumes "client_inv c" and "c_pending_present c = 0" and "c_last_now_ms c \<le> now_ms"
    and "receive_expected_type (c_state c) = Some type"
    and "st = RIN_DHCPV6_OK \<or> st = RIN_DHCPV6_SERVER_REJECTED \<Longrightarrow> parsed_ok p \<and> pm_server_seen p"
    and "st \<le> 0"
    and "receive_parsed c type st p now_ms = (status, c')"
  shows "client_inv c' \<or> status < 0 \<and> retry_above_limit c'"
proof (cases "st = RIN_DHCPV6_OK \<or> st = RIN_DHCPV6_SERVER_REJECTED")
  case False
  then show ?thesis using assms(1,7) by (auto simp: receive_parsed_def)
next
  case True
  have rt: "client_state_retransmits (c_state c)"
    using assms(4) by (auto simp: receive_expected_type_def client_state_retransmits_def split: if_splits)
  obtain ost d where o: "apply_retransmission_overrides c p now_ms = (ost, d)" by fastforce
  note od = overrides_cases [OF assms(1-3) rt o]
  have commit: "client_inv e \<or> s < 0 \<and> retry_above_limit e"
    if "receive_commit d type p now_ms = (s, e)" for s e
    using receive_commit_cases [OF od(1) _ _ _ od(3) that] assms(4,5) True od(2,5) by auto
  have now: "client_inv (d\<lparr>c_last_now_ms := now_ms\<rparr>) \<or> retry_above_limit (d\<lparr>c_last_now_ms := now_ms\<rparr>)"
    using od(3,5) client_inv_last_now [of d now_ms]
    by (auto simp: retry_above_limit_def Let_def retransmission_mrt_ms_def)
  show ?thesis
    using True o od(4,5) assms(1,7) commit now
    by (auto simp: receive_parsed_def Let_def split: if_splits)
qed

lemma client_receive_cases:
  assumes "client_inv c" and "client_receive c message now_ms = (status, c')"
  shows "client_inv c' \<or> status < 0 \<and> retry_above_limit c'"
proof (cases "client_valid c \<and> 4 \<le> length message \<and> length message \<le> 512 \<and>
    c_last_now_ms c \<le> now_ms \<and> c_pending_present c = 0")
  case False
  then show ?thesis using assms by (auto simp: client_receive_def split: if_splits)
next
  case True
  show ?thesis
  proof (cases "receive_expected_type (c_state c)")
    case None
    with True assms show ?thesis by (auto simp: client_receive_def split: if_splits)
  next
    case (Some type)
    obtain st p where p: "parse_message message type (receive_requires_ia (c_state c)) = (st, p)" by fastforce
    have ok: "st = RIN_DHCPV6_OK \<or> st = RIN_DHCPV6_SERVER_REJECTED \<Longrightarrow> parsed_ok p \<and> pm_server_seen p"
      using parse_message_ok(1) [OF p] by blast
    have "st \<le> 0" using parse_message_status [OF p] by auto
    show ?thesis
      using True assms Some p receive_parsed_cases [OF assms(1) _ _ Some ok \<open>st \<le> 0\<close>]
      by (auto simp: client_receive_def split: if_splits)
  qed
qed

end
