(* ===== verification/Rin_Machines.thy ===== *)
theory Rin_Machines
  imports Main
begin

text \<open>
  Components as machines: an operation takes the state to a new state, a run is a list of
  operations. The locales are the contracts the components are checked against: an invariant that
  every admissible operation keeps, and a counter that no operation lowers.
\<close>

fun run_ops :: "('op \<Rightarrow> 's \<Rightarrow> 's) \<Rightarrow> 'op list \<Rightarrow> 's \<Rightarrow> 's" where
  "run_ops step [] s = s"
| "run_ops step (op # ops) s = run_ops step ops (step op s)"

text \<open>Every operation of the run is admissible in the state it meets.\<close>

fun admissible_run :: "('op \<Rightarrow> 's \<Rightarrow> 's) \<Rightarrow> ('op \<Rightarrow> 's \<Rightarrow> bool) \<Rightarrow> 'op list \<Rightarrow> 's \<Rightarrow> bool" where
  "admissible_run step admissible [] s = True"
| "admissible_run step admissible (op # ops) s =
     (admissible op s \<and> admissible_run step admissible ops (step op s))"

lemma run_ops_append: "run_ops step (xs @ ys) s = run_ops step ys (run_ops step xs s)"
  by (induction xs arbitrary: s) simp_all

locale machine =
  fixes step :: "'op \<Rightarrow> 's \<Rightarrow> 's"

locale invariant_machine = machine step for step :: "'op \<Rightarrow> 's \<Rightarrow> 's" +
  fixes admissible :: "'op \<Rightarrow> 's \<Rightarrow> bool" and inv :: "'s \<Rightarrow> bool"
  assumes step_inv: "inv s \<Longrightarrow> admissible op s \<Longrightarrow> inv (step op s)"
begin

lemma run_inv: "inv s \<Longrightarrow> admissible_run step admissible ops s \<Longrightarrow> inv (run_ops step ops s)"
  by (induction ops arbitrary: s) (simp_all add: step_inv)

end

locale counting_machine = machine step for step :: "'op \<Rightarrow> 's \<Rightarrow> 's" +
  fixes count :: "'s \<Rightarrow> nat"
  assumes step_count: "count s \<le> count (step op s)"
begin

lemma run_count: "count s \<le> count (run_ops step ops s)"
proof (induction ops arbitrary: s)
  case (Cons op ops)
  show ?case using step_count [of s op] Cons.IH [of "step op s"] by simp
qed simp

lemma run_count_between:
  "count (run_ops step xs s) \<le> count (run_ops step (xs @ ys) s)"
  by (simp add: run_ops_append run_count)

end

end
