(* ===== verification/Dhcpv6_Client_Run.thy ===== *)
theory Dhcpv6_Client_Run
  imports Dhcpv6_Client_Receive Rin_Machines
begin

text \<open>
  The version 1 client as a machine: its operations as a datatype, runs of them, and what holds
  along every run. The two operations that can break the validity check are named by
  \<open>client_defect\<close>; without them the invariant holds in every reachable state.
\<close>

section \<open>Operations\<close>

datatype client_op =
    SetMode u32
  | RequestReconfigure u32 u64
  | Prepare u32 u64
  | CompleteTransmit dhcpv6_transmit int
  | Receive bytes u64
  | GetLease u64
  | Stop

fun client_exec :: "client_op \<Rightarrow> dhcpv6_client \<Rightarrow> int \<times> dhcpv6_client" where
  "client_exec (SetMode mode) c = client_set_mode c mode"
| "client_exec (RequestReconfigure kind now_ms) c = client_request_reconfigure c kind now_ms"
| "client_exec (Prepare new_id now_ms) c =
     (case client_prepare c new_id now_ms of (status, c', _) \<Rightarrow> (status, c'))"
| "client_exec (CompleteTransmit transmit sent) c = client_complete_transmit c transmit sent"
| "client_exec (Receive message now_ms) c = client_receive c message now_ms"
| "client_exec (GetLease now_ms) c =
     (case client_get_lease c now_ms of (status, c', _) \<Rightarrow> (status, c'))"
| "client_exec Stop c = client_stop c"

abbreviation (input) client_next :: "client_op \<Rightarrow> dhcpv6_client \<Rightarrow> dhcpv6_client" where
  "client_next op c \<equiv> snd (client_exec op c)"

fun client_defect :: "client_op \<Rightarrow> dhcpv6_client \<Rightarrow> bool" where
  "client_defect (RequestReconfigure kind now_ms) c = renew_after_rebind c kind now_ms"
| "client_defect (Receive message now_ms) c =
     (fst (client_receive c message now_ms) < 0 \<and>
      retry_above_limit (snd (client_receive c message now_ms)))"
| "client_defect _ c = False"

lemma client_exec_snd [simp]:
  "snd (client_exec (Prepare new_id now_ms) c) = fst (snd (client_prepare c new_id now_ms))"
  "snd (client_exec (GetLease now_ms) c) = fst (snd (client_get_lease c now_ms))"
  by (simp_all split: prod.splits)

lemma client_exec_inv:
  assumes "client_inv c" and "\<not> client_defect op c"
  shows "client_inv (client_next op c)"
proof (cases op)
  case (Receive message now_ms)
  then show ?thesis
    using assms client_receive_cases [OF assms(1), of message now_ms "fst (client_receive c message now_ms)"
        "snd (client_receive c message now_ms)"] by auto
qed (use assms in \<open>simp_all add: client_set_mode_inv client_request_reconfigure_inv client_prepare_inv
    client_complete_transmit_inv client_get_lease_inv client_stop_inv del: client_exec.simps(3,6)\<close>)

interpretation client_invariant: invariant_machine client_next "\<lambda>op c. \<not> client_defect op c" client_inv
  by unfold_locales (rule client_exec_inv)

section \<open>Counters that never go back\<close>

text \<open>An operation that fails its checks leaves the client alone.\<close>

lemma clear_frames [simp]:
  "c_last_now_ms (clear_dynamic c) = c_last_now_ms c" "c_generation (clear_dynamic c) = c_generation c"
  "c_next_lease_generation (clear_dynamic c) = c_next_lease_generation c"
  "c_last_now_ms (clear_pending c) = c_last_now_ms c" "c_generation (clear_pending c) = c_generation c"
  "c_next_lease_generation (clear_pending c) = c_next_lease_generation c"
  by (simp_all add: clear_dynamic_def clear_pending_def)

lemma schedule_frames [simp]:
  "c_last_now_ms (schedule_initial_retry c k t s n p) = c_last_now_ms c"
  "c_generation (schedule_initial_retry c k t s n p) = c_generation c"
  "c_next_lease_generation (schedule_initial_retry c k t s n p) = c_next_lease_generation c"
  "c_last_now_ms (schedule_later_retry c k t s n p) = c_last_now_ms c"
  "c_generation (schedule_later_retry c k t s n p) = c_generation c"
  "c_next_lease_generation (schedule_later_retry c k t s n p) = c_next_lease_generation c"
  by (simp_all add: schedule_initial_retry_def schedule_later_retry_def Let_def)

lemma generation_suc:
  assumes "g \<noteq> UINT64_MAX"
  shows "unat (g + 1 :: u64) = unat g + 1"
proof -
  have "g < UINT64_MAX" using assms by (simp add: u64_less_max)
  then have "unat g < 18446744073709551615" by (simp add: word_less_nat_alt)
  then show ?thesis by (simp add: unat_add_lem [THEN iffD1])
qed

text \<open>The order of two clients in all their counters.\<close>

definition lease_rank :: "dhcpv6_client \<Rightarrow> nat" where
  "lease_rank c = (if c_next_lease_generation c = 0 then 2 ^ 64 else unat (c_next_lease_generation c))"

definition client_le :: "dhcpv6_client \<Rightarrow> dhcpv6_client \<Rightarrow> bool" where
  "client_le c d = (c_last_now_ms c \<le> c_last_now_ms d \<and> unat (c_generation c) \<le> unat (c_generation d) \<and>
     lease_rank c \<le> lease_rank d)"

lemma client_le_refl [simp]: "client_le c c"
  by (simp add: client_le_def)

lemma client_le_trans: "client_le c d \<Longrightarrow> client_le d e \<Longrightarrow> client_le c e"
  unfolding client_le_def by (meson order_trans)

lemma client_leI:
  assumes "c_last_now_ms c \<le> c_last_now_ms d"
    and "c_generation d = c_generation c \<or> c_generation c \<noteq> UINT64_MAX \<and> c_generation d = c_generation c + 1"
    and "c_next_lease_generation d = c_next_lease_generation c"
  shows "client_le c d"
  using assms generation_suc by (auto simp: client_le_def lease_rank_def)

lemma expire_lease_le:
  "c_last_now_ms c \<le> n \<Longrightarrow> client_le c (snd (expire_lease (c\<lparr>c_last_now_ms := n\<rparr>)))"
  by (intro client_leI) (simp_all add: expire_lease_cases)

lemma prepare_message_le:
  "c_last_now_ms c \<le> now_ms \<Longrightarrow> client_le c (fst (snd (prepare_message c kind tid now_ms)))"
  by (intro client_leI) (simp_all add: prepare_message_def Let_def split: sum.splits)

lemma client_prepare_le: "client_le c (fst (snd (client_prepare c new_id now_ms)))"
proof (cases "c_last_now_ms c \<le> now_ms")
  case True
  have startup: "client_le c (fst (snd (prepare_startup c kind tid now_ms)))"
    if "c_generation c < UINT64_MAX - 1" for kind tid
  proof -
    let ?c = "c\<lparr>c_transaction_id := tid, c_offer_t1_seconds := DHCPV6_RETRANSMISSION_NOT_STARTED\<rparr>"
    let ?d = "\<lambda>n. ?c\<lparr>c_next_transmit_ms := n, c_generation := c_generation c + 1\<rparr>"
    have g: "c_generation c \<noteq> UINT64_MAX" using that by auto
    have d: "client_le c (?d n)" for n using g by (intro client_leI) simp_all
    have "client_le (?d n) (fst (snd (prepare_message (?d n) kind tid now_ms)))" for n
      using True by (intro prepare_message_le) simp
    note m = client_le_trans [OF d this]
    have "client_le c ((?d n)\<lparr>c_last_now_ms := now_ms\<rparr>)" for n
      using g True by (intro client_leI) simp_all
    with m show ?thesis by (simp add: prepare_startup_def Let_def)
  qed
  have now: "client_le c (c\<lparr>c_last_now_ms := now_ms\<rparr>)"
    using True by (intro client_leI) simp_all
  have "client_le c (fst (snd (prepare_transaction c kind fresh new_id now_ms)))" for kind fresh
    using startup prepare_message_le [OF True] now
    by (simp add: prepare_transaction_def Let_def not_le)
  then show ?thesis
    using expire_lease_le [OF True]
    by (cases "expire_lease (c\<lparr>c_last_now_ms := now_ms\<rparr>)")
      (simp add: client_prepare_def split: option.split prod.split)
next
  case False
  then show ?thesis by (simp add: client_prepare_def time_valid_def)
qed

lemma client_complete_transmit_le: "client_le c (snd (client_complete_transmit c transmit sent))"
proof -
  have "client_le c (clear_pending c)" by (rule client_leI) simp_all
  moreover have "client_le c (complete_retransmission (c\<lparr>c_state := s, c_transaction_id := t\<rparr>) x t p)" for s t x p
    by (rule client_leI) (simp_all add: complete_retransmission_def Let_def advance_generation_def)
  moreover have "client_le c (c\<lparr>c_state := s\<rparr>)" for s by (rule client_leI) simp_all
  moreover have "client_le c (clear_pending (schedule_initial_retry
      (c\<lparr>c_state := s, c_generation := c_generation c + 1, c_transaction_id := t\<rparr>) k t x y p))"
    if "c_generation c \<noteq> UINT64_MAX" for s t k x y p
    using that by (intro client_leI) simp_all
  ultimately show ?thesis
    by (simp add: client_complete_transmit_def Let_def advance_generation_def
        split: option.split prod.split)
qed

lemma client_request_reconfigure_le: "client_le c (snd (client_request_reconfigure c kind now_ms))"
proof (cases "c_last_now_ms c \<le> now_ms \<and> c_generation c < UINT64_MAX - 3")
  case True
  then have "c_generation c \<noteq> UINT64_MAX" by auto
  with True expire_lease_le [of c now_ms] show ?thesis
    by (auto simp: client_request_reconfigure_def Let_def intro!: client_leI)
next
  case False
  then show ?thesis by (auto simp: client_request_reconfigure_def not_le)
qed

lemma lease_rank_next:
  assumes "c_next_lease_generation c \<noteq> 0"
  shows "lease_rank (next_lease_generation c) = lease_rank c + 1"
proof (cases "c_next_lease_generation c = UINT64_MAX")
  case True
  then show ?thesis by (simp add: lease_rank_def next_lease_generation_def)
next
  case False
  with assms show ?thesis
    using generation_suc [OF False] generation_suc_nonzero [OF False]
    by (simp add: lease_rank_def next_lease_generation_def)
qed

lemma commit_frames [simp]:
  "c_generation (commit_state s c) = c_generation c + 1"
  "c_next_lease_generation (commit_state s c) = c_next_lease_generation c"
  "c_generation (set_server_duid d c) = c_generation c"
  "c_next_lease_generation (set_server_duid d c) = c_next_lease_generation c"
  by (simp_all add: commit_state_def set_server_duid_def)

lemma client_le_lease:
  assumes "c_last_now_ms d = c_last_now_ms c" and "c_generation d = c_generation c"
    and "c_next_lease_generation d = c_next_lease_generation c"
    and "c_generation c \<noteq> UINT64_MAX" and "c_next_lease_generation c \<noteq> 0"
  shows "client_le c (commit_state s (next_lease_generation d))"
    and "lease_rank (commit_state s (next_lease_generation d)) = lease_rank c + 1"
proof -
  have "lease_rank (commit_state s e) = lease_rank e" for e by (simp add: lease_rank_def)
  moreover have "lease_rank d = lease_rank c" using assms(3) by (simp add: lease_rank_def)
  ultimately show r: "lease_rank (commit_state s (next_lease_generation d)) = lease_rank c + 1"
    using lease_rank_next [of d] assms(3,5) by simp
  show "client_le c (commit_state s (next_lease_generation d))"
    using assms(1,2,4) generation_suc r by (simp add: client_le_def)
qed

text \<open>A new lease takes the next lease generation, and a generation is taken once.\<close>

definition takes_generation :: "int \<Rightarrow> dhcpv6_client \<Rightarrow> dhcpv6_client \<Rightarrow> bool" where
  "takes_generation st c d =
     (client_le c d \<and> (if st = RIN_DHCPV6_LEASE_READY
      then c_next_lease_generation c \<noteq> 0 \<and> c_lease_generation d = c_next_lease_generation c \<and>
        lease_rank d = lease_rank c + 1
      else lease_rank d = lease_rank c))"

lemma takes_generation_commit:
  assumes "c_last_now_ms d = c_last_now_ms c" and "c_generation d = c_generation c"
    and "c_next_lease_generation d = c_next_lease_generation c"
    and "c_generation c \<noteq> UINT64_MAX" and "c_next_lease_generation c \<noteq> 0"
  shows "takes_generation RIN_DHCPV6_LEASE_READY c (commit_state s (next_lease_generation d))"
  using client_le_lease [OF assms] assms(3,5)
  by (simp add: takes_generation_def) (simp add: commit_state_def)

lemma takes_generation_same [simp]: "st \<noteq> RIN_DHCPV6_LEASE_READY \<Longrightarrow> takes_generation st c c"
  by (simp add: takes_generation_def)

lemma commit_takes_generation:
  "takes_generation (fst (commit_offer c p)) c (snd (commit_offer c p))"
  "takes_generation (fst (commit_lease c p now_ms)) c (snd (commit_lease c p now_ms))"
  "takes_generation (fst (commit_information c p now_ms)) c (snd (commit_information c p now_ms))"
  "takes_generation (fst (commit_reconfigure_information c p)) c (snd (commit_reconfigure_information c p))"
proof -
  show "takes_generation (fst (commit_offer c p)) c (snd (commit_offer c p))"
  proof (cases "fst (commit_offer c p) < 0")
    case False
    then have "c_generation c \<noteq> UINT64_MAX" "commit_offer c p = (RIN_DHCPV6_OFFER_READY,
        commit_state RIN_DHCPV6_STATE_ADVERTISED
          ((set_server_duid (pm_server_duid p) c)\<lparr>c_address := pm_address p\<rparr>))"
      by (simp_all add: commit_offer_def split: if_splits)
    then show ?thesis by (simp add: takes_generation_def lease_rank_def client_leI)
  next
    case True
    moreover have "snd (commit_offer c p) = c"
      using True commit_results(1) [of c p "fst (commit_offer c p)" "snd (commit_offer c p)"] by auto
    ultimately show ?thesis by simp
  qed
  show "takes_generation (fst (commit_lease c p now_ms)) c (snd (commit_lease c p now_ms))"
    by (simp add: commit_lease_def Let_def takes_generation_commit split: option.split prod.split)
  show "takes_generation (fst (commit_information c p now_ms)) c (snd (commit_information c p now_ms))"
    by (simp add: commit_information_def Let_def takes_generation_commit split: option.split)
  show "takes_generation (fst (commit_reconfigure_information c p)) c (snd (commit_reconfigure_information c p))"
    by (simp add: commit_reconfigure_information_def takes_generation_commit)
qed

lemma takes_generation_now:
  "takes_generation st c d \<Longrightarrow> c_last_now_ms d \<le> n \<Longrightarrow> takes_generation st c (d\<lparr>c_last_now_ms := n\<rparr>)"
  by (auto simp: takes_generation_def client_le_def lease_rank_def)

lemma takes_generation_trans:
  assumes "takes_generation RIN_DHCPV6_OK c d" and "takes_generation st d e"
    and "c_next_lease_generation d = c_next_lease_generation c"
  shows "takes_generation st c e"
  using assms client_le_trans by (auto simp: takes_generation_def split: if_splits)

lemma commit_last_now:
  "c_last_now_ms (snd (commit_offer c p)) = c_last_now_ms c"
  "c_last_now_ms (snd (commit_lease c p now_ms)) = c_last_now_ms c"
  "c_last_now_ms (snd (commit_information c p now_ms)) = c_last_now_ms c"
  "c_last_now_ms (snd (commit_reconfigure_information c p)) = c_last_now_ms c"
  using commit_results(1) [OF prod.collapse [symmetric]] commit_results(2) [OF prod.collapse [symmetric]]
    commit_results(3) [OF prod.collapse [symmetric]] commit_results(4) [OF prod.collapse [symmetric]]
  by simp_all

lemma receive_commit_takes_generation:
  assumes "c_last_now_ms c \<le> now_ms"
  shows "takes_generation (fst (receive_commit c type p now_ms)) c (snd (receive_commit c type p now_ms))"
proof -
  define r where "r = (if type = DHCPV6_MESSAGE_ADVERTISE then commit_offer c p
            else if c_state c = RIN_DHCPV6_STATE_INFORMATION_REQUESTING
            then commit_information c p now_ms
            else if c_state c = RIN_DHCPV6_STATE_RECONFIGURE_INFORMATION_REQUESTING
            then commit_reconfigure_information c p
            else commit_lease c p now_ms)"
  have t: "takes_generation (fst r) c (snd r)" and n: "c_last_now_ms (snd r) = c_last_now_ms c"
    by (simp_all add: r_def commit_takes_generation commit_last_now)
  have "receive_commit c type p now_ms =
      (fst r, if fst r > 0 then (snd r)\<lparr>c_last_now_ms := now_ms\<rparr> else snd r)"
    unfolding receive_commit_def r_def [symmetric] by (simp add: case_prod_beta)
  then show ?thesis using t takes_generation_now [OF t] n assms by simp
qed

lemma overrides_takes_generation:
  assumes "c_last_now_ms c \<le> now_ms" and "apply_retransmission_overrides c p now_ms = (st, d)"
  shows "takes_generation st c d \<and> c_next_lease_generation d = c_next_lease_generation c \<and>
    c_last_now_ms d \<le> now_ms \<and> (st = RIN_DHCPV6_OK \<or> st = RIN_DHCPV6_RANGE_EXHAUSTED)"
proof -
  have "takes_generation RIN_DHCPV6_OK c (c\<lparr>c_generation := c_generation c + 1,
      c_offer_preferred_seconds := a, c_offer_valid_seconds := b, c_last_now_ms := now_ms\<rparr>)"
    if "c_generation c \<noteq> UINT64_MAX" for a b
    using that assms(1) by (auto simp: takes_generation_def lease_rank_def intro!: client_leI)
  then show ?thesis
    using assms by (auto simp: apply_retransmission_overrides_def Let_def advance_generation_def
        split: if_splits)
qed

lemma client_receive_takes_generation:
  "takes_generation (fst (client_receive c message now_ms)) c (snd (client_receive c message now_ms))"
proof (cases "c_last_now_ms c \<le> now_ms")
  case False
  then show ?thesis by (simp add: client_receive_def not_le)
next
  case True
  have parsed: "takes_generation (fst (receive_parsed c type st p now_ms)) c
      (snd (receive_parsed c type st p now_ms))" if "st \<le> 0" for type st p
  proof (cases "st = RIN_DHCPV6_OK \<or> st = RIN_DHCPV6_SERVER_REJECTED")
    case False
    with that show ?thesis by (simp add: receive_parsed_def)
  next
    case st: True
    obtain ost d where o: "apply_retransmission_overrides c p now_ms = (ost, d)" by fastforce
    note od = overrides_takes_generation [OF True o]
    have commit: "takes_generation (fst (receive_commit d type p now_ms)) c (snd (receive_commit d type p now_ms))"
      if "ost = RIN_DHCPV6_OK"
      using od that receive_commit_takes_generation [of d now_ms] by (auto intro: takes_generation_trans)
    have "takes_generation RIN_DHCPV6_SERVER_REJECTED c d \<and>
        takes_generation RIN_DHCPV6_SERVER_REJECTED c (d\<lparr>c_last_now_ms := now_ms\<rparr>)"
      using od takes_generation_now [of RIN_DHCPV6_SERVER_REJECTED c d now_ms]
      by (auto simp: takes_generation_def)
    with od st commit show ?thesis by (auto simp: receive_parsed_def o Let_def)
  qed
  have "st \<le> 0" if "parse_message m t r = (st, p)" for m t r st p
    using parse_message_status [OF that] by auto
  with True parsed show ?thesis
    by (simp add: client_receive_def not_less split: option.split prod.split)
qed

lemma client_get_lease_le: "client_le c (fst (snd (client_get_lease c now_ms)))"
proof (cases "c_last_now_ms c \<le> now_ms")
  case True
  have "client_le c (c\<lparr>c_last_now_ms := now_ms\<rparr>)" using True by (intro client_leI) simp_all
  with expire_lease_le [OF True] show ?thesis
    by (cases "expire_lease (c\<lparr>c_last_now_ms := now_ms\<rparr>)") (simp add: client_get_lease_def Let_def)
qed (simp add: client_get_lease_def time_valid_def)

lemma client_exec_le: "client_le c (client_next op c)"
proof (cases op)
  case (SetMode mode)
  then show ?thesis by (simp add: client_set_mode_def client_leI)
next
  case (Receive message now_ms)
  then show ?thesis using client_receive_takes_generation by (simp add: takes_generation_def)
next
  case Stop
  then show ?thesis by (simp add: client_stop_def advance_generation_def client_leI)
qed (simp_all add: client_request_reconfigure_le client_prepare_le client_complete_transmit_le
    client_get_lease_le del: client_exec.simps(3,6))

interpretation client_clock: counting_machine client_next "\<lambda>c. unat (c_last_now_ms c)"
  by unfold_locales (use client_exec_le in \<open>auto simp: client_le_def word_le_nat_alt\<close>)

interpretation client_generation: counting_machine client_next "\<lambda>c. unat (c_generation c)"
  by unfold_locales (use client_exec_le in \<open>auto simp: client_le_def\<close>)

interpretation client_leases: counting_machine client_next lease_rank
  by unfold_locales (use client_exec_le in \<open>auto simp: client_le_def\<close>)

end
