(* ===== verification/Dhcpv6_Client_Spec.thy ===== *)
theory Dhcpv6_Client_Spec
  imports Dhcpv6_Client_Run
begin

text \<open>
  What the version 1 client promises to its callers, one property per operation, and a complete
  exchange (start, Solicit, Advertise, Request, Reply) as the concrete input of the witnesses.
\<close>

section \<open>A sample exchange\<close>

definition sample_server :: bytes where
  "sample_server = [0, 3, 0, 1, 2, 0, 94, 16, 0, 2]"

definition sample_address :: bytes where
  "sample_address = [32, 1, 13, 184, 0, 0, 0, 0, 0, 0, 0, 0, 0, 0, 0, 5]"

text \<open>An address with a preferred lifetime of 3600 and a valid lifetime of 7200 seconds.\<close>

definition sample_message :: "u8 \<Rightarrow> u8 list \<Rightarrow> bytes" where
  "sample_message type xid = type # xid @ options_encode
     [(DHCPV6_OPTION_CLIENT_ID, sample_duid), (DHCPV6_OPTION_SERVER_ID, sample_server),
      (DHCPV6_OPTION_IA_NA, [0, 0, 0, 7, 0, 0, 0, 0, 0, 0, 0, 0] @ option_encode
         (DHCPV6_OPTION_IA_ADDRESS, sample_address @ [0, 0, 14, 16, 0, 0, 28, 32]))]"

definition sample_start :: dhcpv6_client where
  "sample_start = client_init sample_duid 10 7 1"

definition sample_soliciting :: dhcpv6_client where
  "sample_soliciting = sample_start\<lparr>c_state := RIN_DHCPV6_STATE_SOLICITING, c_generation := 3,
     c_last_now_ms := 3000, c_transaction_started_ms := 3000, c_next_transmit_ms := 4050,
     c_retry_ms := 1050, c_transaction_id := 0x010203, c_next_transmit_sequence := 2\<rparr>"

definition sample_requesting :: dhcpv6_client where
  "sample_requesting = sample_start\<lparr>c_state := RIN_DHCPV6_STATE_REQUESTING, c_generation := 5,
     c_last_now_ms := 4000, c_transaction_started_ms := 4000, c_next_transmit_ms := 4997,
     c_retry_ms := 997, c_transaction_id := 0x040506, c_server_duid_size := 10,
     c_next_transmit_sequence := 3, c_server_duid := sample_server @ zero_bytes 22,
     c_address := sample_address\<rparr>"

definition sample_bound :: dhcpv6_client where
  "sample_bound = snd (client_receive sample_requesting
     (sample_message DHCPV6_MESSAGE_REPLY [4, 5, 6]) 5000)"

definition sample_renew :: dhcpv6_client where
  "sample_renew = fst (snd (client_prepare sample_bound 0x070809 4000000))"

lemma sample_bound_code [code]:
  "sample_bound = sample_start\<lparr>c_state := RIN_DHCPV6_STATE_BOUND, c_generation := 6,
     c_last_now_ms := 5000, c_lease_generation := 1, c_next_lease_generation := 2,
     c_preferred_until_ms := 3605000, c_renew_at_ms := 3605000, c_rebind_at_ms := 5765000,
     c_expires_at_ms := 7205000, c_transaction_id := 0x040506, c_server_duid_size := 10,
     c_next_transmit_sequence := 3, c_server_duid := sample_server @ zero_bytes 22,
     c_address := sample_address\<rparr>"
  unfolding sample_bound_def by code_simp

lemma sample_start_inv: "client_inv sample_start"
  unfolding sample_start_def by (rule client_init_inv) (code_simp, simp_all add: sample_duid_def)

lemma quiet_client_inv:
  "wf_client c \<Longrightarrow> client_valid c \<Longrightarrow> \<not> client_information_mode c \<Longrightarrow>
     c_transaction_started_ms c \<le> c_last_now_ms c \<Longrightarrow> \<not> client_startup_delayed c \<Longrightarrow>
     c_pending_present c = 0 \<Longrightarrow> client_inv c"
  by (simp add: client_inv_def)

lemma sample_inv: "client_inv sample_soliciting" "client_inv sample_requesting" "client_inv sample_bound"
  by (rule quiet_client_inv; code_simp)+

lemma sample_renew_inv: "client_inv sample_renew"
  unfolding sample_renew_def by (rule client_prepare_inv [OF sample_inv(3)])

section \<open>Runs\<close>

text \<open>C1: Start a client with a valid identity and let it execute any sequence of operations, none of
  which is one of the two defects of \<^const>\<open>client_defect\<close>. Then the client is well-formed and passes
  its own validity check after every operation, and a pending message is one that was due when it
  was prepared.\<close>

theorem client_run_invariant:
  assumes "duid_valid duid (unat duid_size)" and "unat duid_size \<le> length duid"
    and "iaid \<noteq> 0" and "interface_generation \<noteq> 0"
    and "admissible_run client_next (\<lambda>op c. \<not> client_defect op c) ops
      (client_init duid duid_size iaid interface_generation)"
  shows "client_inv (run_ops client_next ops (client_init duid duid_size iaid interface_generation))"
  by (rule client_invariant.run_inv [OF client_init_inv [OF assms(1-4)] assms(5)])

theorem client_run_invariant_witness:
  "client_inv (run_ops client_next [Prepare 0x010203 1000, SetMode 1, GetLease 2000, Stop]
     (client_init sample_duid 10 7 1))"
  by (rule client_run_invariant) (code_simp, simp_all add: sample_duid_def)

text \<open>C32: Along every sequence of operations, whatever their arguments and whatever the state of the
  client, the clock of the client, its generation and the rank of the next lease generation never
  go back.\<close>

theorem client_run_monotone:
  "client_le c (run_ops client_next ops c)"
  using client_clock.run_count [of c ops] client_generation.run_count [of c ops]
    client_leases.run_count [of c ops]
  by (simp add: client_le_def word_le_nat_alt)

text \<open>No two leases of a client share a generation: when a message is accepted as a lease, any
  operations follow, and another message is accepted as a lease, then the second lease has a
  strictly greater generation.\<close>

theorem lease_generation_increases:
  assumes "client_receive c m1 t1 = (RIN_DHCPV6_LEASE_READY, c1)"
    and "client_receive (run_ops client_next ops c1) m2 t2 = (RIN_DHCPV6_LEASE_READY, c2)"
  shows "c_lease_generation c1 < c_lease_generation c2"
proof -
  let ?d = "run_ops client_next ops c1"
  have 1: "takes_generation RIN_DHCPV6_LEASE_READY c c1"
    using client_receive_takes_generation [of c m1 t1] assms(1) by simp
  have 2: "takes_generation RIN_DHCPV6_LEASE_READY ?d c2"
    using client_receive_takes_generation [of ?d m2 t2] assms(2) by simp
  have "lease_rank c < lease_rank ?d"
    using 1 client_leases.run_count [of c1 ops] by (simp add: takes_generation_def)
  with 1 2 show ?thesis
    by (simp add: takes_generation_def lease_rank_def word_less_nat_alt)
qed

theorem lease_generation_increases_witness:
  "\<exists>c1 c2. client_receive sample_requesting (sample_message DHCPV6_MESSAGE_REPLY [4, 5, 6]) 5000 =
      (RIN_DHCPV6_LEASE_READY, c1) \<and>
    client_receive (run_ops client_next [Prepare 0x070809 4000000,
      CompleteTransmit (c_pending sample_renew) 1] c1)
      (sample_message DHCPV6_MESSAGE_REPLY [7, 8, 9]) 4000500 = (RIN_DHCPV6_LEASE_READY, c2) \<and>
    c_lease_generation c1 < c_lease_generation c2"
proof -
  have 1: "client_receive sample_requesting (sample_message DHCPV6_MESSAGE_REPLY [4, 5, 6]) 5000 =
      (RIN_DHCPV6_LEASE_READY, sample_bound)"
    by code_simp
  have "fst (client_receive (run_ops client_next [Prepare 0x070809 4000000,
      CompleteTransmit (c_pending sample_renew) 1] sample_bound)
      (sample_message DHCPV6_MESSAGE_REPLY [7, 8, 9]) 4000500) = RIN_DHCPV6_LEASE_READY"
    by code_simp
  then obtain c2 where 2: "client_receive (run_ops client_next [Prepare 0x070809 4000000,
      CompleteTransmit (c_pending sample_renew) 1] sample_bound)
      (sample_message DHCPV6_MESSAGE_REPLY [7, 8, 9]) 4000500 = (RIN_DHCPV6_LEASE_READY, c2)"
    by (metis prod.collapse)
  from lease_generation_increases [OF 1 2] 1 2 show ?thesis by blast
qed

section \<open>Sending\<close>

lemma complete_pending:
  assumes "client_inv c" and "c_pending_present c \<noteq> 0" and "sent = 0 \<or> sent = 1"
  shows "fst (client_complete_transmit c (c_pending c) sent) = RIN_DHCPV6_OK"
    and "c_pending_present (snd (client_complete_transmit c (c_pending c) sent)) = 0"
proof -
  obtain s e tr where t: "complete_transition c (tx_kind (c_pending c))
      (load_xid (tx_message (c_pending c))) = Some (s, e, tr)"
    and g: "tr \<longrightarrow> c_generation c \<noteq> UINT64_MAX"
    using due_transition [OF assms(1,2)] by blast
  note simps = client_complete_transmit_def client_invD(2) [OF assms(1)] assms(2,3) t Let_def
    advance_generation_def complete_retransmission_def clear_pending_def clear_dynamic_def
  show "fst (client_complete_transmit c (c_pending c) sent) = RIN_DHCPV6_OK"
    using assms(3) g by (cases tr) (auto simp: simps)
  show "c_pending_present (snd (client_complete_transmit c (c_pending c) sent)) = 0"
    using assms(3) g by (cases tr) (auto simp: simps)
qed

text \<open>C27: A prepared message can always be completed. In every state that satisfies the invariant,
  completing the pending message, sent or not, returns \<open>OK\<close>, and afterwards nothing is pending.\<close>

theorem pending_completes:
  assumes "client_inv c" and "c_pending_present c \<noteq> 0" and "sent = 0 \<or> sent = 1"
  shows "fst (client_complete_transmit c (c_pending c) sent) = RIN_DHCPV6_OK \<and>
    c_pending_present (snd (client_complete_transmit c (c_pending c) sent)) = 0"
  using complete_pending [OF assms] by blast

theorem pending_completes_witness:
  "fst (client_complete_transmit sample_renew (c_pending sample_renew) 1) = RIN_DHCPV6_OK \<and>
   c_pending_present (snd (client_complete_transmit sample_renew (c_pending sample_renew) 1)) = 0"
proof (rule pending_completes [OF sample_renew_inv])
  show "c_pending_present sample_renew \<noteq> 0" by code_simp
qed simp






section \<open>Receiving\<close>

text \<open>An accepted message: it belongs to the exchange, it parses, and its contents are committed to the
  client with the retransmission limits of the message.\<close>

lemma receive_committed:
  assumes "client_receive c m now_ms = (st, c')" and "st > 0"
  obtains type p d where "receive_expected_type (c_state c) = Some type"
    "load_xid m = c_transaction_id c"
    "parse_message m type (receive_requires_ia (c_state c)) = (RIN_DHCPV6_OK, p)"
    "apply_retransmission_overrides c p now_ms = (RIN_DHCPV6_OK, d)"
    "receive_commit d type p now_ms = (st, c')"
proof -
  obtain type st0 p where t: "receive_expected_type (c_state c) = Some type"
      and x: "load_xid m = c_transaction_id c"
      and pm: "parse_message m type (receive_requires_ia (c_state c)) = (st0, p)"
      and r: "receive_parsed c type st0 p now_ms = (st, c')"
    using assms by (auto simp: client_receive_def split: if_splits option.splits prod.splits)
  obtain ost d where o: "apply_retransmission_overrides c p now_ms = (ost, d)" by fastforce
  have "ost = RIN_DHCPV6_OK \<or> ost = RIN_DHCPV6_RANGE_EXHAUSTED"
    using o by (auto simp: apply_retransmission_overrides_def Let_def split: if_splits option.splits)
  moreover have "st0 \<le> 0" using parse_message_status [OF pm] by auto
  ultimately have "st0 = RIN_DHCPV6_OK" "ost = RIN_DHCPV6_OK" "receive_commit d type p now_ms = (st, c')"
    using r assms(2) by (auto simp: receive_parsed_def o Let_def split: if_splits)
  with that t x pm o show ?thesis by simp
qed

lemma overrides_frame:
  assumes "apply_retransmission_overrides c p now_ms = (st, d)"
  shows "c_state d = c_state c" "c_duid d = c_duid c" "c_duid_size d = c_duid_size c"
    "c_iaid d = c_iaid c" "c_address d = c_address c" "c_server_duid d = c_server_duid c"
    "c_server_duid_size d = c_server_duid_size c" "c_dns_servers d = c_dns_servers c"
    "c_next_lease_generation d = c_next_lease_generation c" "c_expires_at_ms d = c_expires_at_ms c"
    "c_lease_generation d = c_lease_generation c" "c_renew_at_ms d = c_renew_at_ms c"
    "c_rebind_at_ms d = c_rebind_at_ms c" "c_preferred_until_ms d = c_preferred_until_ms c"
  using assms by (auto simp: apply_retransmission_overrides_def advance_generation_def Let_def
      split: if_splits)






text \<open>C33: A message of another exchange, and a malformed one, change nothing: the call returns an
  error and the client is the same as before.\<close>

theorem foreign_message_ignored:
  assumes "load_xid m \<noteq> c_transaction_id c \<or>
    (\<forall>type. fst (parse_message m type (receive_requires_ia (c_state c))) = RIN_DHCPV6_MALFORMED_PACKET)"
  shows "fst (client_receive c m now_ms) < 0 \<and> snd (client_receive c m now_ms) = c"
proof -
  have "fst (receive_parsed c type RIN_DHCPV6_MALFORMED_PACKET p now_ms) < 0 \<and>
      snd (receive_parsed c type RIN_DHCPV6_MALFORMED_PACKET p now_ms) = c" for type p
    by (simp add: receive_parsed_def)
  with assms show ?thesis
    by (auto simp: client_receive_def split: option.split prod.split) (metis fst_conv)+
qed

theorem foreign_message_ignored_witness:
  "fst (client_receive sample_requesting (sample_message DHCPV6_MESSAGE_REPLY [4, 5, 7]) 5000) < 0 \<and>
   snd (client_receive sample_requesting (sample_message DHCPV6_MESSAGE_REPLY [4, 5, 7]) 5000) =
     sample_requesting"
  by (rule foreign_message_ignored, rule disjI1) code_simp

section \<open>Reading and giving up the lease\<close>



text \<open>\<open>stop\<close> gives everything up: on success the client is idle, nothing is pending, no address,
  server, name server or lease is left, and the identity of the client is kept.\<close>

theorem stop_clears:
  assumes "client_inv c" and "client_stop c = (RIN_DHCPV6_OK, c')"
  shows "c_state c' = RIN_DHCPV6_STATE_IDLE \<and> c_transaction_id c' = 0 \<and> c_pending_present c' = 0 \<and>
    c_server_duid_size c' = 0 \<and> \<not> address_usable (c_address c') \<and> c_dns_server_count c' = 0 \<and>
    c_lease_generation c' = 0 \<and> c_duid c' = c_duid c \<and> c_iaid c' = c_iaid c \<and>
    c_interface_generation c' = c_interface_generation c \<and> client_inv c'"
proof -
  have inv: "client_inv c'" using client_stop_inv [OF assms(1)] assms(2) by simp
  have idle: "c_state c' = RIN_DHCPV6_STATE_IDLE" "c_transaction_id c' = 0" "c_pending_present c' = 0"
    "c_duid c' = c_duid c" "c_iaid c' = c_iaid c" "c_interface_generation c' = c_interface_generation c"
    using assms(2) by (auto simp: client_stop_def clear_dynamic_def advance_generation_def Let_def
        clear_pending_def split: if_splits option.splits)
  note v = client_validD [OF client_invD(2) [OF inv]]
  have "c_server_duid_size c' = 0" "\<not> address_usable (c_address c')"
    using v(3) idle(1) by (auto simp: client_server_valid_def Let_def client_state_has_server_def
        client_state_has_address_def)
  moreover have "c_dns_server_count c' = 0" "c_lease_generation c' = 0"
    using v(5) idle(1) by (auto simp: client_lease_valid_def Let_def client_has_lease_def
        client_state_has_lease_def split: if_splits)
  ultimately show ?thesis using idle inv by simp
qed

theorem stop_clears_witness:
  "\<exists>c'. client_stop sample_bound = (RIN_DHCPV6_OK, c') \<and> c_state c' = RIN_DHCPV6_STATE_IDLE \<and>
    c_lease_generation c' = 0"
proof -
  have "fst (client_stop sample_bound) = RIN_DHCPV6_OK" by code_simp
  then obtain c' where s: "client_stop sample_bound = (RIN_DHCPV6_OK, c')" by (metis prod.collapse)
  with stop_clears [OF sample_inv(3) s] show ?thesis by simp
qed

section \<open>The Request phase ends\<close>








section \<open>The two defects\<close>

lemma invalid_client_stuck:
  "\<not> client_valid c \<Longrightarrow> client_exec op c = (RIN_DHCPV6_INVALID_ARGUMENT, c)"
  by (cases op) (simp_all add: client_set_mode_def client_request_reconfigure_def client_prepare_def
      client_complete_transmit_def client_receive_def client_get_lease_def client_stop_def)

text \<open>C37: The first defect. A client that is bound and past its rebind time, but whose lease has not
  expired, accepts a reconfigure instruction to renew: the call returns \<open>OK\<close> and moves the renew
  time behind the rebind time. The client then fails its own validity check, so that every later
  operation, also \<open>stop\<close>, is refused and the client can never leave the state.\<close>

theorem reconfigure_renew_wedges:
  assumes "client_inv c" and "c_state c = RIN_DHCPV6_STATE_BOUND" and "c_pending_present c = 0"
    and "c_last_now_ms c \<le> now_ms" and "c_rebind_at_ms c \<le> now_ms" and "now_ms < c_expires_at_ms c"
    and "c_generation c < UINT64_MAX - 3"
  shows "\<exists>c'. client_request_reconfigure c RIN_DHCPV6_TRANSMIT_RENEW now_ms = (RIN_DHCPV6_OK, c') \<and>
    run_ops client_next ops c' = c' \<and> client_exec op c' = (RIN_DHCPV6_INVALID_ARGUMENT, c')"
proof -
  let ?c = "c\<lparr>c_renew_at_ms := now_ms, c_last_now_ms := now_ms, c_generation := c_generation c + 1\<rparr>"
  have mode: "\<not> client_information_mode c" using client_invD(4) [OF assms(1)] assms(2) by blast
  have r: "client_request_reconfigure c RIN_DHCPV6_TRANSMIT_RENEW now_ms = (RIN_DHCPV6_OK, ?c)"
    using assms mode client_invD(2) [OF assms(1)]
    by (simp add: client_request_reconfigure_def reconfigure_allowed_def Let_def not_le [symmetric])
  have "\<not> client_lease_valid ?c"
    using assms(2,5) mode by (simp add: client_lease_valid_def client_has_lease_def client_state_has_lease_def
        client_information_mode_def client_state_has_address_def Let_def)
  then have stuck: "client_exec op ?c = (RIN_DHCPV6_INVALID_ARGUMENT, ?c)" for op
    by (intro invalid_client_stuck) (simp add: client_valid_def)
  then have "run_ops client_next ops ?c = ?c" by (induction ops) simp_all
  with r stuck show ?thesis by blast
qed

theorem reconfigure_renew_wedges_witness:
  "\<exists>c'. client_request_reconfigure sample_bound RIN_DHCPV6_TRANSMIT_RENEW 6000000 = (RIN_DHCPV6_OK, c') \<and>
    client_exec Stop c' = (RIN_DHCPV6_INVALID_ARGUMENT, c')"
proof -
  have "\<exists>c'. client_request_reconfigure sample_bound RIN_DHCPV6_TRANSMIT_RENEW 6000000 = (RIN_DHCPV6_OK, c') \<and>
    run_ops client_next [] c' = c' \<and> client_exec Stop c' = (RIN_DHCPV6_INVALID_ARGUMENT, c')"
    by (rule reconfigure_renew_wedges [OF sample_inv(3)]) (simp_all add: sample_bound_code sample_start_def client_init_def zero_client_def)
  then show ?thesis by blast
qed






section \<open>Statuses\<close>

lemma receive_state:
  assumes "client_receive c m now_ms = (st, c')"
  shows "st \<le> 0 \<Longrightarrow> c_state c' = c_state c"
    and "st > 0 \<Longrightarrow> st = RIN_DHCPV6_OFFER_READY \<or> st = RIN_DHCPV6_LEASE_READY"
proof -
  have commit: "st = RIN_DHCPV6_OFFER_READY \<or> st = RIN_DHCPV6_LEASE_READY \<or> st < 0 \<and> d' = d"
    if "receive_commit d type p now_ms = (st, d')" for d d' type p
    using that by (auto simp: receive_commit_def split: prod.splits if_splits dest!: commit_results)
  show "st > 0 \<Longrightarrow> st = RIN_DHCPV6_OFFER_READY \<or> st = RIN_DHCPV6_LEASE_READY"
    using assms commit by (metis order_less_asym receive_committed)
  show "c_state c' = c_state c" if "st \<le> 0"
  proof -
    have "c_state d = c_state c" if "receive_parsed c type st0 p now_ms = (st, d)" for type st0 p d
    proof -
      obtain ost e where o: "apply_retransmission_overrides c p now_ms = (ost, e)" by fastforce
      have "e' = e \<or> st > 0" if "receive_commit e type p now_ms = (st, e')" for e'
        using commit [OF that] by auto
      with that \<open>st \<le> 0\<close> overrides_frame(1) [OF o] show ?thesis
        by (auto simp: receive_parsed_def o Let_def split: if_splits)
    qed
    with assms show ?thesis
      by (auto simp: client_receive_def split: if_splits option.splits prod.splits)
  qed
qed

text \<open>A lease that has run out puts the client back to idle.\<close>

lemma build_message_status: "build_message c k i now_ms = Inl e \<Longrightarrow> e < 0"
  by (auto simp: build_message_def Let_def split: if_splits option.splits)

lemma prepare_expired:
  "client_prepare c i now_ms = (RIN_DHCPV6_LEASE_EXPIRED, c', t) \<Longrightarrow> c_state c' = RIN_DHCPV6_STATE_IDLE"
  by (auto simp: client_prepare_def expire_lease_cases prepare_transaction_def prepare_message_def prepare_startup_def
      clear_dynamic_def clear_pending_def Let_def dest!: build_message_status
      split: if_splits option.splits prod.splits sum.splits)

end
