(* ===== verification/Dhcpv6_Client_V2_Spec.thy ===== *)
theory Dhcpv6_Client_V2_Spec
  imports Dhcpv6_Client_V2 Dhcpv6_Client_Spec
begin

text \<open>
  The version 2 client: its array of bindings implements a finite map from addresses to deadlines, a
  lease that is handed out lists exactly the unexpired bindings, the lifetimes written into a message
  are the remaining seconds rounded up, and one call sequence leaves a state that the client's own
  check rejects.
\<close>

section \<open>Bindings as a finite map\<close>

definition binding_entry :: "dhcpv6_binding \<Rightarrow> bytes \<times> u64 \<times> u64" where
  "binding_entry b = (b_address b, b_preferred_until_ms b, b_valid_until_ms b)"

definition binding_map :: "dhcpv6_binding list \<Rightarrow> bytes \<rightharpoonup> u64 \<times> u64" where
  "binding_map bs = map_of (map binding_entry bs)"

text \<open>What one address of a message does to the map.\<close>

definition apply_address ::
    "u64 \<Rightarrow> parsed_ia_address \<Rightarrow> (bytes \<rightharpoonup> u64 \<times> u64) \<Rightarrow> (bytes \<rightharpoonup> u64 \<times> u64)" where
  "apply_address now_ms a m =
     (if pia_status_code a \<noteq> 0 \<or> pia_valid_seconds a = 0 then m(pia_address a := None)
      else m(pia_address a \<mapsto>
        (now_ms + ucast (pia_preferred_seconds a) * 1000, now_ms + ucast (pia_valid_seconds a) * 1000)))"

definition binding_ok :: "u64 \<Rightarrow> dhcpv6_binding \<Rightarrow> bool" where
  "binding_ok next_generation b =
     (length (b_address b) = 16 \<and> address_usable (b_address b) \<and> b_reserved b = 0 \<and>
      b_reserved_alignment b = 0 \<and> b_generation b \<noteq> 0 \<and> b_generation b < next_generation \<and>
      b_preferred_until_ms b \<le> b_valid_until_ms b)"

definition bindings_ok :: "dhcpv6_binding list \<times> u64 \<Rightarrow> bool" where
  "bindings_ok acc = (length (fst acc) \<le> 4 \<and> distinct (map b_address (fst acc)) \<and>
     list_all (binding_ok (snd acc)) (fst acc) \<and> snd acc \<noteq> 0)"

lemma map_of_update_nth:
  "distinct (map fst xs) \<Longrightarrow> i < length xs \<Longrightarrow> fst (xs ! i) = k \<Longrightarrow> map_of (xs[i := (k, v)]) = (map_of xs)(k \<mapsto> v)"
proof (induction xs arbitrary: i)
  case (Cons x xs)
  show ?case
  proof (cases i)
    case (Suc j)
    with Cons have "fst x \<noteq> k" by (auto dest: nth_mem)
    with Cons Suc show ?thesis by (cases x) (auto simp: fun_eq_iff)
  qed (use Cons in \<open>cases x, auto simp: fun_eq_iff\<close>)
qed simp

lemma map_of_remove_nth:
  "distinct (map fst xs) \<Longrightarrow> i < length xs \<Longrightarrow> fst (xs ! i) = k \<Longrightarrow>
     map_of (take i xs @ drop (Suc i) xs) = (map_of xs)(k := None)"
proof (induction xs arbitrary: i)
  case (Cons x xs)
  show ?case
  proof (cases i)
    case 0
    with Cons.prems have "map_of xs k = None" by (auto simp: map_of_eq_None_iff)
    with 0 Cons.prems show ?thesis by (cases x) (auto simp: fun_eq_iff)
  next
    case (Suc j)
    with Cons have "fst x \<noteq> k" by (auto dest: nth_mem)
    with Cons Suc show ?thesis by (cases x) (auto simp: fun_eq_iff)
  qed
qed simp

lemma binding_index_some:
  assumes "client_v2_binding_index bs a = Some i" and "\<forall>b \<in> set bs. length (b_address b) = 16" and "length a = 16"
  shows "i < length bs \<and> b_address (bs ! i) = a"
  using assms by (induction bs arbitrary: i) (auto simp: byte_equal_iff split: if_splits)

lemma binding_index_none:
  assumes "client_v2_binding_index bs a = None" and "\<forall>b \<in> set bs. length (b_address b) = 16" and "length a = 16"
  shows "a \<notin> b_address ` set bs"
  using assms by (induction bs) (auto simp: byte_equal_iff split: if_splits)

lemma binding_map_simps:
  assumes "distinct (map b_address bs)"
  shows "i < length bs \<Longrightarrow> b_address (bs ! i) = b_address b \<Longrightarrow>
      binding_map (bs[i := b]) = (binding_map bs)(b_address b \<mapsto> (b_preferred_until_ms b, b_valid_until_ms b))"
    and "i < length bs \<Longrightarrow> b_address (bs ! i) = a \<Longrightarrow>
      binding_map (take i bs @ drop (Suc i) bs) = (binding_map bs)(a := None)"
    and "b_address b \<notin> b_address ` set bs \<Longrightarrow>
      binding_map (bs @ [b]) = (binding_map bs)(b_address b \<mapsto> (b_preferred_until_ms b, b_valid_until_ms b))"
    and "a \<notin> b_address ` set bs \<Longrightarrow> (binding_map bs)(a := None) = binding_map bs"
proof -
  let ?xs = "map binding_entry bs"
  have d: "distinct (map fst ?xs)" using assms by (simp add: binding_entry_def comp_def)
  show "i < length bs \<Longrightarrow> b_address (bs ! i) = b_address b \<Longrightarrow>
      binding_map (bs[i := b]) = (binding_map bs)(b_address b \<mapsto> (b_preferred_until_ms b, b_valid_until_ms b))"
    using map_of_update_nth [OF d, of i "b_address b"]
    by (simp add: binding_map_def map_update binding_entry_def)
  show "i < length bs \<Longrightarrow> b_address (bs ! i) = a \<Longrightarrow>
      binding_map (take i bs @ drop (Suc i) bs) = (binding_map bs)(a := None)"
    using map_of_remove_nth [OF d, of i a]
    by (simp add: binding_map_def binding_entry_def take_map drop_map)
  have none: "a \<notin> b_address ` set bs \<Longrightarrow> binding_map bs a = None" for a
    by (auto simp: binding_map_def map_of_eq_None_iff binding_entry_def)
  show "b_address b \<notin> b_address ` set bs \<Longrightarrow>
      binding_map (bs @ [b]) = (binding_map bs)(b_address b \<mapsto> (b_preferred_until_ms b, b_valid_until_ms b))"
    using none [of "b_address b"] by (auto simp: binding_map_def binding_entry_def map_add_def fun_eq_iff split: option.splits)
  show "a \<notin> b_address ` set bs \<Longrightarrow> (binding_map bs)(a := None) = binding_map bs"
    using none [of a] by auto
qed

lemma binding_ok_mono: "binding_ok g b \<Longrightarrow> g \<le> h \<Longrightarrow> binding_ok h b"
  by (auto simp: binding_ok_def)

lemma generation_succ:
  assumes "g \<noteq> UINT64_MAX"
  shows "g < g + (1 :: u64)" and "g + 1 \<noteq> 0"
  using generation_suc [OF assms] by (auto simp: word_less_nat_alt unat_eq_zero [symmetric])

lemma bindings_ok_parts:
  assumes "bindings_ok (bs, g)"
  shows "length bs \<le> 4" "distinct (map b_address bs)" "\<forall>b \<in> set bs. binding_ok g b" "g \<noteq> 0"
    "\<forall>b \<in> set bs. length (b_address b) = 16"
  using assms by (auto simp: bindings_ok_def list_all_iff binding_ok_def)

lemma bindings_ok_update:
  assumes "bindings_ok (bs, g)" and "binding_ok h b" and "g \<le> h" and "i < length bs" and "b_address (bs ! i) = b_address b"
  shows "bindings_ok (bs[i := b], h)"
proof -
  note ok = bindings_ok_parts [OF assms(1)]
  have "map b_address (bs[i := b]) = map b_address bs"
    using assms(4,5) by (simp add: map_update list_update_same_conv)
  moreover have "\<forall>x \<in> set (bs[i := b]). binding_ok h x"
    using ok(3) assms(2,3) set_update_subset_insert [of bs i b] by (auto intro: binding_ok_mono)
  moreover have "h \<noteq> 0" using ok(4) assms(3) by auto
  ultimately show ?thesis using ok by (simp add: bindings_ok_def list_all_iff)
qed

lemma bindings_ok_remove:
  assumes "bindings_ok (bs, g)"
  shows "bindings_ok (take i bs @ drop (Suc i) bs, g)"
proof -
  note ok = bindings_ok_parts [OF assms]
  have sub: "set (take i bs @ drop (Suc i) bs) \<subseteq> set bs" by (auto dest: in_set_takeD in_set_dropD)
  have "distinct (map b_address (take i bs @ drop (Suc i) bs))"
  proof -
    have "distinct (take i (map b_address bs) @ drop (Suc i) (map b_address bs))"
      using ok(2) by (simp add: set_take_disj_set_drop_if_distinct)
    then show ?thesis by (simp add: take_map drop_map)
  qed
  with ok sub show ?thesis by (auto simp: bindings_ok_def list_all_iff)
qed

lemma bindings_ok_append:
  assumes "bindings_ok (bs, g)" and "binding_ok h b" and "g \<le> h" and "length bs < 4" and "b_address b \<notin> b_address ` set bs"
  shows "bindings_ok (bs @ [b], h)"
proof -
  note ok = bindings_ok_parts [OF assms(1)]
  have "h \<noteq> 0" using ok(4) assms(3) by auto
  with ok assms show ?thesis by (auto simp: bindings_ok_def list_all_iff intro: binding_ok_mono)
qed

text \<open>A binding that an update leaves alone keeps its generation; a changed one gets a fresh one.\<close>

definition binding_kept :: "u64 \<Rightarrow> dhcpv6_binding list \<Rightarrow> dhcpv6_binding \<Rightarrow> bool" where
  "binding_kept g old b = (g \<le> b_generation b \<or>
     (\<exists>x \<in> set old. b_address x = b_address b \<and> b_generation x = b_generation b \<and>
        b_preferred_until_ms x = b_preferred_until_ms b \<and> b_valid_until_ms x = b_valid_until_ms b))"

lemma prepare_binding_step:
  assumes "prepare_binding now_ms a (bs, g) = Some (bs', g')" and "bindings_ok (bs, g)" and "ia_address_ok a"
  shows "bindings_ok (bs', g') \<and> g \<le> g' \<and> binding_map bs' = apply_address now_ms a (binding_map bs) \<and>
    (\<forall>b \<in> set bs'. binding_kept g bs b)"
proof -
  note ok = bindings_ok_parts [OF assms(2)]
  have a: "length (pia_address a) = 16" "address_usable (pia_address a)"
      "pia_preferred_seconds a \<le> pia_valid_seconds a" using assms(3) by (auto simp: ia_address_ok_def)
  let ?f = "client_v2_binding_index bs (pia_address a)"
  note some = binding_index_some [OF _ ok(5) a(1)] and none = binding_index_none [OF _ ok(5) a(1)]
  have refl: "binding_kept g bs b" if "b \<in> set bs" for b using that by (auto simp: binding_kept_def)
  show ?thesis
  proof (cases "pia_status_code a \<noteq> 0 \<or> pia_valid_seconds a = 0")
    case True
    show ?thesis
    proof (cases ?f)
      case None
      with assms(1,2) True binding_map_simps(4) [OF ok(2) none [OF None]] refl show ?thesis
        by (simp add: prepare_binding_def apply_address_def)
    next
      case (Some i)
      have kept: "\<forall>b \<in> set (take i bs @ drop (Suc i) bs). binding_kept g bs b"
        using refl by (metis Un_iff in_set_dropD in_set_takeD set_append)
      have r: "bs' = take i bs @ drop (Suc i) bs" "g' = g" using Some assms(1) True by (auto simp: prepare_binding_def)
      show ?thesis
        using True binding_map_simps(2) [OF ok(2), of i] some [OF Some] bindings_ok_remove [OF assms(2), of i] kept
        unfolding r by (simp add: apply_address_def del: set_append)
    qed
  next
    case False
    then obtain p v where p: "deadline_from_seconds now_ms (pia_preferred_seconds a) = Some p"
      and v: "deadline_from_seconds now_ms (pia_valid_seconds a) = Some v"
      using assms(1) by (auto simp: prepare_binding_def Let_def split: option.splits)
    have pv: "p \<le> v" using deadline_mono(2) [OF p v a(3)] .
    have eqs: "p = now_ms + ucast (pia_preferred_seconds a) * 1000" "v = now_ms + ucast (pia_valid_seconds a) * 1000"
      using p v by (auto simp: deadline_from_seconds_def Let_def split: if_splits)
    define new where "new = (\<lambda>gen. zero_binding\<lparr>b_address := pia_address a, b_preferred_until_ms := p,
        b_valid_until_ms := v, b_generation := gen\<rparr>)"
    have new: "b_address (new x) = pia_address a" "b_preferred_until_ms (new x) = p" "b_valid_until_ms (new x) = v"
      "b_generation (new x) = x" for x by (simp_all add: new_def)
    have new_ok: "x \<noteq> 0 \<Longrightarrow> x < h \<Longrightarrow> binding_ok h (new x)" for x h
      using a pv by (simp add: binding_ok_def new_def zero_binding_def)
    have map: "(binding_map bs)(pia_address a \<mapsto> (p, v)) = apply_address now_ms a (binding_map bs)"
      using False by (simp add: apply_address_def eqs)
    note succ = generation_succ [of g]
    have upd: "b \<in> set (bs[i := new x]) \<Longrightarrow> binding_kept g bs (new x) \<Longrightarrow> binding_kept g bs b" for b i x
      using set_update_subset_insert [of bs i "new x"] refl by auto
    have fresh: "binding_kept g bs (new g)" by (simp add: binding_kept_def new)
    show ?thesis
    proof (cases ?f)
      case None
      with assms(1) False p v have r: "length bs < 4" "g \<noteq> UINT64_MAX" "bs' = bs @ [new g]" "g' = g + 1"
        by (auto simp: prepare_binding_def Let_def new_def split: if_splits)
      with bindings_ok_append [OF assms(2) new_ok [OF ok(4) succ(1)]] none [OF None] succ new refl fresh
        binding_map_simps(3) [OF ok(2), of "new g"] map
      show ?thesis by (auto intro: order_less_imp_le)
    next
      case (Some i)
      note i = some [OF Some]
      show ?thesis
      proof (cases "b_preferred_until_ms (bs ! i) \<noteq> p \<or> b_valid_until_ms (bs ! i) \<noteq> v")
        case True
        with Some assms(1) False p v have r: "g \<noteq> UINT64_MAX" "bs' = bs[i := new g]" "g' = g + 1"
          by (auto simp: prepare_binding_def Let_def new_def split: if_splits)
        with bindings_ok_update [OF assms(2) new_ok [OF ok(4) succ(1)], of i] succ new i upd fresh
          binding_map_simps(1) [OF ok(2), of i "new g"] map
        show ?thesis by (auto intro: order_less_imp_le)
      next
        case same: False
        let ?x = "b_generation (bs ! i)"
        from same Some assms(1) False p v have r: "bs' = bs[i := new ?x]" "g' = g"
          by (auto simp: prepare_binding_def Let_def new_def split: if_splits)
        have mem: "bs ! i \<in> set bs" using i by simp
        with ok(3) have x: "?x \<noteq> 0" "?x < g" by (auto simp: binding_ok_def)
        have "binding_kept g bs (new ?x)"
          using mem same i by (auto simp: binding_kept_def new)
        then show ?thesis
          using bindings_ok_update [OF assms(2) new_ok [OF x], of i] r new i upd binding_map_simps(1) [OF ok(2), of i "new ?x"] map
          by auto
      qed
    qed
  qed
qed

lemma binding_kept_trans:
  "binding_kept h bs' b \<Longrightarrow> \<forall>x \<in> set bs'. binding_kept g bs x \<Longrightarrow> g \<le> h \<Longrightarrow> binding_kept g bs b"
  unfolding binding_kept_def by (metis order_trans)

lemma prepare_binding_list_steps:
  assumes "prepare_binding_list now_ms as acc = Some (bs', g')" and "bindings_ok acc" and "list_all ia_address_ok as"
  shows "bindings_ok (bs', g') \<and> snd acc \<le> g' \<and> binding_map bs' = fold (apply_address now_ms) as (binding_map (fst acc)) \<and>
    (\<forall>b \<in> set bs'. binding_kept (snd acc) (fst acc) b)"
  using assms
proof (induction as arbitrary: acc)
  case Nil
  then show ?case by (auto simp: binding_kept_def)
next
  case (Cons a as)
  obtain bs g where acc: "acc = (bs, g)" by fastforce
  obtain bs1 g1 where s: "prepare_binding now_ms a (bs, g) = Some (bs1, g1)"
    and r: "prepare_binding_list now_ms as (bs1, g1) = Some (bs', g')"
    using Cons.prems(1) by (auto simp: acc bind_eq_Some_conv)
  have "ia_address_ok a" "list_all ia_address_ok as" using Cons.prems(3) by simp_all
  note step = prepare_binding_step [OF s Cons.prems(2) [unfolded acc] this(1)] and ih = Cons.IH [OF r _ this(2)]
  show ?case using step ih by (auto simp: acc intro: binding_kept_trans order_trans)
qed

section \<open>Receiving bindings\<close>

definition v2_inv :: "dhcpv6_client_v2 \<Rightarrow> bool" where
  "v2_inv c = (wf_client_v2 c \<and> client_v2_state_valid c)"

lemma v2_live_ok:
  assumes "v2_inv c"
  shows "bindings_ok (v2_live c, v2_next_address_generation c)"
    and "length (v2_live c) = unat (v2_address_count c)" and "unat (v2_address_count c) \<le> 4"
    and "drop (unat (v2_address_count c)) (v2_addresses c) = replicate (4 - unat (v2_address_count c)) zero_binding"
proof -
  let ?n = "unat (v2_address_count c)" and ?bs = "v2_addresses c"
  have wf: "length ?bs = 4" "\<forall>b \<in> set ?bs. length (b_address b) = 16"
    using assms by (auto simp: v2_inv_def wf_client_v2_def wf_binding_def list_all_iff)
  have v: "v2_address_count c \<le> 4" "v2_next_address_generation c \<noteq> 0" "\<forall>i < 4. v2_binding_valid c i"
    using assms by (auto simp: v2_inv_def client_v2_state_valid_def list_all_iff split: if_splits)
  show n: "?n \<le> 4" using v(1) by (simp add: word_le_nat_alt)
  then show l: "length (v2_live c) = ?n" using wf by (simp add: v2_live_def)
  have b: "binding_ok (v2_next_address_generation c) (?bs ! i) \<and> (\<forall>j < i. b_address (?bs ! j) \<noteq> b_address (?bs ! i))"
    if "i < ?n" for i
  proof -
    have "i < 4" using that n by simp
    with v(3) have vi: "v2_binding_valid c i" by blast
    have len: "length (b_address (?bs ! j)) = 16" if "j < 4" for j using wf that by simp
    show ?thesis
      using vi that \<open>i < 4\<close> len
      by (auto simp: v2_binding_valid_def binding_ok_def Let_def list_all_iff byte_equal_iff not_le not_less split: if_splits)
  qed
  have "distinct (map b_address (v2_live c))"
    using b wf n l unfolding distinct_conv_nth
    by (auto simp: v2_live_def) (metis nat_neq_iff)
  moreover have "\<forall>x \<in> set (v2_live c). binding_ok (v2_next_address_generation c) x"
    using b wf n by (auto simp: v2_live_def in_set_conv_nth)
  ultimately show "bindings_ok (v2_live c, v2_next_address_generation c)"
    using l n v(2) by (simp add: bindings_ok_def list_all_iff)
  have "?bs ! i = zero_binding" if "?n \<le> i" "i < 4" for i
    using v(3) that by (auto simp: v2_binding_valid_def Let_def)
  then show "drop ?n ?bs = replicate (4 - ?n) zero_binding" using wf n by (auto intro!: nth_equalityI)
qed

lemma v2_set_bindings_live:
  assumes "length bs \<le> 4"
  shows "v2_live (v2_set_bindings bs g c) = bs"
proof -
  have "unat (of_nat (length bs) :: u32) = length bs" using assms by (simp add: unat_of_nat)
  then show ?thesis by (simp add: v2_live_def v2_set_bindings_def)
qed

lemma v2_live_exchange [simp]: "v2_live (c\<lparr>v2_exchange := e\<rparr>) = v2_live c"
  by (simp add: v2_live_def)

lemma v2_expected_agrees:
  "client_v2_expected_reply s = Some (type, ia) \<Longrightarrow> receive_expected_type s = Some type \<and> receive_requires_ia s = ia"
  by (auto simp: client_v2_expected_reply_def receive_expected_type_def receive_requires_ia_def split: if_splits)

lemma single_address_error: "client_v2_single_address_reply m p a = Inl e \<Longrightarrow> e < 0"
proof -
  have inner: "option_walk RIN_DHCPV6_MALFORMED_PACKET (copy_ia_suboption n) bs x = Inl e \<Longrightarrow> e < 0" for n bs x e
    by (erule option_walk_status) (auto simp: copy_ia_suboption_def split: if_splits)
  have "option_walk RIN_DHCPV6_MALFORMED_PACKET (single_address_option p a) bs x = Inl e \<Longrightarrow> e < 0" for bs x e
    by (erule option_walk_status)
      (auto simp: single_address_option_def Let_def dest: inner split: if_splits sum.splits)
  then show "client_v2_single_address_reply m p a = Inl e \<Longrightarrow> e < 0"
    by (auto simp: client_v2_single_address_reply_def split: if_splits sum.splits prod.splits)
qed

lemma exchange_message_error: "v2_exchange_message c m p ia bs = Inl e \<Longrightarrow> e < 0"
  by (auto simp: v2_exchange_message_def dest: single_address_error split: if_splits)

text \<open>An accepted message that carries addresses installs the bindings computed from it.\<close>

lemma v2_receive_bindings:
  assumes "client_v2_receive c m now_ms = (st, c')" and "st > 0"
    and "client_v2_expected_reply (c_state (v2_exchange c)) = Some (type, True)"
  obtains p bs g where "parse_message m type True = (RIN_DHCPV6_OK, p)"
    "client_v2_prepare_bindings c p now_ms (c_state (v2_exchange c)) = Some (bs, g)"
    "st = RIN_DHCPV6_OFFER_READY \<or> st = RIN_DHCPV6_LEASE_READY"
    "v2_addresses c' = v2_addresses (v2_set_bindings bs g c)" "v2_address_count c' = of_nat (length bs)"
    "v2_next_address_generation c' = g"
proof -
  let ?e = "v2_exchange c"
  note agree = v2_expected_agrees [OF assms(3)]
  have parsed: "parse_message m type True = (RIN_DHCPV6_OK, p)" if "client_receive ?e m now_ms = (st, e)"
      "parse_message m type True = (s, p)" for e s p
    using receive_committed [OF that(1) assms(2)] agree that(2) by (metis fst_conv option.inject prod.inject)
  have ready: "st = RIN_DHCPV6_OFFER_READY \<or> st = RIN_DHCPV6_LEASE_READY" if "client_receive ?e x now_ms = (st, e)" for x e
    using receive_state(2) [OF that assms(2)] .
  obtain s p where s: "parse_message m type True = (s, p)" by fastforce
  have ok: "s = RIN_DHCPV6_OK"
  proof (rule ccontr)
    assume no: "s \<noteq> RIN_DHCPV6_OK"
    with assms s obtain e where "client_receive ?e m now_ms = (st, e)"
      by (auto simp: client_v2_receive_def Let_def split: if_splits prod.splits)
    from parsed [OF this s] s no show False by simp
  qed
  with assms s obtain bs g x e where b: "client_v2_prepare_bindings c p now_ms (c_state ?e) = Some (bs, g)"
    and x: "client_receive ?e x now_ms = (st, e)"
    and c': "c' = (if st = RIN_DHCPV6_OFFER_READY then v2_set_bindings bs g (c\<lparr>v2_exchange := e\<rparr>)
      else if st = RIN_DHCPV6_LEASE_READY then (v2_set_bindings bs g (c\<lparr>v2_exchange := e\<rparr>))\<lparr>v2_exchange :=
        v2_commit_lease bs p ?e e\<rparr> else c\<lparr>v2_exchange := e\<rparr>)"
    by (auto simp: client_v2_receive_def Let_def dest: exchange_message_error
        split: if_splits prod.splits option.splits sum.splits)
  from that [of p bs g] s ok b ready [OF x] c' show ?thesis
    by (auto simp: v2_set_bindings_def)
qed

text \<open>C10: The bindings implement a finite map from addresses to deadlines. Accepting an Advertise or Reply
  applies the addresses of the message in order: an address with an error status or no lifetime is
  withdrawn, every other one gets its preferred and valid deadline, counted from the time of receipt.
  A renewal keeps the addresses the server does not mention, a first lease starts from nothing.
  At most four addresses are held, without duplicates, and a binding whose deadlines change gets a
  generation number that was never used before.\<close>

theorem v2_bindings_refine_map:
  assumes "v2_inv c" and "client_v2_receive c m now_ms = (st, c')" and "st > 0"
    and "client_v2_expected_reply (c_state (v2_exchange c)) = Some (type, True)"
  shows "\<exists>p. parse_message m type True = (RIN_DHCPV6_OK, p) \<and>
    binding_map (v2_live c') = fold (apply_address now_ms) (pm_ia_addresses p)
      (if c_state (v2_exchange c) \<in> {RIN_DHCPV6_STATE_RENEWING, RIN_DHCPV6_STATE_REBINDING,
         RIN_DHCPV6_STATE_RECONFIGURE_REBINDING} then binding_map (v2_live c) else Map.empty) \<and>
    bindings_ok (v2_live c', v2_next_address_generation c') \<and>
    (\<forall>b \<in> set (v2_live c'). binding_kept (v2_next_address_generation c) (v2_live c) b)"
proof -
  obtain p bs g where p: "parse_message m type True = (RIN_DHCPV6_OK, p)"
    and b: "client_v2_prepare_bindings c p now_ms (c_state (v2_exchange c)) = Some (bs, g)"
    and c': "v2_addresses c' = v2_addresses (v2_set_bindings bs g c)" "v2_address_count c' = of_nat (length bs)"
      "v2_next_address_generation c' = g"
    by (rule v2_receive_bindings [OF assms(2-4)])
  have as: "list_all ia_address_ok (pm_ia_addresses p)"
    using parse_message_ok(1) [OF p] by (simp add: parsed_ok_def)
  let ?keep = "c_state (v2_exchange c) \<in> {RIN_DHCPV6_STATE_RENEWING, RIN_DHCPV6_STATE_REBINDING,
      RIN_DHCPV6_STATE_RECONFIGURE_REBINDING}"
  have run: "prepare_binding_list now_ms (pm_ia_addresses p)
      (if ?keep then v2_live c else [], v2_next_address_generation c) = Some (bs, g)"
    using b by (simp add: client_v2_prepare_bindings_def Let_def)
  have "bindings_ok (if ?keep then v2_live c else [], v2_next_address_generation c)"
    using v2_live_ok(1) [OF assms(1)] by (simp add: bindings_ok_def)
  note steps = prepare_binding_list_steps [OF run this as]
  have live: "v2_live c' = bs"
    using v2_set_bindings_live [of bs g c] steps c' by (simp add: v2_live_def v2_set_bindings_def bindings_ok_def)
  have "binding_map [] = Map.empty" by (simp add: binding_map_def)
  with steps have "binding_map bs = fold (apply_address now_ms) (pm_ia_addresses p)
      (if ?keep then binding_map (v2_live c) else Map.empty)" by (simp split: if_splits)
  moreover have "\<forall>b \<in> set bs. binding_kept (v2_next_address_generation c) (v2_live c) b"
    using steps by (auto simp: binding_kept_def split: if_splits)
  ultimately show ?thesis using p steps live c'(3) by auto
qed

definition sample_v2 :: dhcpv6_client_v2 where
  "sample_v2 = zero_client_v2\<lparr>v2_version := RIN_DHCPV6_CLIENT_V2_VERSION, v2_struct_size := sizeof_client_v2,
     v2_next_address_generation := 1, v2_exchange := sample_requesting\<rparr>"

lemma sample_v2_inv: "v2_inv sample_v2"
  by code_simp

theorem v2_bindings_refine_map_witness:
  "\<exists>c'. client_v2_receive sample_v2 (sample_message DHCPV6_MESSAGE_REPLY [4, 5, 6]) 5000 = (RIN_DHCPV6_LEASE_READY, c') \<and>
     bindings_ok (v2_live c', v2_next_address_generation c') \<and> length (v2_live c') = 1"
proof -
  have "case client_v2_receive sample_v2 (sample_message DHCPV6_MESSAGE_REPLY [4, 5, 6]) 5000 of (status, c') \<Rightarrow>
      status = RIN_DHCPV6_LEASE_READY \<and> length (v2_live c') = 1"
    by code_simp
  then obtain c' where r: "client_v2_receive sample_v2 (sample_message DHCPV6_MESSAGE_REPLY [4, 5, 6]) 5000 =
      (RIN_DHCPV6_LEASE_READY, c')" and l: "length (v2_live c') = 1"
    by (auto split: prod.splits)
  have "client_v2_expected_reply (c_state (v2_exchange sample_v2)) = Some (DHCPV6_MESSAGE_REPLY, True)" by code_simp
  from v2_bindings_refine_map [OF sample_v2_inv r _ this] r l show ?thesis by auto
qed

section \<open>Remaining lifetimes\<close>

lemma ceiling_1000: "(n + 999) div 1000 = (if n mod 1000 = 0 then n div 1000 else n div 1000 + 1)" for n :: nat
proof -
  define k r where "k = n div 1000" and "r = n mod 1000"
  then have n: "n = 1000 * k + r" and r: "r < 1000" by simp_all
  have "(n + 999) div 1000 = (if r = 0 then k else k + 1)"
    unfolding n by (rule div_nat_eqI) (use r in auto)
  then show ?thesis unfolding k_def r_def .
qed

text \<open>The lifetime written into a renewal is the time left until the deadline in seconds, rounded up
  and capped at the largest 32-bit value; it is zero exactly when the deadline has passed.\<close>

theorem remaining_seconds_ceiling:
  "unat (client_v2_remaining_seconds deadline now_ms) =
     min (2 ^ 32 - 1) ((unat deadline - unat now_ms + 999) div 1000)"
proof (cases "deadline \<le> now_ms")
  case True
  then show ?thesis by (simp add: client_v2_remaining_seconds_def word_le_nat_alt)
next
  case False
  let ?d = "deadline - now_ms"
  have d: "unat ?d = unat deadline - unat now_ms" using False by (simp add: unat_sub not_le)
  have b: "unat ?d < 2 ^ 64" using unsigned_less [of ?d, where 'a = nat] by simp
  have m: "(?d mod 1000 \<noteq> 0) = (unat ?d mod 1000 \<noteq> 0)" by (simp add: word_unat_eq_iff unat_mod)
  define q where "q = (if ?d mod 1000 \<noteq> 0 then ?d div 1000 + 1 else ?d div 1000)"
  have q: "unat q = (unat ?d + 999) div 1000"
  proof (cases "unat ?d mod 1000 = 0")
    case True
    then have "unat q = unat ?d div 1000" using m by (simp add: q_def unat_div)
    also have "\<dots> = (unat ?d + 999) div 1000" using True by (simp add: ceiling_1000)
    finally show ?thesis .
  next
    case False
    have "unat (?d div 1000 + 1) = unat ?d div 1000 + 1"
      using b by (subst unat_add_lem [THEN iffD1]) (simp_all add: unat_div)
    then have "unat q = unat ?d div 1000 + 1" using m False by (simp add: q_def)
    also have "\<dots> = (unat ?d + 999) div 1000" using False by (simp add: ceiling_1000)
    finally show ?thesis .
  qed
  have r: "client_v2_remaining_seconds deadline now_ms = (if q > ucast UINT32_MAX then UINT32_MAX else ucast q)"
    using False by (simp add: client_v2_remaining_seconds_def q_def Let_def)
  show ?thesis
  proof (cases "q > ucast (UINT32_MAX :: u32)")
    case True
    then have "unat q > 4294967295" by (simp add: word_less_nat_alt)
    with True show ?thesis unfolding r using q d by simp
  next
    case False
    then have "unat q \<le> 4294967295" by (simp add: word_less_nat_alt)
    then have "unat (ucast q :: u32) = unat q" by (simp add: unsigned_ucast_eq take_bit_nat_eq_self)
    with False \<open>unat q \<le> 4294967295\<close> show ?thesis unfolding r using q d by simp
  qed
qed

section \<open>Reading the lease\<close>

definition unexpired :: "u64 \<Rightarrow> dhcpv6_binding list \<Rightarrow> dhcpv6_binding list" where
  "unexpired now_ms = filter (\<lambda>b. now_ms < b_valid_until_ms b)"

lemma fold_max_deadline:
  "fold (\<lambda>b m. if b_valid_until_ms b > m then b_valid_until_ms b else m) bs m =
     Max (insert m (b_valid_until_ms ` set bs))"
proof (induction bs arbitrary: m)
  case (Cons b bs)
  have "Max (insert (if b_valid_until_ms b > m then b_valid_until_ms b else m) (b_valid_until_ms ` set bs)) =
      Max (insert m (insert (b_valid_until_ms b) (b_valid_until_ms ` set bs)))"
    by (cases "bs = []") (auto simp: max_def)
  with Cons show ?case by simp
qed simp

lemma unexpired_all: "length (unexpired now_ms bs) = length bs \<Longrightarrow> unexpired now_ms bs = bs"
  using length_filter_less [of _ bs "\<lambda>b. now_ms < b_valid_until_ms b"] by (auto simp: unexpired_def filter_id_conv)

lemma v2_get_lease_result:
  assumes "v2_inv c" and "client_v2_get_lease c now_ms = (RIN_DHCPV6_OK, c', lease)"
  shows "v2_live c' = unexpired now_ms (v2_live c)" and "lease = v2_lease_of_client c' (unexpired now_ms (v2_live c))"
    and "c_expires_at_ms (v2_exchange c') = c_expires_at_ms (v2_exchange c)" and "now_ms < c_expires_at_ms (v2_exchange c)"
proof -
  let ?live = "unexpired now_ms (v2_live c)"
  note ok = v2_live_ok [OF assms(1)]
  have len: "length ?live \<le> 4"
    using ok(2,3) length_filter_le [of "\<lambda>b. now_ms < b_valid_until_ms b" "v2_live c"] by (simp add: unexpired_def)
  then have n: "unat (of_nat (length ?live) :: u32) = length ?live" by (simp add: unat_of_nat)
  have le: "filter (\<lambda>b. now_ms < b_valid_until_ms b) (v2_live c) = ?live" by (simp add: unexpired_def)
  define d where "d = (if of_nat (length ?live) \<noteq> v2_address_count c then c\<lparr>v2_address_count := of_nat (length ?live),
      v2_addresses := ?live @ replicate (4 - length ?live) zero_binding\<rparr> else c)"
  have "(of_nat (length ?live) = v2_address_count c) = (length ?live = length (v2_live c))"
    using ok(2) n by (auto simp: word_unat_eq_iff)
  then have d: "v2_live d = ?live" using unexpired_all [of now_ms "v2_live c"] n by (auto simp: d_def v2_live_def)
  obtain e where c': "c' = d\<lparr>v2_exchange := e\<rparr>" "c_expires_at_ms e = c_expires_at_ms (v2_exchange c)"
    and l: "lease = v2_lease_of_client c' ?live" and t: "now_ms < c_expires_at_ms (v2_exchange c)"
    using assms(2) by (auto simp: client_v2_get_lease_def Let_def le d_def not_le split: if_splits)
  show "v2_live c' = ?live" "lease = v2_lease_of_client c' ?live"
    "c_expires_at_ms (v2_exchange c') = c_expires_at_ms (v2_exchange c)" "now_ms < c_expires_at_ms (v2_exchange c)"
    using c' l t d by simp_all
qed

text \<open>C35: A lease that is handed out lists exactly the bindings whose valid lifetime has not ended, in
  order, and the bindings that have ended are dropped from the client. Its expiry is the latest
  deadline of a listed binding.\<close>

theorem v2_lease_lists_live:
  assumes "v2_inv c" and "client_v2_get_lease c now_ms = (RIN_DHCPV6_OK, c', lease)"
  shows "take (unat (l2_address_count lease)) (l2_addresses lease) = unexpired now_ms (v2_live c) \<and>
    v2_live c' = unexpired now_ms (v2_live c) \<and> now_ms < c_expires_at_ms (v2_exchange c') \<and>
    (v2_live c' \<noteq> [] \<longrightarrow> now_ms < l2_expires_at_ms lease \<and>
       l2_expires_at_ms lease = Max (b_valid_until_ms ` set (v2_live c')))"
proof -
  let ?live = "unexpired now_ms (v2_live c)"
  note r = v2_get_lease_result [OF assms]
  have "length ?live \<le> 4"
    using v2_live_ok(2,3) [OF assms(1)] length_filter_le [of "\<lambda>b. now_ms < b_valid_until_ms b" "v2_live c"]
    by (simp add: unexpired_def)
  then have n: "unat (of_nat (length ?live) :: u32) = length ?live" by (simp add: unat_of_nat)
  have "now_ms < l2_expires_at_ms lease \<and> l2_expires_at_ms lease = Max (b_valid_until_ms ` set ?live)" if ne: "?live \<noteq> []"
  proof -
    obtain b where b: "b \<in> set ?live" using ne by (cases ?live) auto
    then have "now_ms < b_valid_until_ms b" by (simp add: unexpired_def)
    also have "\<dots> \<le> Max (b_valid_until_ms ` set ?live)" using b by (intro Max_ge) auto
    moreover have "Max (insert 0 (b_valid_until_ms ` set ?live)) = Max (b_valid_until_ms ` set ?live)"
      using ne by (subst Max_insert) (auto simp: max_def)
    ultimately show ?thesis using ne unfolding r(2) by (simp add: v2_lease_of_client_def Let_def fold_max_deadline)
  qed
  moreover have "take (unat (l2_address_count lease)) (l2_addresses lease) = ?live"
    using n unfolding r(2) by (simp add: v2_lease_of_client_def Let_def)
  ultimately show ?thesis using r(1,3,4) by auto
qed

definition sample_binding :: "u8 \<Rightarrow> u64 \<Rightarrow> u64 \<Rightarrow> dhcpv6_binding" where
  "sample_binding host valid_until generation = zero_binding\<lparr>b_address := [32, 1, 13, 184] @ zero_bytes 11 @ [host],
     b_preferred_until_ms := 3605000, b_valid_until_ms := valid_until, b_generation := generation\<rparr>"

definition sample_v2_bound :: dhcpv6_client_v2 where
  "sample_v2_bound = sample_v2\<lparr>v2_exchange := sample_bound, v2_address_count := 2, v2_next_address_generation := 3,
     v2_addresses := [sample_binding 5 7205000 1, sample_binding 6 3700000 2, zero_binding, zero_binding]\<rparr>"

lemma sample_v2_bound_inv: "v2_inv sample_v2_bound"
  by code_simp

theorem v2_lease_lists_live_witness:
  "\<exists>c' lease. client_v2_get_lease sample_v2_bound 4000000 = (RIN_DHCPV6_OK, c', lease) \<and>
     v2_live c' = [sample_binding 5 7205000 1] \<and> l2_expires_at_ms lease = 7205000"
proof -
  have "fst (client_v2_get_lease sample_v2_bound 4000000) = RIN_DHCPV6_OK"
    "unexpired 4000000 (v2_live sample_v2_bound) = [sample_binding 5 7205000 1]" by code_simp+
  moreover from this obtain c' lease where "client_v2_get_lease sample_v2_bound 4000000 = (RIN_DHCPV6_OK, c', lease)"
    by (metis prod.collapse)
  ultimately show ?thesis
    using v2_lease_lists_live [OF sample_v2_bound_inv, of 4000000 c' lease] by (auto simp: sample_binding_def)
qed

section \<open>A lease that expires while a message is prepared\<close>

lemma v2_invalid_stuck:
  "\<not> client_v2_state_valid c \<Longrightarrow> fst (client_v2_prepare c i now_ms t) = RIN_DHCPV6_INVALID_ARGUMENT \<and>
     fst (client_v2_receive c m now_ms) = RIN_DHCPV6_INVALID_ARGUMENT \<and>
     fst (client_v2_get_lease c now_ms) = RIN_DHCPV6_INVALID_ARGUMENT \<and> fst (client_v2_stop c) = RIN_DHCPV6_INVALID_ARGUMENT"
  by (simp add: client_v2_prepare_def client_v2_receive_def client_v2_get_lease_def client_v2_stop_def Let_def)

lemma rewrite_status: "client_v2_rewrite_renew_ia c now_ms t = (s, c', t') \<Longrightarrow> s \<le> 0"
proof -
  have "option_walk RIN_DHCPV6_INVALID_STATE (rewrite_ia_option c now_ms) bs x = Inl e \<Longrightarrow> e \<le> 0" for bs x e
    by (erule option_walk_status) (auto simp: rewrite_ia_option_def Let_def split: if_splits)
  then show "client_v2_rewrite_renew_ia c now_ms t = (s, c', t') \<Longrightarrow> s \<le> 0"
    by (auto simp: client_v2_rewrite_renew_ia_def Let_def split: if_splits sum.splits prod.splits)
qed

text \<open>C39: If the lease runs out when the next message is prepared, the exchange goes back to idle but the
  bindings stay. The client then fails its own validity check, and every operation except a new
  initialisation answers \<open>INVALID_ARGUMENT\<close> from then on.\<close>

theorem v2_prepare_expiry_wedges:
  assumes "v2_address_count c \<noteq> 0" and "client_v2_prepare c i now_ms t = (RIN_DHCPV6_LEASE_EXPIRED, c', t')"
  shows "\<not> client_v2_state_valid c' \<and>
    fst (client_v2_prepare c' i' now_ms' t) = RIN_DHCPV6_INVALID_ARGUMENT \<and>
    fst (client_v2_receive c' m now_ms') = RIN_DHCPV6_INVALID_ARGUMENT \<and>
    fst (client_v2_get_lease c' now_ms') = RIN_DHCPV6_INVALID_ARGUMENT \<and>
    fst (client_v2_stop c') = RIN_DHCPV6_INVALID_ARGUMENT"
proof -
  obtain s e u where p: "client_prepare (v2_exchange c) i now_ms = (s, e, u)" by (metis prod_cases3)
  have c': "c' = c\<lparr>v2_exchange := e\<rparr>" and s: "s = RIN_DHCPV6_LEASE_EXPIRED"
    using assms(2) p by (auto simp: client_v2_prepare_def Let_def dest: rewrite_status split: if_splits prod.splits)
  have "c_state e = RIN_DHCPV6_STATE_IDLE" using p unfolding s by (rule prepare_expired)
  then have "\<not> client_v2_state_valid c'"
    using assms(1) by (auto simp: client_v2_state_valid_def c' client_state_has_lease_def)
  with v2_invalid_stuck show ?thesis by blast
qed

theorem v2_prepare_expiry_wedges_witness:
  "\<exists>c' t'. client_v2_prepare sample_v2_bound 9 8000000 zero_transmit = (RIN_DHCPV6_LEASE_EXPIRED, c', t') \<and>
     fst (client_v2_stop c') = RIN_DHCPV6_INVALID_ARGUMENT"
proof -
  have "fst (client_v2_prepare sample_v2_bound 9 8000000 zero_transmit) = RIN_DHCPV6_LEASE_EXPIRED"
    "v2_address_count sample_v2_bound \<noteq> 0" by code_simp+
  moreover from this obtain c' t' where
    p: "client_v2_prepare sample_v2_bound 9 8000000 zero_transmit = (RIN_DHCPV6_LEASE_EXPIRED, c', t')"
    by (metis prod.collapse)
  ultimately show ?thesis using v2_prepare_expiry_wedges [OF _ p] p by blast
qed

end
