(* ===== verification/Dhcpv6_Transport.thy ===== *)
theory Dhcpv6_Transport
  imports Dhcpv6_Client
begin

text \<open>
  The Ethernet/IPv6/UDP transport of \<open>src/rin_dhcpv6_transport.c\<close> around a version 1 client. The
  random source is not part of the library: it is the parameter \<open>random_bytes\<close>, a function from its
  state and a number of bytes to the bytes (\<^const>\<open>None\<close> when the callback reports a failure) and
  its next state. Statuses are the C \<open>int\<close>s; the transport passes the statuses of the client on.
\<close>

section \<open>Constants and records\<close>

abbreviation (input) RIN_DHCPV6_TRANSPORT_VERSION :: u32 where "RIN_DHCPV6_TRANSPORT_VERSION \<equiv> 1"
abbreviation (input) RIN_DHCPV6_TRANSPORT_FRAME_SIZE :: nat
  where "RIN_DHCPV6_TRANSPORT_FRAME_SIZE \<equiv> 14 + 40 + 8 + 512"

abbreviation (input) RIN_DHCPV6_TRANSPORT_OK :: int where "RIN_DHCPV6_TRANSPORT_OK \<equiv> 0"
abbreviation (input) RIN_DHCPV6_TRANSPORT_PACKET_READY :: int
  where "RIN_DHCPV6_TRANSPORT_PACKET_READY \<equiv> 1"
abbreviation (input) RIN_DHCPV6_TRANSPORT_RECONFIGURED :: int
  where "RIN_DHCPV6_TRANSPORT_RECONFIGURED \<equiv> 2"
abbreviation (input) RIN_DHCPV6_TRANSPORT_INVALID_ARGUMENT :: int
  where "RIN_DHCPV6_TRANSPORT_INVALID_ARGUMENT \<equiv> - 1"
abbreviation (input) RIN_DHCPV6_TRANSPORT_INVALID_STATE :: int
  where "RIN_DHCPV6_TRANSPORT_INVALID_STATE \<equiv> - 2"
abbreviation (input) RIN_DHCPV6_TRANSPORT_MALFORMED_FRAME :: int
  where "RIN_DHCPV6_TRANSPORT_MALFORMED_FRAME \<equiv> - 3"
abbreviation (input) RIN_DHCPV6_TRANSPORT_CHECKSUM_FAILURE :: int
  where "RIN_DHCPV6_TRANSPORT_CHECKSUM_FAILURE \<equiv> - 4"
abbreviation (input) RIN_DHCPV6_TRANSPORT_NOT_FOR_US :: int
  where "RIN_DHCPV6_TRANSPORT_NOT_FOR_US \<equiv> - 5"
abbreviation (input) RIN_DHCPV6_TRANSPORT_RANDOM_FAILURE :: int
  where "RIN_DHCPV6_TRANSPORT_RANDOM_FAILURE \<equiv> - 6"

abbreviation (input) DHCPV6_ETHERNET_HEADER_SIZE :: nat where "DHCPV6_ETHERNET_HEADER_SIZE \<equiv> 14"
abbreviation (input) DHCPV6_IPV6_HEADER_SIZE :: nat where "DHCPV6_IPV6_HEADER_SIZE \<equiv> 40"
abbreviation (input) DHCPV6_UDP_HEADER_SIZE :: nat where "DHCPV6_UDP_HEADER_SIZE \<equiv> 8"
abbreviation (input) DHCPV6_ETHERTYPE_IPV6 :: u16 where "DHCPV6_ETHERTYPE_IPV6 \<equiv> 0x86dd"
abbreviation (input) DHCPV6_NEXT_HEADER_UDP :: u8 where "DHCPV6_NEXT_HEADER_UDP \<equiv> 17"
abbreviation (input) DHCPV6_HOP_LIMIT :: u8 where "DHCPV6_HOP_LIMIT \<equiv> 1"
abbreviation (input) DHCPV6_CLIENT_PORT :: u16 where "DHCPV6_CLIENT_PORT \<equiv> 546"
abbreviation (input) DHCPV6_SERVER_PORT :: u16 where "DHCPV6_SERVER_PORT \<equiv> 547"
abbreviation (input) DHCPV6_MESSAGE_RECONFIGURE :: u8 where "DHCPV6_MESSAGE_RECONFIGURE \<equiv> 10"

record dhcpv6_transport_config =
  tc_version :: u32
  tc_struct_size :: u32
  tc_interface_generation :: u64
  tc_mac :: bytes
  tc_reserved0 :: bytes
  tc_source_address :: bytes
  tc_client_mode :: u32
  tc_reserved1 :: bytes

record dhcpv6_transport_transmit =
  tt_version :: u32
  tt_struct_size :: u32
  tt_client_transmit :: dhcpv6_transmit
  tt_source_port :: u16
  tt_destination_port :: u16
  tt_source_mac :: bytes
  tt_destination_is_multicast :: u8
  tt_reserved0 :: u8
  tt_source_address :: bytes
  tt_destination_address :: bytes

record dhcpv6_transport =
  t_version :: u32
  t_struct_size :: u32
  t_initialized :: u32
  t_server_address_present :: u32
  t_transport_generation :: u64
  t_config :: dhcpv6_transport_config
  t_client :: dhcpv6_client
  t_server_address :: bytes
  t_reserved0 :: bytes

abbreviation (input) sizeof_transport_config :: u32 where "sizeof_transport_config \<equiv> 48"
abbreviation (input) sizeof_transport_transmit :: u32 where "sizeof_transport_transmit \<equiv> 608"
abbreviation (input) sizeof_transport :: u32 where "sizeof_transport \<equiv> 936"

definition zero_transport_config :: dhcpv6_transport_config where
  "zero_transport_config = \<lparr>tc_version = 0, tc_struct_size = 0, tc_interface_generation = 0,
     tc_mac = zero_bytes 6, tc_reserved0 = zero_bytes 2, tc_source_address = zero_bytes 16,
     tc_client_mode = 0, tc_reserved1 = zero_bytes 4\<rparr>"

definition zero_transport_transmit :: dhcpv6_transport_transmit where
  "zero_transport_transmit = \<lparr>tt_version = 0, tt_struct_size = 0, tt_client_transmit = zero_transmit,
     tt_source_port = 0, tt_destination_port = 0, tt_source_mac = zero_bytes 6,
     tt_destination_is_multicast = 0, tt_reserved0 = 0, tt_source_address = zero_bytes 16,
     tt_destination_address = zero_bytes 16\<rparr>"

definition zero_transport :: dhcpv6_transport where
  "zero_transport = \<lparr>t_version = 0, t_struct_size = 0, t_initialized = 0,
     t_server_address_present = 0, t_transport_generation = 0, t_config = zero_transport_config,
     t_client = zero_client, t_server_address = zero_bytes 16, t_reserved0 = zero_bytes 8\<rparr>"

section \<open>Validity\<close>

text \<open>\<open>bytes_all_zero\<close> over the first \<open>n\<close> bytes, and the checks of addresses.\<close>

definition bytes_all_zero :: "bytes \<Rightarrow> nat \<Rightarrow> bool" where
  "bytes_all_zero bs n = (byte_accumulate (take n bs) 0 = 0)"

definition mac_valid :: "bytes \<Rightarrow> bool" where
  "mac_valid mac = (mac ! 0 AND 1 = 0 \<and> \<not> bytes_all_zero mac 6)"

definition ipv6_unicast_valid :: "bytes \<Rightarrow> bool" where
  "ipv6_unicast_valid address = (address ! 0 \<noteq> 0xff \<and> \<not> bytes_all_zero address 16)"

definition ipv6_link_local_valid :: "bytes \<Rightarrow> bool" where
  "ipv6_link_local_valid address =
     (ipv6_unicast_valid address \<and> address ! 0 = 0xfe \<and> address ! 1 AND 0xc0 = 0x80)"

definition config_valid :: "dhcpv6_transport_config \<Rightarrow> bool" where
  "config_valid config =
     (tc_version config = RIN_DHCPV6_TRANSPORT_VERSION \<and>
      tc_struct_size config = sizeof_transport_config \<and>
      tc_interface_generation config \<noteq> 0 \<and> mac_valid (tc_mac config) \<and>
      ipv6_link_local_valid (tc_source_address config) \<and>
      bytes_all_zero (tc_reserved0 config) 2 \<and>
      tc_client_mode config \<le> RIN_DHCPV6_CLIENT_MODE_INFORMATION \<and>
      bytes_all_zero (tc_reserved1 config) 4)"

definition transport_state_valid :: "dhcpv6_transport \<Rightarrow> bool" where
  "transport_state_valid state =
     (t_version state = RIN_DHCPV6_TRANSPORT_VERSION \<and>
      t_struct_size state = sizeof_transport \<and> t_initialized state = 1 \<and>
      t_transport_generation state \<noteq> 0 \<and> config_valid (t_config state) \<and>
      t_server_address_present state \<le> 1 \<and>
      (if t_server_address_present state = 0 then bytes_all_zero (t_server_address state) 16
       else ipv6_unicast_valid (t_server_address state)) \<and>
      bytes_all_zero (t_reserved0 state) 8 \<and> client_valid (t_client state))"

definition clear_server_address :: "dhcpv6_transport \<Rightarrow> dhcpv6_transport" where
  "clear_server_address state =
     state\<lparr>t_server_address_present := 0, t_server_address := zero_bytes 16\<rparr>"

section \<open>Random identifiers\<close>

type_synonym 'r random_fn = "'r \<Rightarrow> nat \<Rightarrow> bytes option \<times> 'r"

text \<open>Up to eight attempts, as the loop counters of the source.\<close>

fun random_iaid_loop :: "nat \<Rightarrow> 'r random_fn \<Rightarrow> 'r \<Rightarrow> u32 option \<times> 'r" where
  "random_iaid_loop 0 random_bytes context = (None, context)"
| "random_iaid_loop (Suc n) random_bytes context =
     (case random_bytes context 4 of
        (None, context') \<Rightarrow> (None, context')
      | (Some random, context') \<Rightarrow>
          let value = load_be32 random
          in if value \<noteq> 0 then (Some value, context')
             else random_iaid_loop n random_bytes context')"

definition random_iaid :: "'r random_fn \<Rightarrow> 'r \<Rightarrow> u32 option \<times> 'r" where
  "random_iaid = random_iaid_loop 8"

fun random_transaction_id_loop ::
    "nat \<Rightarrow> u32 \<Rightarrow> 'r random_fn \<Rightarrow> 'r \<Rightarrow> u32 option \<times> 'r" where
  "random_transaction_id_loop 0 current random_bytes context = (None, context)"
| "random_transaction_id_loop (Suc n) current random_bytes context =
     (case random_bytes context 3 of
        (None, context') \<Rightarrow> (None, context')
      | (Some random, context') \<Rightarrow>
          let value = push_bit 16 (ucast (random ! 0)) OR push_bit 8 (ucast (random ! 1)) OR
                ucast (random ! 2)
          in if value \<noteq> 0 \<and> value \<noteq> current then (Some value, context')
             else random_transaction_id_loop n current random_bytes context')"

definition random_transaction_id ::
    "dhcpv6_transport \<Rightarrow> 'r random_fn \<Rightarrow> 'r \<Rightarrow> u32 option \<times> 'r" where
  "random_transaction_id state = random_transaction_id_loop 8 (c_transaction_id (t_client state))"

section \<open>Sending\<close>

definition transmit_needs_new_transaction :: "dhcpv6_client \<Rightarrow> u64 \<Rightarrow> bool" where
  "transmit_needs_new_transaction client now_ms =
     (let state = c_state client in
      if state = RIN_DHCPV6_STATE_IDLE then c_transaction_id client = 0
      else if state = RIN_DHCPV6_STATE_ADVERTISED then True
      else if state = RIN_DHCPV6_STATE_BOUND then now_ms \<ge> c_renew_at_ms client
      else if state = RIN_DHCPV6_STATE_INFORMATION_BOUND then now_ms \<ge> c_renew_at_ms client
      else if state = RIN_DHCPV6_STATE_RECONFIGURE_INFORMATION_REQUESTING \<or>
              state = RIN_DHCPV6_STATE_RECONFIGURE_REBINDING
      then c_offer_t1_seconds client = UINT32_MAX \<and> now_ms \<ge> c_next_transmit_ms client
      else state = RIN_DHCPV6_STATE_RENEWING \<and> now_ms \<ge> c_rebind_at_ms client)"

definition all_servers_and_relays :: bytes where
  "all_servers_and_relays = [0xff, 0x02, 0, 0, 0, 0, 0, 0, 0, 0, 0, 0, 0, 0x01, 0, 0x02]"

definition make_transmit ::
    "dhcpv6_transport \<Rightarrow> dhcpv6_transport_transmit \<Rightarrow> int \<times> dhcpv6_transport_transmit" where
  "make_transmit state transmit_out =
     (let kind = tx_kind (c_pending (t_client state)) in
      if \<not> transport_state_valid state \<or> c_pending_present (t_client state) \<noteq> 1
      then (RIN_DHCPV6_TRANSPORT_INVALID_ARGUMENT, transmit_out)
      else if kind \<noteq> RIN_DHCPV6_TRANSMIT_SOLICIT \<and> kind \<noteq> RIN_DHCPV6_TRANSMIT_REQUEST \<and>
              kind \<noteq> RIN_DHCPV6_TRANSMIT_RENEW \<and> kind \<noteq> RIN_DHCPV6_TRANSMIT_REBIND \<and>
              kind \<noteq> RIN_DHCPV6_TRANSMIT_INFORMATION_REQUEST
      then (RIN_DHCPV6_TRANSPORT_INVALID_STATE, transmit_out)
      else
        let transmit = zero_transport_transmit\<lparr>
              tt_version := RIN_DHCPV6_TRANSPORT_VERSION,
              tt_struct_size := sizeof_transport_transmit,
              tt_client_transmit := c_pending (t_client state),
              tt_source_port := DHCPV6_CLIENT_PORT,
              tt_destination_port := DHCPV6_SERVER_PORT,
              tt_source_mac := tc_mac (t_config state),
              tt_source_address := tc_source_address (t_config state)\<rparr>
        in if kind = RIN_DHCPV6_TRANSMIT_SOLICIT \<or> kind = RIN_DHCPV6_TRANSMIT_REBIND \<or>
              kind = RIN_DHCPV6_TRANSMIT_INFORMATION_REQUEST
           then (RIN_DHCPV6_TRANSPORT_PACKET_READY, transmit\<lparr>
                   tt_destination_is_multicast := 1,
                   tt_destination_address := all_servers_and_relays\<rparr>)
           else if t_server_address_present state \<noteq> 1 \<or>
                   \<not> ipv6_unicast_valid (t_server_address state)
           then (RIN_DHCPV6_TRANSPORT_INVALID_STATE, zero_transport_transmit)
           else (RIN_DHCPV6_TRANSPORT_PACKET_READY, transmit\<lparr>
                   tt_destination_address := t_server_address state\<rparr>))"

definition transport_transmit_valid :: "dhcpv6_transport_transmit \<Rightarrow> bool" where
  "transport_transmit_valid transmit =
     (tt_version transmit = RIN_DHCPV6_TRANSPORT_VERSION \<and>
      tt_struct_size transmit = sizeof_transport_transmit \<and>
      tt_source_port transmit = DHCPV6_CLIENT_PORT \<and>
      tt_destination_port transmit = DHCPV6_SERVER_PORT \<and>
      mac_valid (tt_source_mac transmit) \<and>
      (tt_destination_is_multicast transmit = 0 \<or> tt_destination_is_multicast transmit = 1) \<and>
      tt_reserved0 transmit = 0 \<and>
      ipv6_link_local_valid (tt_source_address transmit) \<and>
      ((tt_destination_is_multicast transmit = 1 \<and> tt_destination_address transmit ! 0 = 0xff) \<or>
       (tt_destination_is_multicast transmit = 0 \<and>
        ipv6_unicast_valid (tt_destination_address transmit))) \<and>
      tx_version (tt_client_transmit transmit) = RIN_DHCPV6_CLIENT_VERSION \<and>
      tx_struct_size (tt_client_transmit transmit) = sizeof_transmit \<and>
      tx_message_size (tt_client_transmit transmit) \<ge> 4 \<and>
      tx_message_size (tt_client_transmit transmit) \<le> 512)"

section \<open>Checksum\<close>

fun checksum_add :: "u32 \<Rightarrow> bytes \<Rightarrow> u32" where
  "checksum_add cksum (a # b # bytes) = checksum_add (cksum + (push_bit 8 (ucast a) OR ucast b)) bytes"
| "checksum_add cksum [a] = cksum + push_bit 8 (ucast a)"
| "checksum_add cksum [] = cksum"

lemma unat_halves:
  "unat ((x :: u32) AND 0xffff) = unat x mod 65536" "unat (drop_bit 16 x) = unat x div 65536"
  "unat ((x AND 0xffff) + drop_bit 16 x) = unat x mod 65536 + unat x div 65536"
proof -
  have "x AND 0xffff = take_bit 16 x" by (simp add: take_bit_eq_mask mask_eq_exp_minus_1)
  then have "unat (x AND 0xffff) = take_bit 16 (unat x)" by (simp only: unsigned_take_bit_eq)
  then show lo: "unat (x AND 0xffff) = unat x mod 65536" by (simp add: take_bit_eq_mod)
  show hi: "unat (drop_bit 16 x) = unat x div 65536"
    by (simp only: unsigned_drop_bit_eq) (simp add: drop_bit_eq_div take_bit_nat_eq_self unat_u32_less)
  have "unat x < 4294967296" by (rule unat_u32_less)
  then have "unat x mod 65536 + unat x div 65536 < 4294967296" by linarith
  then show "unat ((x AND 0xffff) + drop_bit 16 x) = unat x mod 65536 + unat x div 65536"
    using lo hi by (simp add: unat_add_lem [THEN iffD1])
qed

lemma checksum_fold_less:
  assumes "drop_bit 16 (x :: u32) \<noteq> 0"
  shows "unat ((x AND 0xffff) + drop_bit 16 x) < unat x"
proof -
  have "0 < unat x div 65536" using assms unat_halves(2) [of x] unat_gt_0 [of "drop_bit 16 x"] by linarith
  moreover have "unat x = 65536 * (unat x div 65536) + unat x mod 65536" by simp
  ultimately show ?thesis by (simp only: unat_halves)
qed

function checksum_fold :: "u32 \<Rightarrow> u32" where
  "checksum_fold cksum =
     (if drop_bit 16 cksum \<noteq> 0 then checksum_fold ((cksum AND 0xffff) + drop_bit 16 cksum) else cksum)"
  by pat_completeness auto
termination
  by (relation "measure unat") (simp_all add: checksum_fold_less)

declare checksum_fold.simps [simp del]

definition checksum_finish :: "u32 \<Rightarrow> u16" where
  "checksum_finish cksum =
     (let cksum = NOT (checksum_fold cksum) AND 0xffff in if cksum = 0 then 0xffff else ucast cksum)"

definition udp_checksum :: "bytes \<Rightarrow> bytes \<Rightarrow> bytes \<Rightarrow> u16" where
  "udp_checksum source destination udp =
     (let cksum = checksum_add 0 (take 16 source);
          cksum = checksum_add cksum (take 16 destination);
          cksum = checksum_add cksum (store_be32 (of_nat (length udp)));
          cksum = checksum_add cksum [0, 0, 0, DHCPV6_NEXT_HEADER_UDP];
          cksum = checksum_add cksum udp
      in checksum_finish cksum)"

section \<open>Operations\<close>

definition config_equal :: "dhcpv6_transport_config \<Rightarrow> dhcpv6_transport_config \<Rightarrow> bool" where
  "config_equal left right = (left = right)"

text \<open>The DUID-LL built from the hardware address.\<close>

definition transport_duid :: "dhcpv6_transport_config \<Rightarrow> bytes" where
  "transport_duid config = [0, 3, 0, 1] @ take 6 (tc_mac config)"

definition fresh_transport :: "dhcpv6_transport_config \<Rightarrow> dhcpv6_transport" where
  "fresh_transport config = zero_transport\<lparr>
     t_version := RIN_DHCPV6_TRANSPORT_VERSION, t_struct_size := sizeof_transport,
     t_initialized := 1, t_transport_generation := 1, t_config := config\<rparr>"

text \<open>The two calls of the client repeat the argument checks of \<open>rin_dhcpv6_client_init\<close>; the DUID is
  a local array, so it does not overlap the state.\<close>

definition transport_init ::
    "dhcpv6_transport \<Rightarrow> dhcpv6_transport_config \<Rightarrow> 'r random_fn \<Rightarrow> 'r \<Rightarrow>
     int \<times> dhcpv6_transport \<times> 'r" where
  "transport_init state config random_bytes context =
     (if \<not> config_valid config then (RIN_DHCPV6_TRANSPORT_INVALID_ARGUMENT, state, context)
      else case random_iaid random_bytes context of
        (None, context') \<Rightarrow> (RIN_DHCPV6_TRANSPORT_RANDOM_FAILURE, state, context')
      | (Some iaid, context') \<Rightarrow>
          let duid = transport_duid config in
          if \<not> duid_valid duid 10 \<or> iaid = 0 \<or> tc_interface_generation config = 0
          then (RIN_DHCPV6_TRANSPORT_INVALID_STATE, zero_transport, context')
          else case client_set_mode (client_init duid 10 iaid (tc_interface_generation config))
                      (tc_client_mode config) of
            (status, client) \<Rightarrow>
              if status \<noteq> RIN_DHCPV6_OK
              then (RIN_DHCPV6_TRANSPORT_INVALID_STATE, zero_transport, context')
              else (RIN_DHCPV6_TRANSPORT_OK, (fresh_transport config)\<lparr>t_client := client\<rparr>,
                    context'))"

definition transport_reconfigure ::
    "dhcpv6_transport \<Rightarrow> dhcpv6_transport_config \<Rightarrow> 'r random_fn \<Rightarrow> 'r \<Rightarrow>
     int \<times> dhcpv6_transport \<times> 'r" where
  "transport_reconfigure state config random_bytes context =
     (if \<not> config_valid config then (RIN_DHCPV6_TRANSPORT_INVALID_ARGUMENT, state, context)
      else if transport_state_valid state \<and> config_equal (t_config state) config
      then (RIN_DHCPV6_TRANSPORT_OK, state, context)
      else case transport_init state config random_bytes context of
        (result, state', context') \<Rightarrow>
          (if result = RIN_DHCPV6_TRANSPORT_OK then RIN_DHCPV6_TRANSPORT_RECONFIGURED else result,
           state', context'))"

definition transport_transaction_id ::
    "dhcpv6_transport \<Rightarrow> u64 \<Rightarrow> 'r random_fn \<Rightarrow> 'r \<Rightarrow> u32 option \<times> 'r" where
  "transport_transaction_id state now_ms random_bytes context =
     (if transmit_needs_new_transaction (t_client state) now_ms
      then random_transaction_id state random_bytes context else (Some 1, context))"

definition transport_prepare ::
    "dhcpv6_transport \<Rightarrow> u64 \<Rightarrow> 'r random_fn \<Rightarrow> 'r \<Rightarrow>
     int \<times> dhcpv6_transport \<times> dhcpv6_transport_transmit \<times> 'r" where
  "transport_prepare state now_ms random_bytes context =
     (if \<not> transport_state_valid state
      then (RIN_DHCPV6_TRANSPORT_INVALID_ARGUMENT, state, zero_transport_transmit, context)
      else if c_pending_present (t_client state) = 1
      then (case make_transmit state zero_transport_transmit of
              (status, transmit) \<Rightarrow> (status, state, transmit, context))
      else case transport_transaction_id state now_ms random_bytes context of
        (None, context') \<Rightarrow>
          (RIN_DHCPV6_TRANSPORT_RANDOM_FAILURE, state, zero_transport_transmit, context')
      | (Some transaction_id, context') \<Rightarrow>
          (case client_prepare (t_client state) transaction_id now_ms of
             (status, client, _) \<Rightarrow>
               let state = state\<lparr>t_client := client\<rparr>;
                   state = (if status = RIN_DHCPV6_LEASE_EXPIRED then clear_server_address state
                            else state)
               in if status \<noteq> RIN_DHCPV6_PACKET_READY
                  then (status, state, zero_transport_transmit, context')
                  else case make_transmit state zero_transport_transmit of
                    (status, transmit) \<Rightarrow> (status, state, transmit, context')))"

definition transport_complete_admitted ::
    "dhcpv6_transport \<Rightarrow> dhcpv6_transport_transmit \<Rightarrow> int \<Rightarrow> bool" where
  "transport_complete_admitted state transmit sent_successfully =
     (transport_state_valid state \<and> transport_transmit_valid transmit \<and>
      (sent_successfully = 0 \<or> sent_successfully = 1) \<and>
      byte_equal (tt_source_address transmit) (tc_source_address (t_config state)) 16 \<and>
      byte_equal (tt_source_mac transmit) (tc_mac (t_config state)) 6)"

definition transport_complete_transmit ::
    "dhcpv6_transport \<Rightarrow> dhcpv6_transport_transmit \<Rightarrow> int \<Rightarrow> int \<times> dhcpv6_transport" where
  "transport_complete_transmit state transmit sent_successfully =
     (if \<not> transport_complete_admitted state transmit sent_successfully
      then (RIN_DHCPV6_TRANSPORT_INVALID_ARGUMENT, state)
      else map_prod id (\<lambda>client. state\<lparr>t_client := client\<rparr>)
        (client_complete_transmit (t_client state) (tt_client_transmit transmit)
           sent_successfully))"

text \<open>The frame: Ethernet header, IPv6 header, UDP header, message. The checksum is computed over the
  datagram whose checksum field is still zero.\<close>

definition udp_datagram :: "dhcpv6_transport_transmit \<Rightarrow> u16 \<Rightarrow> bytes" where
  "udp_datagram transmit checksum =
     (let message_size = tx_message_size (tt_client_transmit transmit);
          udp_size = (8 :: u32) + message_size
      in store_be16 (tt_source_port transmit) @ store_be16 (tt_destination_port transmit) @
         store_be16 (ucast udp_size) @ store_be16 checksum @
         take (unat message_size) (tx_message (tt_client_transmit transmit)))"

definition transport_frame :: "dhcpv6_transport_transmit \<Rightarrow> bytes \<Rightarrow> bytes" where
  "transport_frame transmit destination_mac =
     (let udp_size = (8 :: u32) + tx_message_size (tt_client_transmit transmit);
          checksum = udp_checksum (tt_source_address transmit) (tt_destination_address transmit)
            (udp_datagram transmit 0)
      in take 6 destination_mac @ take 6 (tt_source_mac transmit) @
         store_be16 DHCPV6_ETHERTYPE_IPV6 @
         [0x60, 0, 0, 0] @ store_be16 (ucast udp_size) @
         [DHCPV6_NEXT_HEADER_UDP, DHCPV6_HOP_LIMIT] @
         take 16 (tt_source_address transmit) @ take 16 (tt_destination_address transmit) @
         udp_datagram transmit checksum)"

text \<open>The result is the status and, on success, the bytes written; the size stored in
  \<open>frame_size_out\<close> is their number, and zero on an error.\<close>

definition transport_serialize ::
    "dhcpv6_transport_transmit \<Rightarrow> bytes \<Rightarrow> u32 \<Rightarrow> int \<times> bytes" where
  "transport_serialize transmit destination_mac frame_capacity =
     (let payload_size = tx_message_size (tt_client_transmit transmit);
          udp_size = (8 :: u32) + payload_size;
          frame_size = (14 :: u32) + 40 + udp_size
      in if \<not> transport_transmit_valid transmit \<or> bytes_all_zero destination_mac 6 \<or>
            frame_capacity < frame_size \<or> frame_size > 574
         then (RIN_DHCPV6_TRANSPORT_INVALID_ARGUMENT, [])
         else (RIN_DHCPV6_TRANSPORT_OK, transport_frame transmit destination_mac))"
section \<open>Receiving\<close>

text \<open>A destination that is ours: the link-local address, or the leased address.\<close>

definition local_destination :: "dhcpv6_transport \<Rightarrow> bytes \<Rightarrow> bool" where
  "local_destination state destination_address =
     (byte_equal destination_address (tc_source_address (t_config state)) 16 \<or>
      (ipv6_unicast_valid (c_address (t_client state)) \<and>
       byte_equal destination_address (c_address (t_client state)) 16))"

definition datagram_envelope_valid ::
    "dhcpv6_transport \<Rightarrow> bytes \<Rightarrow> u16 \<Rightarrow> bytes \<Rightarrow> u16 \<Rightarrow> bytes \<Rightarrow> int" where
  "datagram_envelope_valid state source_address source_port destination_address
       destination_port message =
     (if \<not> transport_state_valid state then RIN_DHCPV6_TRANSPORT_INVALID_ARGUMENT
      else if length message < 4 \<or> length message > 512
      then RIN_DHCPV6_TRANSPORT_MALFORMED_FRAME
      else if source_port \<noteq> DHCPV6_SERVER_PORT \<or> destination_port \<noteq> DHCPV6_CLIENT_PORT \<or>
              \<not> ipv6_unicast_valid source_address
      then RIN_DHCPV6_TRANSPORT_NOT_FOR_US
      else if local_destination state destination_address then RIN_DHCPV6_TRANSPORT_OK
      else RIN_DHCPV6_TRANSPORT_NOT_FOR_US)"

text \<open>The part of a frame check that \<open>rin_dhcpv6_transport_receive_frame\<close> and
  \<open>rin_dhcpv6_transport_validate_reconfigure_frame\<close> have in common after the destination address:
  lengths, ports and checksum. The result is the UDP payload.\<close>

definition frame_payload :: "bytes \<Rightarrow> int + bytes" where
  "frame_payload frame =
     (let ipv6 = drop DHCPV6_ETHERNET_HEADER_SIZE frame;
          payload_size = unat (load_be16 (drop 4 ipv6));
          udp = drop DHCPV6_IPV6_HEADER_SIZE ipv6;
          udp_size = unat (load_be16 (drop 4 udp))
      in if payload_size < DHCPV6_UDP_HEADER_SIZE + 4 \<or>
            payload_size \<noteq> length frame - DHCPV6_ETHERNET_HEADER_SIZE - DHCPV6_IPV6_HEADER_SIZE
         then Inl RIN_DHCPV6_TRANSPORT_MALFORMED_FRAME
         else if udp_size \<noteq> payload_size \<or> load_be16 udp \<noteq> DHCPV6_SERVER_PORT \<or>
                 load_be16 (drop 2 udp) \<noteq> DHCPV6_CLIENT_PORT
         then Inl RIN_DHCPV6_TRANSPORT_NOT_FOR_US
         else if load_be16 (drop 6 udp) = 0
         then Inl RIN_DHCPV6_TRANSPORT_CHECKSUM_FAILURE
         else if udp_checksum (drop 8 ipv6) (drop 24 ipv6) (take udp_size udp) \<noteq> 0xffff
         then Inl RIN_DHCPV6_TRANSPORT_CHECKSUM_FAILURE
         else Inr (take (udp_size - DHCPV6_UDP_HEADER_SIZE) (drop DHCPV6_UDP_HEADER_SIZE udp)))"

definition frame_source :: "bytes \<Rightarrow> bytes" where
  "frame_source frame = take 16 (drop 8 (drop DHCPV6_ETHERNET_HEADER_SIZE frame))"

definition receive_frame_envelope :: "dhcpv6_transport \<Rightarrow> bytes \<Rightarrow> int + bytes" where
  "receive_frame_envelope state frame =
     (let ipv6 = drop DHCPV6_ETHERNET_HEADER_SIZE frame in
      if \<not> transport_state_valid state \<or>
         length frame < DHCPV6_ETHERNET_HEADER_SIZE + DHCPV6_IPV6_HEADER_SIZE +
           DHCPV6_UDP_HEADER_SIZE + 4
      then Inl RIN_DHCPV6_TRANSPORT_INVALID_ARGUMENT
      else if \<not> byte_equal frame (tc_mac (t_config state)) 6 \<or>
              load_be16 (drop 12 frame) \<noteq> DHCPV6_ETHERTYPE_IPV6
      then Inl RIN_DHCPV6_TRANSPORT_NOT_FOR_US
      else if drop_bit 4 (ipv6 ! 0) \<noteq> 6 \<or> ipv6 ! 6 \<noteq> DHCPV6_NEXT_HEADER_UDP \<or>
              ipv6 ! 7 \<noteq> DHCPV6_HOP_LIMIT \<or> \<not> ipv6_unicast_valid (drop 8 ipv6) \<or>
              \<not> byte_equal (drop 24 ipv6) (tc_source_address (t_config state)) 16
      then Inl RIN_DHCPV6_TRANSPORT_NOT_FOR_US
      else frame_payload frame)"

text \<open>What both entry points do with the verdict of the client: an accepted offer or lease fixes the
  address of the server.\<close>

definition learn_server :: "int \<Rightarrow> bytes \<Rightarrow> dhcpv6_transport \<Rightarrow> dhcpv6_transport" where
  "learn_server status source_address state =
     (if status = RIN_DHCPV6_OFFER_READY \<or> status = RIN_DHCPV6_LEASE_READY
      then state\<lparr>t_server_address := take 16 source_address, t_server_address_present := 1\<rparr>
      else state)"

definition deliver_message ::
    "dhcpv6_transport \<Rightarrow> bytes \<Rightarrow> bytes \<Rightarrow> u64 \<Rightarrow> int \<times> dhcpv6_transport" where
  "deliver_message state source_address message now_ms =
     (case client_receive (t_client state) message now_ms of
        (status, client) \<Rightarrow>
          (status, learn_server status source_address (state\<lparr>t_client := client\<rparr>)))"

definition transport_receive_frame ::
    "dhcpv6_transport \<Rightarrow> bytes \<Rightarrow> u64 \<Rightarrow> int \<times> dhcpv6_transport" where
  "transport_receive_frame state frame now_ms =
     (case receive_frame_envelope state frame of
        Inl status \<Rightarrow> (status, state)
      | Inr message \<Rightarrow> deliver_message state (frame_source frame) message now_ms)"

definition transport_receive_datagram ::
    "dhcpv6_transport \<Rightarrow> bytes \<Rightarrow> u16 \<Rightarrow> bytes \<Rightarrow> u16 \<Rightarrow> bytes \<Rightarrow> u64 \<Rightarrow>
     int \<times> dhcpv6_transport" where
  "transport_receive_datagram state source_address source_port destination_address
       destination_port message now_ms =
     (let status = datagram_envelope_valid state source_address source_port destination_address
            destination_port message
      in if status \<noteq> RIN_DHCPV6_TRANSPORT_OK then (status, state)
         else if message ! 0 = DHCPV6_MESSAGE_RECONFIGURE
         then (RIN_DHCPV6_TRANSPORT_NOT_FOR_US, state)
         else deliver_message state source_address message now_ms)"

text \<open>The validators return the borrowed message (\<^const>\<open>Inr\<close>), or a status (\<^const>\<open>Inl\<close>) with both
  output arguments cleared.\<close>

definition transport_validate_reconfigure_frame :: "dhcpv6_transport \<Rightarrow> bytes \<Rightarrow> int + bytes" where
  "transport_validate_reconfigure_frame state frame =
     (let ipv6 = drop DHCPV6_ETHERNET_HEADER_SIZE frame in
      if \<not> transport_state_valid state \<or>
         length frame < DHCPV6_ETHERNET_HEADER_SIZE + DHCPV6_IPV6_HEADER_SIZE +
           DHCPV6_UDP_HEADER_SIZE + 4
      then Inl RIN_DHCPV6_TRANSPORT_INVALID_ARGUMENT
      else if \<not> byte_equal frame (tc_mac (t_config state)) 6 \<or>
              load_be16 (drop 12 frame) \<noteq> DHCPV6_ETHERTYPE_IPV6
      then Inl RIN_DHCPV6_TRANSPORT_NOT_FOR_US
      else if drop_bit 4 (ipv6 ! 0) \<noteq> 6 \<or> ipv6 ! 6 \<noteq> DHCPV6_NEXT_HEADER_UDP \<or>
              ipv6 ! 7 \<noteq> DHCPV6_HOP_LIMIT \<or> \<not> ipv6_unicast_valid (drop 8 ipv6)
      then Inl RIN_DHCPV6_TRANSPORT_NOT_FOR_US
      else if \<not> local_destination state (drop 24 ipv6) then Inl RIN_DHCPV6_TRANSPORT_NOT_FOR_US
      else case frame_payload frame of
          Inl status \<Rightarrow> Inl status
        | Inr message \<Rightarrow>
            if message ! 0 \<noteq> DHCPV6_MESSAGE_RECONFIGURE then Inl RIN_DHCPV6_TRANSPORT_NOT_FOR_US
            else Inr message)"

definition transport_validate_reconfigure_datagram ::
    "dhcpv6_transport \<Rightarrow> bytes \<Rightarrow> u16 \<Rightarrow> bytes \<Rightarrow> u16 \<Rightarrow> bytes \<Rightarrow> int + bytes" where
  "transport_validate_reconfigure_datagram state source_address source_port destination_address
       destination_port message =
     (let status = datagram_envelope_valid state source_address source_port destination_address
            destination_port message
      in if status \<noteq> RIN_DHCPV6_TRANSPORT_OK then Inl status
         else if message ! 0 \<noteq> DHCPV6_MESSAGE_RECONFIGURE
         then Inl RIN_DHCPV6_TRANSPORT_NOT_FOR_US
         else Inr message)"

section \<open>Lease, stop, destroy\<close>

definition transport_get_lease ::
    "dhcpv6_transport \<Rightarrow> u64 \<Rightarrow> int \<times> dhcpv6_transport \<times> dhcpv6_lease" where
  "transport_get_lease state now_ms =
     (if \<not> transport_state_valid state
      then (RIN_DHCPV6_TRANSPORT_INVALID_ARGUMENT, state, zero_lease)
      else case client_get_lease (t_client state) now_ms of
        (status, client, lease) \<Rightarrow>
          let state = state\<lparr>t_client := client\<rparr>
          in (status,
              if status = RIN_DHCPV6_LEASE_EXPIRED then clear_server_address state else state,
              lease))"

definition transport_stop :: "dhcpv6_transport \<Rightarrow> int \<times> dhcpv6_transport" where
  "transport_stop state =
     (if \<not> transport_state_valid state then (RIN_DHCPV6_TRANSPORT_INVALID_ARGUMENT, state)
      else case client_stop (t_client state) of
        (status, client) \<Rightarrow>
          let state = state\<lparr>t_client := client\<rparr>
          in (status, if status = RIN_DHCPV6_OK then clear_server_address state else state))"

section \<open>The entry points\<close>

text \<open>The public functions on pointers. The client is the field at offset 72 of the state, the client
  message the field at offset 8 of a transmit, the DHCPv6 message starts at offset 62 of a frame:
  these are the addresses the overlap checks inside the client see. The other objects a caller
  passes are distinct.\<close>

definition client_pointer :: "dhcpv6_transport cptr \<Rightarrow> dhcpv6_client cptr" where
  "client_pointer state = (case state of Null \<Rightarrow> Null | Ptr a s \<Rightarrow> Ptr (a + 72) (t_client s))"

definition rin_dhcpv6_transport_state_valid :: "dhcpv6_transport cptr \<Rightarrow> bool" where
  "rin_dhcpv6_transport_state_valid state =
     (case state of Null \<Rightarrow> False | Ptr _ s \<Rightarrow> transport_state_valid s)"

definition rin_dhcpv6_transport_init ::
    "dhcpv6_transport cptr \<Rightarrow> dhcpv6_transport_config cptr \<Rightarrow> 'r random_fn option \<Rightarrow> 'r \<Rightarrow>
     int \<times> dhcpv6_transport cptr \<times> 'r" where
  "rin_dhcpv6_transport_init state config random_bytes context =
     (case (state, config, random_bytes) of
        (Ptr a s, Ptr _ c, Some random) \<Rightarrow>
          map_prod id (map_prod (Ptr a) id) (transport_init s c random context)
      | _ \<Rightarrow> (RIN_DHCPV6_TRANSPORT_INVALID_ARGUMENT, state, context))"

definition rin_dhcpv6_transport_reconfigure ::
    "dhcpv6_transport cptr \<Rightarrow> dhcpv6_transport_config cptr \<Rightarrow> 'r random_fn option \<Rightarrow> 'r \<Rightarrow>
     int \<times> dhcpv6_transport cptr \<times> 'r" where
  "rin_dhcpv6_transport_reconfigure state config random_bytes context =
     (case (state, config, random_bytes) of
        (Ptr a s, Ptr _ c, Some random) \<Rightarrow>
          map_prod id (map_prod (Ptr a) id) (transport_reconfigure s c random context)
      | _ \<Rightarrow> (RIN_DHCPV6_TRANSPORT_INVALID_ARGUMENT, state, context))"

definition rin_dhcpv6_transport_prepare ::
    "dhcpv6_transport cptr \<Rightarrow> u64 \<Rightarrow> 'r random_fn option \<Rightarrow> 'r \<Rightarrow>
     dhcpv6_transport_transmit cptr \<Rightarrow>
     int \<times> dhcpv6_transport cptr \<times> dhcpv6_transport_transmit cptr \<times> 'r" where
  "rin_dhcpv6_transport_prepare state now_ms random_bytes context transmit_out =
     (case (state, random_bytes, transmit_out) of
        (Ptr a s, Some random, Ptr t _) \<Rightarrow>
          (case transport_prepare s now_ms random context of
             (status, s', transmit, context') \<Rightarrow> (status, Ptr a s', Ptr t transmit, context'))
      | (_, _, Ptr t _) \<Rightarrow>
          (RIN_DHCPV6_TRANSPORT_INVALID_ARGUMENT, state, Ptr t zero_transport_transmit, context)
      | _ \<Rightarrow> (RIN_DHCPV6_TRANSPORT_INVALID_ARGUMENT, state, transmit_out, context))"

definition rin_dhcpv6_transport_complete_transmit ::
    "dhcpv6_transport cptr \<Rightarrow> dhcpv6_transport_transmit cptr \<Rightarrow> int \<Rightarrow>
     int \<times> dhcpv6_transport cptr" where
  "rin_dhcpv6_transport_complete_transmit state transmit sent_successfully =
     (case (state, transmit) of
        (Ptr a s, Ptr t tx) \<Rightarrow>
          if \<not> transport_complete_admitted s tx sent_successfully
          then (RIN_DHCPV6_TRANSPORT_INVALID_ARGUMENT, state)
          else (case rin_dhcpv6_client_complete_transmit (client_pointer state)
                       (Ptr (t + 8) (tt_client_transmit tx)) sent_successfully of
                  (status, client) \<Rightarrow> (status, Ptr a (s\<lparr>t_client := cptr_val client\<rparr>)))
      | _ \<Rightarrow> (RIN_DHCPV6_TRANSPORT_INVALID_ARGUMENT, state))"

definition rin_dhcpv6_transport_serialize ::
    "dhcpv6_transport_transmit cptr \<Rightarrow> bytes cptr \<Rightarrow> bytes cptr \<Rightarrow> u32 \<Rightarrow>
     int \<times> bytes cptr \<times> nat" where
  "rin_dhcpv6_transport_serialize transmit destination_mac frame_out frame_capacity =
     (case (transmit, destination_mac, frame_out) of
        (Ptr _ tx, Ptr _ mac, Ptr f old) \<Rightarrow>
          (case transport_serialize tx mac frame_capacity of
             (status, frame) \<Rightarrow> (status, Ptr f (byte_copy old 0 frame), length frame))
      | _ \<Rightarrow> (RIN_DHCPV6_TRANSPORT_INVALID_ARGUMENT, frame_out, 0))"

definition rin_dhcpv6_transport_receive_frame ::
    "dhcpv6_transport cptr \<Rightarrow> bytes cptr \<Rightarrow> u64 \<Rightarrow> int \<times> dhcpv6_transport cptr" where
  "rin_dhcpv6_transport_receive_frame state frame now_ms =
     (case (state, frame) of
        (Ptr a s, Ptr f bs) \<Rightarrow>
          (case receive_frame_envelope s bs of
             Inl status \<Rightarrow> (status, state)
           | Inr message \<Rightarrow>
               (case rin_dhcpv6_client_receive (client_pointer state) (Ptr (f + 62) message)
                       now_ms of
                  (status, client) \<Rightarrow>
                    (status, Ptr a (learn_server status (frame_source bs)
                                      (s\<lparr>t_client := cptr_val client\<rparr>)))))
      | _ \<Rightarrow> (RIN_DHCPV6_TRANSPORT_INVALID_ARGUMENT, state))"

definition rin_dhcpv6_transport_receive_datagram ::
    "dhcpv6_transport cptr \<Rightarrow> bytes cptr \<Rightarrow> u16 \<Rightarrow> bytes cptr \<Rightarrow> u16 \<Rightarrow> bytes cptr \<Rightarrow> u64 \<Rightarrow>
     int \<times> dhcpv6_transport cptr" where
  "rin_dhcpv6_transport_receive_datagram state source_address source_port destination_address
       destination_port message now_ms =
     (case (state, source_address, destination_address, message) of
        (Ptr a s, Ptr _ source, Ptr _ destination, Ptr m bs) \<Rightarrow>
          let status = datagram_envelope_valid s source source_port destination destination_port bs
          in if status \<noteq> RIN_DHCPV6_TRANSPORT_OK then (status, state)
             else if bs ! 0 = DHCPV6_MESSAGE_RECONFIGURE
             then (RIN_DHCPV6_TRANSPORT_NOT_FOR_US, state)
             else (case rin_dhcpv6_client_receive (client_pointer state) message now_ms of
                     (status, client) \<Rightarrow>
                       (status, Ptr a (learn_server status source
                                         (s\<lparr>t_client := cptr_val client\<rparr>))))
      | _ \<Rightarrow> (RIN_DHCPV6_TRANSPORT_INVALID_ARGUMENT, state))"

definition rin_dhcpv6_transport_validate_datagram ::
    "dhcpv6_transport cptr \<Rightarrow> bytes cptr \<Rightarrow> u16 \<Rightarrow> bytes cptr \<Rightarrow> u16 \<Rightarrow> bytes cptr \<Rightarrow> int" where
  "rin_dhcpv6_transport_validate_datagram state source_address source_port destination_address
       destination_port message =
     (case (state, source_address, destination_address, message) of
        (Ptr _ s, Ptr _ source, Ptr _ destination, Ptr _ bs) \<Rightarrow>
          datagram_envelope_valid s source source_port destination destination_port bs
      | _ \<Rightarrow> RIN_DHCPV6_TRANSPORT_INVALID_ARGUMENT)"

definition rin_dhcpv6_transport_get_lease ::
    "dhcpv6_transport cptr \<Rightarrow> u64 \<Rightarrow> dhcpv6_lease cptr \<Rightarrow>
     int \<times> dhcpv6_transport cptr \<times> dhcpv6_lease cptr" where
  "rin_dhcpv6_transport_get_lease state now_ms lease_out =
     (if memory_overlaps (ptr_address state) (ucast sizeof_transport)
           (ptr_address lease_out) (ucast sizeof_lease)
      then (RIN_DHCPV6_TRANSPORT_INVALID_ARGUMENT, state, lease_out)
      else case (state, lease_out) of
        (Ptr a s, Ptr l _) \<Rightarrow>
          (case transport_get_lease s now_ms of
             (status, s', lease) \<Rightarrow> (status, Ptr a s', Ptr l lease))
      | (Null, Ptr l _) \<Rightarrow> (RIN_DHCPV6_TRANSPORT_INVALID_ARGUMENT, state, Ptr l zero_lease)
      | _ \<Rightarrow> (RIN_DHCPV6_TRANSPORT_INVALID_ARGUMENT, state, lease_out))"

definition rin_dhcpv6_transport_stop :: "dhcpv6_transport cptr \<Rightarrow> int \<times> dhcpv6_transport cptr" where
  "rin_dhcpv6_transport_stop state =
     (case state of
        Null \<Rightarrow> (RIN_DHCPV6_TRANSPORT_INVALID_ARGUMENT, state)
      | Ptr a s \<Rightarrow> map_prod id (Ptr a) (transport_stop s))"

definition rin_dhcpv6_transport_destroy :: "dhcpv6_transport cptr \<Rightarrow> dhcpv6_transport cptr" where
  "rin_dhcpv6_transport_destroy state =
     (case state of Null \<Rightarrow> Null | Ptr a _ \<Rightarrow> Ptr a zero_transport)"

end
