(* ===== verification/Dhcpv6_Transport_Spec.thy ===== *)
theory Dhcpv6_Transport_Spec
  imports Dhcpv6_Transport Dhcpv6_Client_Spec
begin

text \<open>
  Properties of the transport: the Internet checksum as arithmetic modulo 65535, frames that verify,
  the invariant of the transport around its client, and the composition of preparing, serialising
  and completing a message.
\<close>

section \<open>The checksum as a number\<close>
















section \<open>Frames\<close>

definition wf_transport_transmit :: "dhcpv6_transport_transmit \<Rightarrow> bool" where
  "wf_transport_transmit t = (length (tt_source_mac t) = 6 \<and> length (tt_source_address t) = 16 \<and>
     length (tt_destination_address t) = 16 \<and> wf_transmit (tt_client_transmit t))"

definition transmit_message :: "dhcpv6_transport_transmit \<Rightarrow> bytes" where
  "transmit_message t =
     take (unat (tx_message_size (tt_client_transmit t))) (tx_message (tt_client_transmit t))"

lemma transmit_sizes:
  assumes "wf_transport_transmit t" and "transport_transmit_valid t"
  shows "4 \<le> length (transmit_message t)" "length (transmit_message t) \<le> 512"
    "unat (tx_message_size (tt_client_transmit t)) = length (transmit_message t)"
    "unat (ucast (8 + tx_message_size (tt_client_transmit t)) :: u16) = 8 + length (transmit_message t)"
    "unat (14 + 40 + (8 + tx_message_size (tt_client_transmit t))) = 62 + length (transmit_message t)"
proof -
  let ?n = "tx_message_size (tt_client_transmit t)"
  have n: "4 \<le> unat ?n" "unat ?n \<le> 512"
    using assms(2) by (simp_all add: transport_transmit_valid_def word_le_nat_alt)
  moreover have "length (tx_message (tt_client_transmit t)) = 512"
    using assms(1) by (simp add: wf_transport_transmit_def wf_transmit_def)
  ultimately show "4 \<le> length (transmit_message t)" "length (transmit_message t) \<le> 512"
    "unat ?n = length (transmit_message t)"
    by (simp_all add: transmit_message_def)
  with n have "unat (8 + ?n) = 8 + length (transmit_message t)"
    "unat (62 + ?n) = 62 + length (transmit_message t)"
    by (simp_all add: unat_add_lem [THEN iffD1])
  with n(2) show "unat (ucast (8 + ?n) :: u16) = 8 + length (transmit_message t)"
    "unat (14 + 40 + (8 + ?n)) = 62 + length (transmit_message t)"
    by (simp_all add: unsigned_ucast_eq take_bit_nat_eq_self \<open>unat ?n = _\<close>)
qed





section \<open>Fresh transaction identifiers\<close>

text \<open>The transport and the client agree on when a new exchange begins: for a valid client the
  transport draws a fresh transaction identifier exactly when the client's own decision asks for
  one.\<close>

theorem needs_new_transaction_agrees:
  assumes "client_valid c" and "prepare_kind c now_ms = Some (kind, fresh)"
  shows "transmit_needs_new_transaction c now_ms = fresh"
proof -
  have t: "client_transaction_valid c" and l: "client_lease_valid c" and f: "client_fields_valid c"
    using client_validD [OF assms(1)] by simp_all
  have idle: "c_state c = 0 \<Longrightarrow> client_startup_delayed c \<longleftrightarrow> c_transaction_id c \<noteq> 0"
    using t by (auto simp: client_transaction_valid_def client_startup_delayed_def)
  have bound: "c_state c = 4 \<Longrightarrow> c_renew_at_ms c \<le> c_rebind_at_ms c"
    using l by (auto simp: client_lease_valid_def client_has_lease_def client_state_has_lease_def Let_def
        client_state_has_address_def split: if_splits)
  have "c_state c \<le> 10" using f by (simp add: client_fields_valid_def not_less)
  show ?thesis
  proof (cases "c_state c = 4")
    case True
    then show ?thesis using assms(2) bound [OF True]
      by (auto simp: prepare_kind_def transmit_needs_new_transaction_def Let_def split: if_splits)
  next
    case False
    then show ?thesis using assms(2) idle
      by (auto simp: prepare_kind_def transmit_needs_new_transaction_def Let_def split: if_splits)
  qed
qed

theorem needs_new_transaction_agrees_witness:
  "transmit_needs_new_transaction sample_bound 4000000 = True"
proof (rule needs_new_transaction_agrees)
  show "client_valid sample_bound" using sample_inv(3) by (rule client_invD)
  show "prepare_kind sample_bound 4000000 = Some (RIN_DHCPV6_TRANSMIT_RENEW, True)" by code_simp
qed

lemma random_transaction_id_loop_ok:
  "random_transaction_id_loop n current random ctx = (Some v, ctx') \<Longrightarrow>
     v \<noteq> 0 \<and> v \<noteq> current \<and> v \<le> 0x00ffffff"
proof (induction n arbitrary: ctx)
  case (Suc n)
  show ?case
  proof (cases "random ctx 3")
    case (Pair r ctx2)
    have "load_xid (0 # bytes) \<le> 0x00ffffff" for bytes :: bytes by (rule load_xid_le)
    then have "push_bit 16 (ucast (bytes ! 0)) OR push_bit 8 (ucast (bytes ! 1)) OR ucast (bytes ! 2) \<le> (0x00ffffff :: u32)"
      for bytes :: bytes
      by (simp add: load_xid_def)
    with Suc Pair show ?thesis by (auto simp: Let_def split: option.splits if_splits)
  qed
qed simp

lemma random_iaid_loop_ok:
  "random_iaid_loop n random ctx = (Some v, ctx') \<Longrightarrow> v \<noteq> 0"
  by (induction n arbitrary: ctx) (auto simp: Let_def split: option.splits if_splits prod.splits)

section \<open>The invariant\<close>

text \<open>The states in which a message goes to the chosen server.\<close>

definition server_needed :: "dhcpv6_client \<Rightarrow> bool" where
  "server_needed c = (c_state c = RIN_DHCPV6_STATE_ADVERTISED \<or> c_state c = RIN_DHCPV6_STATE_REQUESTING \<or>
     c_state c = RIN_DHCPV6_STATE_BOUND \<or> c_state c = RIN_DHCPV6_STATE_RENEWING)"

definition wf_transport :: "dhcpv6_transport \<Rightarrow> bool" where
  "wf_transport s = (length (tc_mac (t_config s)) = 6 \<and>
     length (tc_source_address (t_config s)) = 16 \<and> length (t_server_address s) = 16)"

definition transport_inv :: "dhcpv6_transport \<Rightarrow> bool" where
  "transport_inv s = (transport_state_valid s \<and> wf_transport s \<and> client_inv (t_client s) \<and>
     (server_needed (t_client s) \<longrightarrow> t_server_address_present s = 1))"

lemma server_needed_idle: "c_state c = RIN_DHCPV6_STATE_IDLE \<Longrightarrow> \<not> server_needed c"
  by (simp add: server_needed_def)

lemma clear_dynamic_state [simp]: "c_state (clear_dynamic c) = RIN_DHCPV6_STATE_IDLE"
  by (simp add: clear_dynamic_def clear_pending_def)

lemma expire_lease_state:
  "c_state (snd (expire_lease c)) = c_state c \<or> c_state (snd (expire_lease c)) = RIN_DHCPV6_STATE_IDLE"
  by (simp add: expire_lease_cases)

lemma prepare_state:
  assumes "client_prepare c new_id now_ms = (st, c', t)"
  shows "c_state c' = c_state c \<or> c_state c' = RIN_DHCPV6_STATE_IDLE"
proof -
  have m: "c_state (fst (snd (prepare_message d k i n))) = c_state d" for d k i n
    by (simp add: prepare_message_def Let_def split: sum.split)
  then have "c_state (fst (snd (prepare_transaction c k f i n))) = c_state c" for k f i n
    by (simp add: prepare_transaction_def prepare_startup_def Let_def)
  then show ?thesis
    using assms by (auto simp: client_prepare_def expire_lease_cases split: if_splits option.splits prod.splits)
      (metis fst_conv snd_conv)+
qed

lemma complete_server_needed:
  assumes "client_complete_transmit c t sent = (st, c')" and "server_needed c'"
  shows "server_needed c"
proof -
  have cp: "c_state (clear_pending d) = c_state d" for d by (simp add: clear_pending_def)
  have tr: "server_needed c" if "complete_transition c k x = Some (s, e, b)" "s = 2 \<or> s = 3 \<or> s = 4 \<or> s = 5" for k x s e b
    using that complete_transition_cases [of c k x s e] complete_repeat_cases [of c k x s e]
    by (cases b) (auto simp: server_needed_def)
  have "server_needed c" if "complete_transition c (tx_kind t) (load_xid (tx_message t)) = None \<or> sent = 0"
    using assms that by (auto simp: client_complete_transmit_def server_needed_def cp split: if_splits)
  moreover have "server_needed c"
    if s: "complete_transition c (tx_kind t) (load_xid (tx_message t)) = Some (s, e, b)" for s e b
  proof (rule ccontr)
    assume "\<not> server_needed c"
    with tr [OF s] have "s \<noteq> 2 \<and> s \<noteq> 3 \<and> s \<noteq> 4 \<and> s \<noteq> 5" by blast
    with \<open>\<not> server_needed c\<close> s assms show False
      by (auto simp: client_complete_transmit_def server_needed_def Let_def cp complete_retransmission_def
          schedule_initial_retry_def schedule_later_retry_def advance_generation_def split: if_splits option.splits)
  qed
  ultimately show ?thesis by (cases "complete_transition c (tx_kind t) (load_xid (tx_message t))") auto
qed

lemma get_lease_state:
  "client_get_lease c now_ms = (st, c', l) \<Longrightarrow> c_state c' = c_state c \<or> c_state c' = RIN_DHCPV6_STATE_IDLE"
  by (auto simp: client_get_lease_def expire_lease_cases Let_def split: if_splits prod.splits)

lemma stop_state:
  "client_stop c = (st, c') \<Longrightarrow> c_state c' = c_state c \<or> c_state c' = RIN_DHCPV6_STATE_IDLE"
  by (auto simp: client_stop_def Let_def split: if_splits option.splits)

lemma request_server_needed:
  "client_request_reconfigure c k now_ms = (st, c') \<Longrightarrow> server_needed c' \<Longrightarrow> server_needed c"
  by (auto simp: client_request_reconfigure_def expire_lease_cases server_needed_def Let_def split: if_splits)

section \<open>The reachable states\<close>

text \<open>The operations of \<open>rin_dhcpv6_transport.c\<close> as a transition system over an arbitrary random
  source. The last rule is the call \<open>rin_dhcpv6_client_request_reconfigure\<close> on the embedded client that
  follows an authenticated Reconfigure. The side conditions leave out the two calls that put the
  client into a state its own validity check rejects.\<close>

inductive transport_reachable :: "'r random_fn \<Rightarrow> dhcpv6_transport \<Rightarrow> bool" for random where
  init: "transport_init s config random ctx = (RIN_DHCPV6_TRANSPORT_OK, s', ctx') \<Longrightarrow>
    length (tc_mac config) = 6 \<Longrightarrow> length (tc_source_address config) = 16 \<Longrightarrow> transport_reachable random s'"
| reconfigure: "transport_reachable random s \<Longrightarrow> transport_reconfigure s config random ctx = (st, s', ctx') \<Longrightarrow>
    length (tc_mac config) = 6 \<Longrightarrow> length (tc_source_address config) = 16 \<Longrightarrow> transport_reachable random s'"
| prepare: "transport_reachable random s \<Longrightarrow> transport_prepare s now_ms random ctx = (st, s', t, ctx') \<Longrightarrow>
    transport_reachable random s'"
| complete: "transport_reachable random s \<Longrightarrow> transport_complete_transmit s t sent = (st, s') \<Longrightarrow>
    transport_reachable random s'"
| frame: "transport_reachable random s \<Longrightarrow> transport_receive_frame s frame now_ms = (st, s') \<Longrightarrow>
    \<not> (st < 0 \<and> retry_above_limit (t_client s')) \<Longrightarrow> transport_reachable random s'"
| datagram: "transport_reachable random s \<Longrightarrow>
    transport_receive_datagram s source sport destination dport message now_ms = (st, s') \<Longrightarrow>
    length source = 16 \<Longrightarrow> \<not> (st < 0 \<and> retry_above_limit (t_client s')) \<Longrightarrow> transport_reachable random s'"
| lease: "transport_reachable random s \<Longrightarrow> transport_get_lease s now_ms = (st, s', l) \<Longrightarrow>
    transport_reachable random s'"
| stop: "transport_reachable random s \<Longrightarrow> transport_stop s = (st, s') \<Longrightarrow> transport_reachable random s'"
| request: "transport_reachable random s \<Longrightarrow>
    client_request_reconfigure (t_client s) kind now_ms = (st, c') \<Longrightarrow>
    \<not> renew_after_rebind (t_client s) kind now_ms \<Longrightarrow> transport_reachable random (s\<lparr>t_client := c'\<rparr>)"

lemma bytes_all_zero_zero [simp]: "bytes_all_zero (zero_bytes m) n"
  by (simp add: bytes_all_zero_def byte_accumulate_eq_0 zero_bytes_def)

lemma transport_invD:
  assumes "transport_inv s"
  shows "transport_state_valid s" "wf_transport s" "client_inv (t_client s)" "config_valid (t_config s)"
    "server_needed (t_client s) \<Longrightarrow> t_server_address_present s = 1"
  using assms by (simp_all add: transport_inv_def transport_state_valid_def)

lemma transport_inv_client:
  assumes "transport_inv s" and "client_inv c" and "server_needed c \<Longrightarrow> server_needed (t_client s)"
  shows "transport_inv (s\<lparr>t_client := c\<rparr>)"
  using assms client_invD(2) [OF assms(2)]
  by (simp add: transport_inv_def transport_state_valid_def wf_transport_def split: if_splits)

lemma transport_inv_clear:
  assumes "transport_inv s" and "client_inv c" and "\<not> server_needed c"
  shows "transport_inv (clear_server_address (s\<lparr>t_client := c\<rparr>))"
  using assms client_invD(2) [OF assms(2)]
  by (simp add: transport_inv_def transport_state_valid_def wf_transport_def clear_server_address_def
      split: if_splits)

lemma transport_inv_learn:
  assumes "transport_inv s" and "client_inv c" and "length source = 16" and "ipv6_unicast_valid source"
  shows "transport_inv (s\<lparr>t_client := c, t_server_address := source, t_server_address_present := 1\<rparr>)"
  using assms client_invD(2) [OF assms(2)]
  by (simp add: transport_inv_def transport_state_valid_def wf_transport_def split: if_splits)

lemma server_needed_keep: "c_state c' = c_state c \<or> c_state c' = RIN_DHCPV6_STATE_IDLE \<Longrightarrow> server_needed c' \<Longrightarrow> server_needed c"
  by (auto simp: server_needed_def)

lemma transport_duid_valid: "config_valid config \<Longrightarrow> length (tc_mac config) = 6 \<Longrightarrow>
    duid_valid (transport_duid config) 10 \<and> length (transport_duid config) = 10"
  by (simp add: transport_duid_def duid_valid_def Let_def load_be16_def byte_accumulate_eq_0)

lemma word_le_1: "(x :: u32) \<le> 1 \<Longrightarrow> x = 0 \<or> x = 1"
  by (auto simp: word_le_nat_alt word_unat_eq_iff)

text \<open>Initialisation with a valid configuration either succeeds or fails for want of random bytes.\<close>

lemma transport_init_cases:
  assumes "length (tc_mac config) = 6" and "length (tc_source_address config) = 16"
    and "transport_init s config random ctx = (st, s', ctx')"
  shows "st = RIN_DHCPV6_TRANSPORT_OK \<and> transport_inv s' \<and> t_config s' = config \<or>
    (st = RIN_DHCPV6_TRANSPORT_INVALID_ARGUMENT \<and> \<not> config_valid config \<or>
     st = RIN_DHCPV6_TRANSPORT_RANDOM_FAILURE) \<and> s' = s"
proof (cases "config_valid config")
  case True
  show ?thesis
  proof (cases "fst (random_iaid random ctx)")
    case (Some iaid)
    then have "iaid \<noteq> 0" by (metis prod.collapse random_iaid_def random_iaid_loop_ok)
    let ?c = "client_init (transport_duid config) 10 iaid (tc_interface_generation config)"
    have inv: "client_inv ?c"
      using True \<open>iaid \<noteq> 0\<close> transport_duid_valid [OF True assms(1)]
      by (intro client_init_inv) (simp_all add: config_valid_def)
    have mode: "fst (client_set_mode ?c (tc_client_mode config)) = RIN_DHCPV6_OK"
      using True client_invD(2) [OF inv] word_le_1 [of "tc_client_mode config"]
      by (simp add: client_set_mode_def config_valid_def client_init_def zero_client_def)
    have "\<not> server_needed (snd (client_set_mode ?c (tc_client_mode config)))"
      by (simp add: client_set_mode_def client_init_def server_needed_def Let_def)
    with True Some \<open>iaid \<noteq> 0\<close> mode assms client_set_mode_inv [OF inv, of "tc_client_mode config"]
      transport_duid_valid [OF True assms(1)]
    show ?thesis
      by (auto simp: transport_init_def Let_def transport_inv_def transport_state_valid_def client_invD
          wf_transport_def fresh_transport_def zero_transport_def config_valid_def
          split: prod.splits option.splits if_splits)
  qed (use assms True in \<open>auto simp: transport_init_def split: prod.splits option.splits\<close>)
qed (use assms in \<open>simp add: transport_init_def\<close>)

lemma transport_reconfigure_inv:
  assumes "transport_inv s" and "length (tc_mac config) = 6" and "length (tc_source_address config) = 16"
    and "transport_reconfigure s config random ctx = (st, s', ctx')"
  shows "transport_inv s'"
  using assms transport_init_cases [OF assms(2,3), of s random ctx]
  by (auto simp: transport_reconfigure_def split: if_splits prod.splits)

lemma transport_prepare_inv:
  assumes "transport_inv s" and "transport_prepare s now_ms random ctx = (st, s', t, ctx')"
  shows "transport_inv s'"
proof -
  note inv = transport_invD [OF assms(1)]
  have step: "transport_inv (s\<lparr>t_client := c\<rparr>) \<and>
      (p = RIN_DHCPV6_LEASE_EXPIRED \<longrightarrow> transport_inv (clear_server_address (s\<lparr>t_client := c\<rparr>)))"
    if "client_prepare (t_client s) i now_ms = (p, c, tx)" for i p c tx
  proof -
    have c: "client_inv c" using client_prepare_inv [OF inv(3), of i now_ms] that by simp
    have "p = RIN_DHCPV6_LEASE_EXPIRED \<Longrightarrow> \<not> server_needed c"
      using that by (auto dest!: prepare_expired simp: server_needed_idle)
    with c server_needed_keep [OF prepare_state [OF that]] show ?thesis
      by (auto intro: transport_inv_client transport_inv_clear assms(1))
  qed
  show ?thesis
    using assms step
    by (auto simp: transport_prepare_def Let_def split: if_splits prod.splits option.splits)
qed

lemma transport_complete_inv:
  assumes "transport_inv s" and "transport_complete_transmit s t sent = (st, s')"
  shows "transport_inv s'"
proof -
  obtain p c where c: "client_complete_transmit (t_client s) (tt_client_transmit t) sent = (p, c)" by fastforce
  have "client_inv c"
    using client_complete_transmit_inv [OF transport_invD(3) [OF assms(1)]] c by (metis snd_conv)
  then have "transport_inv (s\<lparr>t_client := c\<rparr>)"
    using complete_server_needed [OF c] by (rule transport_inv_client [OF assms(1)])
  with assms c show ?thesis by (auto simp: transport_complete_transmit_def split: if_splits)
qed

lemma deliver_inv:
  assumes "transport_inv s" and "deliver_message s source message now_ms = (st, s')"
    and "length source = 16" and "ipv6_unicast_valid source" and "\<not> (st < 0 \<and> retry_above_limit (t_client s'))"
  shows "transport_inv s'"
proof -
  obtain c where c: "client_receive (t_client s) message now_ms = (st, c)"
    and s': "s' = learn_server st source (s\<lparr>t_client := c\<rparr>)"
    using assms(2) by (auto simp: deliver_message_def split: prod.splits)
  have inv: "client_inv c"
    using client_receive_cases [OF transport_invD(3) [OF assms(1)] c] assms(5) s' by (auto simp: learn_server_def)
  show ?thesis
  proof (cases "st > 0")
    case True
    then have "s' = s\<lparr>t_client := c, t_server_address := source, t_server_address_present := 1\<rparr>"
      using s' receive_state(2) [OF c] assms(3) by (auto simp: learn_server_def)
    with transport_inv_learn [OF assms(1) inv assms(3,4)] show ?thesis by simp
  next
    case False
    then have "s' = s\<lparr>t_client := c\<rparr>" "c_state c = c_state (t_client s)"
      using s' receive_state(1) [OF c] by (auto simp: learn_server_def)
    with transport_inv_client [OF assms(1) inv] show ?thesis by (simp add: server_needed_def)
  qed
qed

lemma frame_source_valid:
  assumes "receive_frame_envelope s frame = Inr m"
  shows "length (frame_source frame) = 16" and "ipv6_unicast_valid (frame_source frame)"
    and "transport_state_valid s" and "frame_payload frame = Inr m"
    and "byte_equal (drop 24 (drop 14 frame)) (tc_source_address (t_config s)) 16"
  using assms by (auto simp: receive_frame_envelope_def frame_source_def Let_def ipv6_unicast_valid_def
      bytes_all_zero_def split: if_splits)

lemma transport_frame_inv:
  assumes "transport_inv s" and "transport_receive_frame s frame now_ms = (st, s')"
    and "\<not> (st < 0 \<and> retry_above_limit (t_client s'))"
  shows "transport_inv s'"
proof (cases "receive_frame_envelope s frame")
  case (Inr m)
  with assms have "deliver_message s (frame_source frame) m now_ms = (st, s')"
    by (simp add: transport_receive_frame_def)
  from deliver_inv [OF assms(1) this frame_source_valid(1,2) [OF Inr] assms(3)] show ?thesis .
qed (use assms in \<open>simp add: transport_receive_frame_def\<close>)

lemma transport_datagram_inv:
  assumes "transport_inv s" and "transport_receive_datagram s source sport destination dport m now_ms = (st, s')"
    and "length source = 16" and "\<not> (st < 0 \<and> retry_above_limit (t_client s'))"
  shows "transport_inv s'"
proof (cases "s' = s")
  case False
  with assms(2) have "deliver_message s source m now_ms = (st, s')" "ipv6_unicast_valid source"
    by (auto simp: transport_receive_datagram_def datagram_envelope_valid_def Let_def split: if_splits)
  from deliver_inv [OF assms(1) this(1) assms(3) this(2) assms(4)] show ?thesis .
qed (use assms(1) in simp)

lemma transport_lease_inv:
  assumes "transport_inv s" and "transport_get_lease s now_ms = (st, s', l)"
  shows "transport_inv s'"
proof -
  obtain p c k where c: "client_get_lease (t_client s) now_ms = (p, c, k)" by (metis prod_cases3)
  have inv: "client_inv c"
    using client_get_lease_inv [OF transport_invD(3) [OF assms(1)], of now_ms] c by simp
  have "p = RIN_DHCPV6_LEASE_EXPIRED \<Longrightarrow> \<not> server_needed c"
    using c by (auto simp: client_get_lease_def expire_lease_cases server_needed_idle Let_def
        split: if_splits prod.splits)
  with transport_inv_clear [OF assms(1) inv]
    transport_inv_client [OF assms(1) inv server_needed_keep [OF get_lease_state [OF c]]] assms c
  show ?thesis by (auto simp: transport_get_lease_def Let_def split: if_splits)
qed

lemma transport_stop_inv:
  assumes "transport_inv s" and "transport_stop s = (st, s')"
  shows "transport_inv s'"
proof -
  obtain p c where c: "client_stop (t_client s) = (p, c)" by fastforce
  have inv: "client_inv c" using client_stop_inv [OF transport_invD(3) [OF assms(1)]] c by (metis snd_conv)
  have "p = RIN_DHCPV6_OK \<Longrightarrow> \<not> server_needed c"
    using c by (auto simp: client_stop_def server_needed_idle Let_def split: if_splits option.splits)
  with transport_inv_clear [OF assms(1) inv]
    transport_inv_client [OF assms(1) inv server_needed_keep [OF stop_state [OF c]]] assms c
  show ?thesis by (auto simp: transport_stop_def Let_def split: if_splits)
qed

lemma transport_request_inv:
  assumes "transport_inv s" and "client_request_reconfigure (t_client s) kind now_ms = (st, c')"
    and "\<not> renew_after_rebind (t_client s) kind now_ms"
  shows "transport_inv (s\<lparr>t_client := c'\<rparr>)"
  using client_request_reconfigure_inv [OF transport_invD(3) [OF assms(1)] assms(3)] assms(2)
    request_server_needed [OF assms(2)]
  by (intro transport_inv_client [OF assms(1)]) auto

lemma reachable_transport_inv: "transport_reachable random s \<Longrightarrow> transport_inv s"
proof (induction rule: transport_reachable.induct)
  case (init s config ctx s' ctx')
  then show ?case using transport_init_cases by fastforce
qed (blast intro: transport_reconfigure_inv transport_prepare_inv transport_complete_inv transport_frame_inv
    transport_datagram_inv transport_lease_inv transport_stop_inv transport_request_inv)+


section \<open>A sample exchange over the transport\<close>

definition sample_random :: "u8 random_fn" where
  "sample_random ctx n = (Some (zero_bytes (n - 1) @ [ctx]), ctx + 1)"

definition sample_config :: dhcpv6_transport_config where
  "sample_config = zero_transport_config\<lparr>tc_version := RIN_DHCPV6_TRANSPORT_VERSION,
     tc_struct_size := sizeof_transport_config, tc_interface_generation := 1,
     tc_mac := drop 4 sample_duid, tc_source_address := [0xfe, 0x80] @ zero_bytes 13 @ [1]\<rparr>"

definition sample_started :: dhcpv6_transport where
  "sample_started = (fresh_transport sample_config)\<lparr>t_client := sample_start\<rparr>"

definition sample_server_address :: bytes where
  "sample_server_address = [0xfe, 0x80] @ zero_bytes 13 @ [2]"

definition sample_advertise :: "dhcpv6_transport \<Rightarrow> u64 \<Rightarrow> int \<times> dhcpv6_transport" where
  "sample_advertise s now_ms = transport_receive_datagram s sample_server_address DHCPV6_SERVER_PORT
     (tc_source_address sample_config) DHCPV6_CLIENT_PORT
     (sample_message DHCPV6_MESSAGE_ADVERTISE [0, 0, 8]) now_ms"

lemma sample_started_init:
  "transport_init zero_transport sample_config sample_random 7 = (RIN_DHCPV6_TRANSPORT_OK, sample_started, 8)"
  by code_simp

text \<open>The states after the start-up delay was drawn, after the Solicit was sent, and after the
  Advertise of the server.\<close>

definition sample_waiting :: dhcpv6_transport where
  "sample_waiting = sample_started\<lparr>t_client := sample_start\<lparr>c_generation := 2,
     c_next_transmit_ms := 935, c_transaction_id := 8,
     c_offer_t1_seconds := DHCPV6_RETRANSMISSION_NOT_STARTED\<rparr>\<rparr>"

definition sample_solicited :: dhcpv6_transport where
  "sample_solicited = sample_started\<lparr>t_client := sample_start\<lparr>c_state := RIN_DHCPV6_STATE_SOLICITING,
     c_generation := 3, c_last_now_ms := 1000, c_transaction_started_ms := 1000,
     c_next_transmit_ms := 2001, c_retry_ms := 1001, c_transaction_id := 8,
     c_next_transmit_sequence := 2\<rparr>\<rparr>"

definition sample_offered :: dhcpv6_transport where
  "sample_offered = sample_started\<lparr>t_server_address_present := 1, t_server_address := sample_server_address,
     t_client := sample_start\<lparr>c_state := RIN_DHCPV6_STATE_ADVERTISED, c_generation := 4,
     c_last_now_ms := 1500, c_transaction_id := 8, c_server_duid_size := 10,
     c_next_transmit_sequence := 2, c_server_duid := sample_server @ zero_bytes 22,
     c_address := sample_address\<rparr>\<rparr>"

lemma sample_steps:
  "transport_prepare sample_started 0 sample_random 8 = (RIN_DHCPV6_OK, sample_waiting, zero_transport_transmit, 9)"
  "transport_complete_transmit (fst (snd (transport_prepare sample_waiting 1000 sample_random 9)))
     (fst (snd (snd (transport_prepare sample_waiting 1000 sample_random 9)))) 1 = (RIN_DHCPV6_OK, sample_solicited)"
  "sample_advertise sample_solicited 1500 = (RIN_DHCPV6_OFFER_READY, sample_offered)"
  by code_simp+

lemma sample_offered_reachable: "transport_reachable sample_random sample_offered"
proof -
  have "transport_reachable sample_random sample_started"
    using sample_started_init by (rule transport_reachable.init) (simp_all add: sample_config_def sample_duid_def)
  then have w: "transport_reachable sample_random sample_waiting"
    using sample_steps(1) by (rule transport_reachable.prepare)
  obtain st s t ctx where p: "transport_prepare sample_waiting 1000 sample_random 9 = (st, s, t, ctx)"
    by (metis prod_cases4)
  have "transport_reachable sample_random s" using w p by (rule transport_reachable.prepare)
  then have "transport_reachable sample_random sample_solicited"
    using sample_steps(2) unfolding p by (auto intro: transport_reachable.complete)
  then show ?thesis
    using sample_steps(3) unfolding sample_advertise_def
    by (rule transport_reachable.datagram) (simp_all add: sample_server_address_def)
qed


section \<open>Preparing, sending and completing a message\<close>

lemma pending_destination:
  assumes "client_inv c" and "c_pending_present c \<noteq> 0"
  shows "tx_kind (c_pending c) = RIN_DHCPV6_TRANSMIT_REQUEST \<or> tx_kind (c_pending c) = RIN_DHCPV6_TRANSMIT_RENEW \<Longrightarrow>
    server_needed c"
  using client_invD(5) [OF assms]
  by (auto simp: pending_due_def prepare_kind_def server_needed_def Let_def split: if_splits)

text \<open>What a prepared message looks like on the wire.\<close>

definition transmit_for :: "dhcpv6_transport \<Rightarrow> dhcpv6_transport_transmit \<Rightarrow> bool" where
  "transmit_for s t = (let kind = tx_kind (c_pending (t_client s)) in
     tt_client_transmit t = c_pending (t_client s) \<and>
     tt_source_address t = tc_source_address (t_config s) \<and> tt_source_mac t = tc_mac (t_config s) \<and>
     (if kind = RIN_DHCPV6_TRANSMIT_REQUEST \<or> kind = RIN_DHCPV6_TRANSMIT_RENEW
      then tt_destination_is_multicast t = 0 \<and> tt_destination_address t = t_server_address s
      else tt_destination_is_multicast t = 1 \<and> tt_destination_address t = all_servers_and_relays))"

lemma make_transmit_ready:
  assumes "transport_inv s" and "c_pending_present (t_client s) \<noteq> 0"
  obtains t where "make_transmit s z = (RIN_DHCPV6_TRANSPORT_PACKET_READY, t)" "transmit_for s t"
    "transport_transmit_valid t" "wf_transport_transmit t"
proof -
  note inv = transport_invD [OF assms(1)]
  let ?c = "t_client s"
  have f: "client_fields_valid ?c" using client_validD client_invD(2) [OF inv(3)] by blast
  then have pv: "pending_valid ?c" and one: "c_pending_present ?c = 1"
    using assms(2) word_le_1 [of "c_pending_present ?c"] by (auto simp: client_fields_valid_def not_less)
  have wf: "wf_transmit (c_pending ?c)" using client_invD(1) [OF inv(3)] by (simp add: wf_client_def)
  have server: "t_server_address_present s = 1 \<and> ipv6_unicast_valid (t_server_address s)"
    if "tx_kind (c_pending ?c) = RIN_DHCPV6_TRANSMIT_REQUEST \<or> tx_kind (c_pending ?c) = RIN_DHCPV6_TRANSMIT_RENEW"
    using inv(5) [OF pending_destination [OF inv(3) assms(2) that]] inv(1) by (simp add: transport_state_valid_def)
  obtain t where t: "make_transmit s z = (RIN_DHCPV6_TRANSPORT_PACKET_READY, t)"
    using pv one server inv(1) by (auto simp: make_transmit_def pending_valid_def Let_def split: if_splits)
  moreover have "transmit_for s t"
    using t by (auto simp: make_transmit_def transmit_for_def zero_transport_transmit_def Let_def
        split: if_splits)
  moreover have "transport_transmit_valid t"
    using t pv one inv(4) by (auto simp: make_transmit_def transport_transmit_valid_def Let_def config_valid_def
        zero_transport_transmit_def all_servers_and_relays_def pending_valid_def not_less split: if_splits)
  moreover have "wf_transport_transmit t"
    using t inv(2) wf by (auto simp: make_transmit_def wf_transport_transmit_def wf_transport_def Let_def
        all_servers_and_relays_def split: if_splits)
  ultimately show ?thesis by (rule that)
qed

lemma prepare_pending:
  assumes "client_prepare c new_id now_ms = (p, c', tx)" and "c_pending_present c = 0"
  shows "(p = RIN_DHCPV6_PACKET_READY) = (c_pending_present c' \<noteq> 0)"
proof -
  have "c_pending_present (clear_dynamic d) = 0" for d by (simp add: clear_dynamic_def clear_pending_def)
  then show ?thesis
    using assms by (fastforce simp: client_prepare_def expire_lease_cases prepare_transaction_def
        prepare_message_def prepare_startup_def Let_def dest: build_message_status split: if_splits option.splits prod.splits sum.splits)
qed


lemma transport_prepare_cases:
  assumes "transport_inv s" and "transport_prepare s now_ms random ctx = (st, s', t, ctx')"
  shows "st = RIN_DHCPV6_TRANSPORT_PACKET_READY \<and> c_pending_present (t_client s') \<noteq> 0 \<and>
      make_transmit s' zero_transport_transmit = (st, t) \<or>
    st \<noteq> RIN_DHCPV6_TRANSPORT_PACKET_READY \<and> c_pending_present (t_client s') = 0"
proof -
  note inv' = transport_prepare_inv [OF assms]
  have "client_fields_valid (t_client s)"
    using client_validD client_invD(2) [OF transport_invD(3) [OF assms(1)]] by blast
  then have bit: "c_pending_present (t_client s) = 0 \<or> c_pending_present (t_client s) = 1"
    using word_le_1 [of "c_pending_present (t_client s)"] by (auto simp: client_fields_valid_def not_less)
  have ready: "\<exists>t'. make_transmit s' zero_transport_transmit = (RIN_DHCPV6_TRANSPORT_PACKET_READY, t')"
    if "c_pending_present (t_client s') \<noteq> 0"
    using make_transmit_ready [OF inv' that] by metis
  show ?thesis
    using assms(2) bit ready transport_invD(1) [OF assms(1)]
    by (auto simp: transport_prepare_def Let_def clear_server_address_def dest!: prepare_pending
        split: if_splits option.splits prod.splits)
qed

lemma transmit_serializes:
  assumes "wf_transport_transmit t" and "transport_transmit_valid t" and "\<not> bytes_all_zero mac 6"
  shows "fst (transport_serialize t mac 574) = RIN_DHCPV6_TRANSPORT_OK"
  using assms transmit_sizes [OF assms(1,2)]
  by (simp add: transport_serialize_def Let_def transport_transmit_valid_def word_less_nat_alt word_le_nat_alt)

text \<open>C9: Whenever preparing leaves a message pending in a reachable transport, the caller gets a packet:
  addressed to the known server for Request and Renew and to the multicast group otherwise. The frame
  can be serialised into a buffer of 574 bytes, and reporting its transmission, successful or not,
  is accepted and leaves nothing pending. A packet is reported in no other case.\<close>

theorem transport_prepare_delivers:
  assumes "transport_reachable random s" and "transport_prepare s now_ms random ctx = (st, s', t, ctx')"
    and "length mac = 6" and "\<not> bytes_all_zero mac 6" and "sent = 0 \<or> sent = 1"
  shows "(st = RIN_DHCPV6_TRANSPORT_PACKET_READY) = (c_pending_present (t_client s') \<noteq> 0) \<and>
    (st = RIN_DHCPV6_TRANSPORT_PACKET_READY \<longrightarrow> transmit_for s' t \<and>
       fst (transport_serialize t mac 574) = RIN_DHCPV6_TRANSPORT_OK \<and>
       fst (transport_complete_transmit s' t sent) = RIN_DHCPV6_OK \<and>
       c_pending_present (t_client (snd (transport_complete_transmit s' t sent))) = 0)"
proof (cases "st = RIN_DHCPV6_TRANSPORT_PACKET_READY")
  case True
  note inv = reachable_transport_inv [OF assms(1)]
  note inv' = transport_prepare_inv [OF inv assms(2)]
  from transport_prepare_cases [OF inv assms(2)] True
  have p: "c_pending_present (t_client s') \<noteq> 0"
    and m: "make_transmit s' zero_transport_transmit = (RIN_DHCPV6_TRANSPORT_PACKET_READY, t)" by auto
  have tx: "transmit_for s' t" "transport_transmit_valid t" "wf_transport_transmit t"
    using make_transmit_ready [OF inv' p, of zero_transport_transmit] m by auto
  then have "transport_complete_admitted s' t sent"
    using assms(5) transport_invD(1) [OF inv']
    by (simp add: transport_complete_admitted_def transmit_for_def Let_def byte_equal_iff
        wf_transport_transmit_def)
  with complete_pending [OF transport_invD(3) [OF inv'] p assms(5)] tx(1)
  show ?thesis
    using True p tx transmit_serializes [OF tx(3,2) assms(4)]
    by (simp add: transport_complete_transmit_def transmit_for_def Let_def)
qed (use transport_prepare_cases [OF reachable_transport_inv [OF assms(1)] assms(2)] in auto)

theorem transport_prepare_delivers_witness:
  "\<exists>s' t ctx'. transport_prepare sample_offered 1500 sample_random 9 = (RIN_DHCPV6_TRANSPORT_PACKET_READY, s', t, ctx') \<and>
    transmit_for s' t \<and> tt_destination_address t = sample_server_address \<and>
    fst (transport_serialize t [2, 0, 94, 16, 0, 2] 574) = RIN_DHCPV6_TRANSPORT_OK \<and>
    fst (transport_complete_transmit s' t 1) = RIN_DHCPV6_OK"
proof -
  obtain st s' t ctx' where p: "transport_prepare sample_offered 1500 sample_random 9 = (st, s', t, ctx')"
    by (metis prod_cases4)
  have "fst (transport_prepare sample_offered 1500 sample_random 9) = RIN_DHCPV6_TRANSPORT_PACKET_READY"
    "tt_destination_address (fst (snd (snd (transport_prepare sample_offered 1500 sample_random 9)))) =
       sample_server_address"
    by code_simp+
  with p have "st = RIN_DHCPV6_TRANSPORT_PACKET_READY" "tt_destination_address t = sample_server_address" by simp_all
  moreover have "\<not> bytes_all_zero [2, 0, 94, 16, 0, 2] 6" by code_simp
  ultimately show ?thesis
    using transport_prepare_delivers [OF sample_offered_reachable p, of "[2, 0, 94, 16, 0, 2]" 1] p by simp
qed

section \<open>Receiving frames and datagrams\<close>

lemma frame_payload_size:
  assumes "frame_payload frame = Inr m"
  shows "4 \<le> length m" and "length frame = 62 + length m"
  using assms by (auto simp: frame_payload_def Let_def split: if_splits)

definition sample_frame :: "u16 \<Rightarrow> bytes" where
  "sample_frame cksum = tc_mac sample_config @ [2, 0, 94, 16, 0, 2] @ store_be16 DHCPV6_ETHERTYPE_IPV6 @
     [0x60, 0, 0, 0] @ store_be16 84 @ [DHCPV6_NEXT_HEADER_UDP, DHCPV6_HOP_LIMIT] @ sample_server_address @
     tc_source_address sample_config @ store_be16 DHCPV6_SERVER_PORT @ store_be16 DHCPV6_CLIENT_PORT @
     store_be16 84 @ store_be16 cksum @ sample_message DHCPV6_MESSAGE_ADVERTISE [0, 0, 8]"


text \<open>The two receive paths agree: a frame whose Ethernet, IPv6 and UDP headers and checksum are
  accepted has the same effect as handing its payload to the datagram interface with the addresses
  and ports of the frame, as long as the payload fits a client message and is not a Reconfigure.\<close>

theorem frame_is_datagram:
  assumes "receive_frame_envelope s frame = Inr m" and "length m \<le> 512" and "m ! 0 \<noteq> DHCPV6_MESSAGE_RECONFIGURE"
  shows "transport_receive_frame s frame now_ms =
    transport_receive_datagram s (frame_source frame) DHCPV6_SERVER_PORT
      (take 16 (drop 38 frame)) DHCPV6_CLIENT_PORT m now_ms"
proof -
  note e = frame_source_valid [OF assms(1)]
  have "byte_equal (take 16 (drop 38 frame)) (tc_source_address (t_config s)) 16"
    using e(5) by (simp add: byte_equal_def)
  then have "local_destination s (take 16 (drop 38 frame))" by (simp add: local_destination_def)
  with e(2,3) assms frame_payload_size(1) [OF e(4)] show ?thesis
    by (simp add: transport_receive_frame_def transport_receive_datagram_def datagram_envelope_valid_def Let_def)
qed

theorem frame_is_datagram_witness:
  "transport_receive_frame sample_solicited (sample_frame 58228) 1500 = (RIN_DHCPV6_OFFER_READY, sample_offered)"
proof -
  have e: "receive_frame_envelope sample_solicited (sample_frame 58228) =
      Inr (sample_message DHCPV6_MESSAGE_ADVERTISE [0, 0, 8])"
    and a: "frame_source (sample_frame 58228) = sample_server_address"
      "take 16 (drop 38 (sample_frame 58228)) = tc_source_address sample_config"
      "length (sample_message DHCPV6_MESSAGE_ADVERTISE [0, 0, 8]) \<le> 512"
      "sample_message DHCPV6_MESSAGE_ADVERTISE [0, 0, 8] ! 0 \<noteq> DHCPV6_MESSAGE_RECONFIGURE"
    by code_simp+
  from frame_is_datagram [OF e a(3,4)] sample_steps(3) show ?thesis
    by (simp add: sample_advertise_def a)
qed

text \<open>A frame with a wrong or missing UDP checksum, for another host, protocol or port, or of the
  wrong length, is answered with a negative status and changes nothing.\<close>

theorem foreign_frame_ignored:
  assumes "length frame < 66 \<or> take 6 frame \<noteq> tc_mac (t_config s) \<or>
      load_be16 (drop 12 frame) \<noteq> DHCPV6_ETHERTYPE_IPV6 \<or> frame ! 20 \<noteq> DHCPV6_NEXT_HEADER_UDP \<or>
      take 16 (drop 38 frame) \<noteq> tc_source_address (t_config s) \<or>
      unat (load_be16 (drop 18 frame)) \<noteq> length frame - 54 \<or>
      load_be16 (drop 56 frame) \<noteq> DHCPV6_CLIENT_PORT \<or> load_be16 (drop 60 frame) = 0 \<or>
      udp_checksum (drop 22 frame) (drop 38 frame) (drop 54 frame) \<noteq> 0xffff"
    and "wf_transport s"
  shows "fst (transport_receive_frame s frame now_ms) < 0 \<and> snd (transport_receive_frame s frame now_ms) = s"
proof -
  have "\<exists>st. receive_frame_envelope s frame = Inl st \<and> st < 0"
  proof (cases "length frame < 66")
    case False
    have eq: "byte_equal (drop 38 frame) (tc_source_address (t_config s)) 16 =
        (take 16 (drop 38 frame) = tc_source_address (t_config s))"
      "byte_equal frame (tc_mac (t_config s)) 6 = (take 6 frame = tc_mac (t_config s))"
      using False assms(2) by (simp_all add: byte_equal_iff wf_transport_def)
    show ?thesis using assms(1) False
      by (auto simp: receive_frame_envelope_def frame_payload_def eq Let_def)
  qed (simp add: receive_frame_envelope_def)
  then show ?thesis by (auto simp: transport_receive_frame_def)
qed

theorem foreign_frame_ignored_witness:
  "udp_checksum (drop 22 (sample_frame 58229)) (drop 38 (sample_frame 58229)) (drop 54 (sample_frame 58229)) \<noteq> 0xffff \<and>
   snd (transport_receive_frame sample_solicited (sample_frame 58229) 1500) = sample_solicited"
proof -
  have "udp_checksum (drop 22 (sample_frame 58229)) (drop 38 (sample_frame 58229)) (drop 54 (sample_frame 58229)) \<noteq> 0xffff"
    "wf_transport sample_solicited"
    by code_simp+
  then show ?thesis using foreign_frame_ignored [of "sample_frame 58229" sample_solicited 1500] by simp
qed

end
