(* ===== verification/Rin_Md5.thy ===== *)
theory Rin_Md5
  imports Rin_Prelude
begin

text \<open>
  MD5 and HMAC-MD5 as \<open>src/rin_dhcpv6_reconfigure.c\<close> implements them: a context that absorbs bytes in
  pieces of any size, and the digest of a message under a 16-byte key. The second half defines the
  digest of RFC 1321 and RFC 2104 without a context (pad the whole message, then fold the
  compression function over its blocks) and proves that the streaming code computes it.
\<close>

section \<open>The compression function\<close>

definition load_le32 :: "bytes \<Rightarrow> u32" where
  "load_le32 bs = ucast (bs ! 0) OR push_bit 8 (ucast (bs ! 1)) OR
     push_bit 16 (ucast (bs ! 2)) OR push_bit 24 (ucast (bs ! 3))"

definition store_le32 :: "u32 \<Rightarrow> bytes" where
  "store_le32 v = [ucast v, ucast (drop_bit 8 v), ucast (drop_bit 16 v), ucast (drop_bit 24 v)]"

definition md5_rotate_left :: "u32 \<Rightarrow> nat \<Rightarrow> u32" where
  "md5_rotate_left v bits = push_bit bits v OR drop_bit (32 - bits) v"

definition md5_shift :: "nat list" where
  "md5_shift =
     [7, 12, 17, 22, 7, 12, 17, 22, 7, 12, 17, 22, 7, 12, 17, 22,
      5, 9, 14, 20, 5, 9, 14, 20, 5, 9, 14, 20, 5, 9, 14, 20,
      4, 11, 16, 23, 4, 11, 16, 23, 4, 11, 16, 23, 4, 11, 16, 23,
      6, 10, 15, 21, 6, 10, 15, 21, 6, 10, 15, 21, 6, 10, 15, 21]"

definition md5_constants :: "u32 list" where
  "md5_constants =
     [0xd76aa478, 0xe8c7b756, 0x242070db, 0xc1bdceee,
      0xf57c0faf, 0x4787c62a, 0xa8304613, 0xfd469501,
      0x698098d8, 0x8b44f7af, 0xffff5bb1, 0x895cd7be,
      0x6b901122, 0xfd987193, 0xa679438e, 0x49b40821,
      0xf61e2562, 0xc040b340, 0x265e5a51, 0xe9b6c7aa,
      0xd62f105d, 0x02441453, 0xd8a1e681, 0xe7d3fbc8,
      0x21e1cde6, 0xc33707d6, 0xf4d50d87, 0x455a14ed,
      0xa9e3e905, 0xfcefa3f8, 0x676f02d9, 0x8d2a4c8a,
      0xfffa3942, 0x8771f681, 0x6d9d6122, 0xfde5380c,
      0xa4beea44, 0x4bdecfa9, 0xf6bb4b60, 0xbebfbc70,
      0x289b7ec6, 0xeaa127fa, 0xd4ef3085, 0x04881d05,
      0xd9d4d039, 0xe6db99e5, 0x1fa27cf8, 0xc4ac5665,
      0xf4292244, 0x432aff97, 0xab9423a7, 0xfc93a039,
      0x655b59c3, 0x8f0ccc92, 0xffeff47d, 0x85845dd1,
      0x6fa87e4f, 0xfe2ce6e0, 0xa3014314, 0x4e0811a1,
      0xf7537e82, 0xbd3af235, 0x2ad7d2bb, 0xeb86d391]"

type_synonym md5_state = "u32 \<times> u32 \<times> u32 \<times> u32"

text \<open>One iteration of the loop of \<open>md5_transform\<close>.\<close>

definition md5_round :: "u32 list \<Rightarrow> nat \<Rightarrow> md5_state \<Rightarrow> md5_state" where
  "md5_round words index st =
     (case st of (a, b, c, d) \<Rightarrow>
        let (f, g) =
              (if index < 16 then ((b AND c) OR (NOT b AND d), index)
               else if index < 32 then ((d AND b) OR (NOT d AND c), (5 * index + 1) mod 16)
               else if index < 48 then (b XOR c XOR d, (3 * index + 5) mod 16)
               else (c XOR (b OR NOT d), (7 * index) mod 16))
        in (d, b + md5_rotate_left (a + f + md5_constants ! index + words ! g) (md5_shift ! index),
            b, c))"

definition md5_words :: "bytes \<Rightarrow> u32 list" where
  "md5_words block = map (\<lambda>index. load_le32 (drop (index * 4) block)) [0..<16]"

definition md5_transform :: "md5_state \<Rightarrow> bytes \<Rightarrow> md5_state" where
  "md5_transform st block =
     (case (st, fold (md5_round (md5_words block)) [0..<64] st) of
        ((a0, b0, c0, d0), (a, b, c, d)) \<Rightarrow> (a0 + a, b0 + b, c0 + c, d0 + d))"

section \<open>The streaming context\<close>

record md5_context =
  md5_state :: md5_state
  md5_byte_count :: u64
  md5_used :: nat
  md5_block :: bytes

definition md5_init :: md5_context where
  "md5_init = \<lparr>md5_state = (0x67452301, 0xefcdab89, 0x98badcfe, 0x10325476),
     md5_byte_count = 0, md5_used = 0, md5_block = zero_bytes 64\<rparr>"

text \<open>The loop of \<open>md5_update\<close>: fill the block, compress it when it is full. Every context that
  \<open>md5_init\<close> and \<open>md5_update\<close> produce has less than 64 bytes in use (\<open>md5_update_used\<close> below); the
  loop of the source would not progress on any other.\<close>

function md5_absorb :: "md5_context \<Rightarrow> bytes \<Rightarrow> md5_context" where
  "md5_absorb ctx bytes =
     (if bytes = [] \<or> md5_used ctx \<ge> 64 then ctx
      else
        let n = min (64 - md5_used ctx) (length bytes);
            ctx = ctx\<lparr>
              md5_block := byte_copy (md5_block ctx) (md5_used ctx) (take n bytes),
              md5_used := md5_used ctx + n\<rparr>
        in md5_absorb
             (if md5_used ctx = 64
              then ctx\<lparr>md5_state := md5_transform (md5_state ctx) (md5_block ctx),
                     md5_used := 0\<rparr>
              else ctx) (drop n bytes))"
  by pat_completeness auto
termination
  by (relation "measure (length \<circ> snd)") auto

declare md5_absorb.simps [simp del]

definition md5_update :: "md5_context \<Rightarrow> bytes \<Rightarrow> md5_context" where
  "md5_update ctx bytes =
     (if bytes = [] then ctx
      else md5_absorb (ctx\<lparr>md5_byte_count := md5_byte_count ctx + of_nat (length bytes)\<rparr>)
             bytes)"

lemma md5_absorb_used: "md5_used ctx < 64 \<Longrightarrow> md5_used (md5_absorb ctx bytes) < 64"
proof (induction ctx bytes rule: md5_absorb.induct)
  case (1 ctx bytes)
  then show ?case
    by (subst md5_absorb.simps) (auto simp: Let_def min_def)
qed

lemma md5_absorb_one_used:
  "md5_used ctx < 64 \<Longrightarrow> md5_used (md5_absorb ctx [b]) = (md5_used ctx + 1) mod 64"
  by (auto simp: md5_absorb.simps Let_def min_def mod_Suc)

lemma padding_measure:
  assumes "(x :: nat) < 64" "x \<noteq> 56"
  shows "(120 - (x + 1) mod 64) mod 64 < (120 - x) mod 64"
proof -
  from assms consider "x < 56" | "56 < x" "x < 63" | "x = 63" by linarith
  then show ?thesis
  proof cases
    case 1
    then have "(120 - (x + 1)) mod 64 = 55 - x" "(120 - x) mod 64 = 56 - x"
      by (simp_all add: mod_if)
    with 1 show ?thesis by simp
  next
    case 2
    then show ?thesis by (simp add: mod_if) linarith
  qed simp
qed

text \<open>The padding loop of \<open>md5_finish\<close>: zero bytes until 56 bytes of the block are in use.\<close>

function md5_pad :: "md5_context \<Rightarrow> md5_context" where
  "md5_pad ctx =
     (if md5_used ctx = 56 \<or> md5_used ctx \<ge> 64 then ctx
      else md5_pad (md5_update ctx [0]))"
  by pat_completeness auto
termination
proof (relation "measure (\<lambda>ctx. (120 - md5_used ctx) mod 64)")
  fix ctx :: md5_context
  assume "\<not> (md5_used ctx = 56 \<or> 64 \<le> md5_used ctx)"
  then have u: "md5_used ctx < 64" "md5_used ctx \<noteq> 56" by simp_all
  have "md5_used (md5_update ctx [0]) = (md5_used ctx + 1) mod 64"
    using u by (simp add: md5_update_def md5_absorb_one_used)
  with padding_measure [OF u] show "(md5_update ctx [0], ctx) \<in>
      measure (\<lambda>ctx. (120 - md5_used ctx) mod 64)"
    using u by simp
qed simp

declare md5_pad.simps [simp del]

definition md5_length_bytes :: "u64 \<Rightarrow> bytes" where
  "md5_length_bytes byte_count =
     (let bit_count = push_bit 3 byte_count
      in map (\<lambda>index. ucast (drop_bit (index * 8) bit_count)) [0..<8])"

definition md5_finish :: "md5_context \<Rightarrow> bytes" where
  "md5_finish ctx =
     (let padded = md5_pad (md5_update ctx [0x80]);
          final = md5_update padded (md5_length_bytes (md5_byte_count ctx))
      in case md5_state final of
        (a, b, c, d) \<Rightarrow> store_le32 a @ store_le32 b @ store_le32 c @ store_le32 d)"

section \<open>HMAC\<close>

definition hmac_pad :: "bytes \<Rightarrow> u8 \<Rightarrow> bytes" where
  "hmac_pad key v = map (\<lambda>index. if index < 16 then key ! index XOR v else v) [0..<64]"

definition hmac_md5 :: "bytes \<Rightarrow> bytes \<Rightarrow> bytes" where
  "hmac_md5 key message =
     (let inner = md5_finish (md5_update (md5_update md5_init (hmac_pad key 0x36)) message)
      in md5_finish (md5_update (md5_update md5_init (hmac_pad key 0x5c)) inner))"

section \<open>The digest without a context\<close>

text \<open>Compress the full blocks of a byte string; the rest is what does not fill a block.\<close>

function md5_blocks :: "md5_state \<Rightarrow> bytes \<Rightarrow> md5_state \<times> bytes" where
  "md5_blocks st bytes =
     (if length bytes < 64 then (st, bytes)
      else md5_blocks (md5_transform st (take 64 bytes)) (drop 64 bytes))"
  by pat_completeness auto
termination
  by (relation "measure (length \<circ> snd)") auto

declare md5_blocks.simps [simp del]

definition md5_padding :: "nat \<Rightarrow> bytes" where
  "md5_padding n = 0x80 # zero_bytes ((119 - n mod 64) mod 64)"

definition md5_digest :: "bytes \<Rightarrow> bytes" where
  "md5_digest message =
     (case fst (md5_blocks (0x67452301, 0xefcdab89, 0x98badcfe, 0x10325476)
            (message @ md5_padding (length message) @
             md5_length_bytes (of_nat (length message)))) of
        (a, b, c, d) \<Rightarrow> store_le32 a @ store_le32 b @ store_le32 c @ store_le32 d)"

definition hmac_md5_digest :: "bytes \<Rightarrow> bytes \<Rightarrow> bytes" where
  "hmac_md5_digest key message =
     (let block = key @ zero_bytes (64 - length key)
      in md5_digest (map (\<lambda>k. k XOR 0x5c) block @
           md5_digest (map (\<lambda>k. k XOR 0x36) block @ message)))"

section \<open>The streaming code computes the digest\<close>

definition md5_wf :: "md5_context \<Rightarrow> bool" where
  "md5_wf ctx = (md5_used ctx < 64 \<and> length (md5_block ctx) = 64)"

definition md5_pending :: "md5_context \<Rightarrow> bytes" where
  "md5_pending ctx = take (md5_used ctx) (md5_block ctx)"

text \<open>A context represents the bytes it has absorbed.\<close>

definition md5_absorbed :: "md5_context \<Rightarrow> bytes \<Rightarrow> bool" where
  "md5_absorbed ctx bytes =
     (md5_wf ctx \<and> md5_byte_count ctx = of_nat (length bytes) \<and>
      (md5_state ctx, md5_pending ctx) = md5_blocks (md5_state md5_init) bytes)"

lemma md5_blocks_append:
  "md5_blocks st (xs @ ys) = (case md5_blocks st xs of (st', r) \<Rightarrow> md5_blocks st' (r @ ys))"
proof (induction st xs rule: md5_blocks.induct)
  case (1 st xs)
  show ?case
  proof (cases "length xs < 64")
    case True
    then show ?thesis by (simp add: md5_blocks.simps [of st xs])
  next
    case False
    then have "md5_blocks st (xs @ ys) =
        md5_blocks (md5_transform st (take 64 xs)) (drop 64 xs @ ys)"
      by (subst md5_blocks.simps) simp
    also have "\<dots> = (case md5_blocks st xs of (st', r) \<Rightarrow> md5_blocks st' (r @ ys))"
      using "1.IH" False by (simp add: md5_blocks.simps [of st xs])
    finally show ?thesis .
  qed
qed

lemma md5_blocks_short: "length bytes < 64 \<Longrightarrow> md5_blocks st bytes = (st, bytes)"
  by (simp add: md5_blocks.simps)

lemma md5_blocks_full: "length bytes = 64 \<Longrightarrow> md5_blocks st (bytes @ ys) = md5_blocks (md5_transform st bytes) ys"
  by (subst md5_blocks.simps) simp

lemma length_md5_rest: "length (snd (md5_blocks st bytes)) = length bytes mod 64"
proof (induction st bytes rule: md5_blocks.induct)
  case (1 st bytes)
  then show ?case
    by (cases "length bytes < 64") (simp_all add: md5_blocks.simps [of st bytes] le_mod_geq)
qed

text \<open>One iteration of the loop.\<close>

definition md5_fill :: "md5_context \<Rightarrow> bytes \<Rightarrow> md5_context" where
  "md5_fill ctx taken =
     (let ctx = ctx\<lparr>md5_block := byte_copy (md5_block ctx) (md5_used ctx) taken,
            md5_used := md5_used ctx + length taken\<rparr>
      in if md5_used ctx = 64
         then ctx\<lparr>md5_state := md5_transform (md5_state ctx) (md5_block ctx), md5_used := 0\<rparr>
         else ctx)"

lemma md5_absorb_fill:
  assumes "md5_wf ctx" "bytes \<noteq> []"
  shows "md5_absorb ctx bytes =
    md5_absorb (md5_fill ctx (take (64 - md5_used ctx) bytes)) (drop (64 - md5_used ctx) bytes)"
proof -
  define n where "n = min (64 - md5_used ctx) (length bytes)"
  have n: "take (64 - md5_used ctx) bytes = take n bytes" "drop (64 - md5_used ctx) bytes = drop n bytes"
    "length (take n bytes) = n"
    by (simp_all add: n_def min_def)
  show ?thesis
    unfolding n using assms
    by (subst md5_absorb.simps) (simp only: md5_wf_def md5_fill_def Let_def n n_def [symmetric] not_le [symmetric] simp_thms if_False)
qed

lemma md5_pending_empty: "md5_used ctx = 0 \<Longrightarrow> md5_pending ctx = []"
  by (simp add: md5_pending_def)

lemma md5_fill_blocks:
  assumes wf: "md5_wf ctx" and n: "length taken \<le> 64 - md5_used ctx"
  shows "md5_wf (md5_fill ctx taken)"
    and "md5_byte_count (md5_fill ctx taken) = md5_byte_count ctx"
    and "md5_blocks (md5_state ctx) (md5_pending ctx @ taken @ rest) =
      md5_blocks (md5_state (md5_fill ctx taken)) (md5_pending (md5_fill ctx taken) @ rest)"
proof -
  have u: "md5_used ctx < 64" and l: "length (md5_block ctx) = 64" using wf by (simp_all add: md5_wf_def)
  have b: "length (byte_copy (md5_block ctx) (md5_used ctx) taken) = 64"
    using u l n by (simp add: length_byte_copy)
  show "md5_wf (md5_fill ctx taken)" using u n b by (auto simp: md5_wf_def md5_fill_def Let_def)
  show "md5_byte_count (md5_fill ctx taken) = md5_byte_count ctx" by (simp add: md5_fill_def Let_def)
  have p: "take (md5_used ctx + length taken) (byte_copy (md5_block ctx) (md5_used ctx) taken) =
      md5_pending ctx @ taken"
    using u l n by (simp add: byte_copy_def md5_pending_def)
  show "md5_blocks (md5_state ctx) (md5_pending ctx @ taken @ rest) =
      md5_blocks (md5_state (md5_fill ctx taken)) (md5_pending (md5_fill ctx taken) @ rest)"
  proof (cases "md5_used ctx + length taken = 64")
    case True
    with p b have full: "byte_copy (md5_block ctx) (md5_used ctx) taken = md5_pending ctx @ taken"
      by simp
    have "length (md5_pending ctx @ taken) = 64" using b full by simp
    from md5_blocks_full [OF this, of "md5_state ctx" rest] full True show ?thesis
      by (simp add: md5_fill_def Let_def md5_pending_empty)
  next
    case False
    with p show ?thesis by (simp add: md5_fill_def Let_def md5_pending_def [of "ctx\<lparr>md5_block := _, md5_used := _\<rparr>"])
  qed
qed

lemma md5_absorb_blocks:
  assumes "md5_wf ctx"
  shows "md5_wf (md5_absorb ctx bytes) \<and>
    md5_byte_count (md5_absorb ctx bytes) = md5_byte_count ctx \<and>
    (md5_state (md5_absorb ctx bytes), md5_pending (md5_absorb ctx bytes)) =
      md5_blocks (md5_state ctx) (md5_pending ctx @ bytes)"
  using assms
proof (induction "length bytes" arbitrary: ctx bytes rule: less_induct)
  case less
  then have wf: "md5_used ctx < 64" "length (md5_block ctx) = 64" by (simp_all add: md5_wf_def)
  show ?case
  proof (cases "bytes = []")
    case True
    then have "md5_absorb ctx bytes = ctx" by (simp add: md5_absorb.simps)
    with True wf show ?thesis by (simp add: md5_wf_def md5_blocks_short md5_pending_def)
  next
    case False
    let ?t = "take (64 - md5_used ctx) bytes" and ?d = "drop (64 - md5_used ctx) bytes"
    have n: "length ?t \<le> 64 - md5_used ctx" by simp
    note fill = md5_fill_blocks [OF less.prems n]
    have "0 < length bytes" using False by simp
    then have "length ?d < length bytes" using wf by (simp; linarith)
    from less.hyps [OF this fill(1)] fill(2) fill(3) [of ?d] show ?thesis
      by (simp add: md5_absorb_fill [OF less.prems False])
  qed
qed

lemma md5_update_absorbed:
  assumes "md5_absorbed ctx bs"
  shows "md5_absorbed (md5_update ctx bytes) (bs @ bytes)"
proof (cases "bytes = []")
  case False
  let ?c = "ctx\<lparr>md5_byte_count := md5_byte_count ctx + of_nat (length bytes)\<rparr>"
  have wf: "md5_wf ?c" using assms by (simp add: md5_absorbed_def md5_wf_def)
  have p: "md5_pending ?c = md5_pending ctx" by (simp add: md5_pending_def)
  have e: "md5_blocks (md5_state md5_init) bs = (md5_state ctx, md5_pending ctx)"
    using assms by (simp add: md5_absorbed_def)
  from md5_absorb_blocks [OF wf, of bytes] assms False p show ?thesis
    by (simp add: md5_update_def md5_absorbed_def md5_blocks_append [of _ bs] e)
qed (use assms in \<open>simp add: md5_update_def\<close>)

lemma md5_init_absorbed: "md5_absorbed md5_init []"
  by (simp add: md5_absorbed_def md5_wf_def md5_pending_def md5_blocks_short md5_init_def)

lemma md5_absorbed_used: "md5_absorbed ctx bs \<Longrightarrow> md5_used ctx = length bs mod 64"
  using length_md5_rest [of "md5_state md5_init" bs]
  by (auto simp: md5_absorbed_def md5_wf_def md5_pending_def min_def dest: sym)

lemma sub_mod_step:
  assumes "(u :: nat) < 64" "u \<noteq> 56"
  shows "(120 - u) mod 64 = Suc ((120 - Suc u mod 64) mod 64)"
proof -
  from assms consider "u < 56" | "56 < u" "u < 63" | "u = 63" by linarith
  then show ?thesis
  proof cases
    case 1
    then have "(120 - Suc u) mod 64 = 55 - u" "(120 - u) mod 64 = 56 - u" by (simp_all add: mod_if)
    with 1 show ?thesis by simp
  next
    case 2
    then have "120 - u < 64" "120 - u = Suc (119 - u)" by linarith+
    with 2 show ?thesis by (simp add: mod_if)
  qed simp
qed

lemma md5_pad_absorbed:
  "md5_absorbed ctx bs \<Longrightarrow>
     md5_absorbed (md5_pad ctx) (bs @ zero_bytes ((120 - length bs mod 64) mod 64))"
proof (induction ctx arbitrary: bs rule: md5_pad.induct)
  case (1 ctx)
  let ?u = "length bs mod 64"
  have u: "md5_used ctx = ?u" by (rule md5_absorbed_used [OF "1.prems"])
  show ?case
  proof (cases "?u = 56")
    case True
    with u "1.prems" show ?thesis by (simp add: md5_pad.simps [of ctx] zero_bytes_def)
  next
    case False
    then have step: "\<not> (md5_used ctx = 56 \<or> 64 \<le> md5_used ctx)" using u by simp
    have m: "(120 - ?u) mod 64 = Suc ((120 - length (bs @ [0 :: u8]) mod 64) mod 64)"
      using False sub_mod_step [of ?u] by (simp add: mod_Suc_eq)
    have "md5_absorbed (md5_update ctx [0]) (bs @ [0])" by (rule md5_update_absorbed [OF "1.prems"])
    from "1.IH" [OF step this] step show ?thesis
      by (simp add: md5_pad.simps [of ctx] m zero_bytes_def del: length_append)
  qed
qed

lemma md5_padding_zeros: "(120 - (n + 1) mod 64) mod 64 = (119 - n mod 64) mod (64 :: nat)"
proof -
  have "n mod 64 < 64" by simp
  moreover have "(n + 1) mod 64 = (if n mod 64 = 63 then 0 else n mod 64 + 1)"
    by (simp add: mod_Suc)
  ultimately show ?thesis by auto
qed

lemma md5_finish_absorbed:
  assumes "md5_absorbed ctx message"
  shows "md5_finish ctx = md5_digest message"
proof -
  let ?zeros = "zero_bytes ((119 - length message mod 64) mod 64)"
  let ?final = "md5_update (md5_pad (md5_update ctx [0x80])) (md5_length_bytes (md5_byte_count ctx))"
  have "md5_absorbed (md5_update ctx [0x80]) (message @ [0x80])"
    by (rule md5_update_absorbed [OF assms])
  from md5_pad_absorbed [OF this]
  have "md5_absorbed (md5_pad (md5_update ctx [0x80])) ((message @ [0x80]) @ ?zeros)"
    using md5_padding_zeros [of "length message"] by simp
  from md5_update_absorbed [OF this]
  have "md5_absorbed ?final (message @ md5_padding (length message) @
      md5_length_bytes (md5_byte_count ctx))"
    by (simp add: md5_padding_def)
  moreover have "md5_byte_count ctx = of_nat (length message)"
    using assms by (simp add: md5_absorbed_def)
  ultimately have "md5_state ?final = fst (md5_blocks (md5_state md5_init)
      (message @ md5_padding (length message) @ md5_length_bytes (of_nat (length message))))"
    by (simp add: md5_absorbed_def) (metis fst_conv)
  then show ?thesis
    by (simp add: md5_finish_def md5_digest_def Let_def md5_init_def)
qed

lemma hmac_pad_xor:
  "length key = 16 \<Longrightarrow> hmac_pad key v = map (\<lambda>k. k XOR v) (key @ zero_bytes (64 - length key))"
  by (rule nth_equalityI) (simp_all add: hmac_pad_def nth_append zero_bytes_def)

lemma md5_update_twice: "md5_absorbed (md5_update (md5_update md5_init xs) ys) (xs @ ys)"
  using md5_update_absorbed [OF md5_update_absorbed [OF md5_init_absorbed], of xs ys] by simp

lemma hmac_md5_is_digest: "length key = 16 \<Longrightarrow> hmac_md5 key message = hmac_md5_digest key message"
  by (simp add: hmac_md5_def hmac_md5_digest_def Let_def md5_finish_absorbed [OF md5_update_twice]
      hmac_pad_xor)

lemma md5_pieces_absorbed:
  "md5_absorbed ctx bs \<Longrightarrow> md5_absorbed (foldl md5_update ctx pieces) (bs @ concat pieces)"
proof (induction pieces arbitrary: ctx bs)
  case (Cons piece pieces)
  from Cons.IH [OF md5_update_absorbed [OF Cons.prems, of piece]] show ?case by simp
qed simp

section \<open>Properties\<close>

text \<open>C13: However a message is cut into pieces, absorbing the pieces one after the other with
  \<open>md5_update\<close> and then calling \<open>md5_finish\<close> gives the RFC 1321 digest of the whole message.\<close>

theorem md5_streaming_digest:
  "md5_finish (foldl md5_update md5_init pieces) = md5_digest (concat pieces)"
  using md5_finish_absorbed [OF md5_pieces_absorbed [OF md5_init_absorbed]] by simp

text \<open>C24: Under a 16-byte key \<open>hmac_md5\<close> is the HMAC of RFC 2104 over MD5: the digest of the key
  block masked with 0x5c, followed by the digest of the key block masked with 0x36 and the
  message.\<close>

theorem hmac_md5_digest_equiv:
  assumes "length key = 16"
  shows "hmac_md5 key message = hmac_md5_digest key message"
  by (rule hmac_md5_is_digest [OF assms])

text \<open>The first test vector of RFC 2202: the key is sixteen bytes 0x0b, the message \<open>Hi There\<close>.\<close>

theorem hmac_md5_digest_equiv_witness:
  "length (replicate 16 (0x0b :: u8)) = 16 \<and>
   hmac_md5_digest (replicate 16 0x0b) [0x48, 0x69, 0x20, 0x54, 0x68, 0x65, 0x72, 0x65] =
     [0x92, 0x94, 0x72, 0x7a, 0x36, 0x38, 0xbb, 0x1c, 0x13, 0xf4, 0x8e, 0xf8, 0x15, 0x8b, 0xfc, 0x9d]"
proof -
  have "hmac_md5 (replicate 16 0x0b) [0x48, 0x69, 0x20, 0x54, 0x68, 0x65, 0x72, 0x65] =
     [0x92, 0x94, 0x72, 0x7a, 0x36, 0x38, 0xbb, 0x1c, 0x13, 0xf4, 0x8e, 0xf8, 0x15, 0x8b, 0xfc, 0x9d]"
    by code_simp
  with hmac_md5_digest_equiv [of "replicate 16 0x0b" "[0x48, 0x69, 0x20, 0x54, 0x68, 0x65, 0x72, 0x65]"]
  show ?thesis by simp
qed

end
