(* ===== verification/Dhcpv6_Reconfigure.thy ===== *)
theory Dhcpv6_Reconfigure
  imports Dhcpv6_Client Rin_Md5
begin

text \<open>
  The owner of the reconfigure key, \<open>src/rin_dhcpv6_reconfigure.c\<close>: it captures the RKAP key of an
  accepted Reply, and it authenticates a Reconfigure message with HMAC-MD5 and a strictly growing
  replay value before it asks the client for a new exchange.
\<close>

section \<open>Constants and records\<close>

abbreviation (input) RIN_DHCPV6_RECONFIGURE_VERSION :: u32 where "RIN_DHCPV6_RECONFIGURE_VERSION \<equiv> 1"
abbreviation (input) RIN_DHCPV6_RECONFIGURE_KEY_SIZE :: nat
  where "RIN_DHCPV6_RECONFIGURE_KEY_SIZE \<equiv> 16"

abbreviation (input) RIN_DHCPV6_RECONFIGURE_OK :: int where "RIN_DHCPV6_RECONFIGURE_OK \<equiv> 0"
abbreviation (input) RIN_DHCPV6_RECONFIGURE_KEY_CAPTURED :: int
  where "RIN_DHCPV6_RECONFIGURE_KEY_CAPTURED \<equiv> 1"
abbreviation (input) RIN_DHCPV6_RECONFIGURE_ACCEPTED :: int
  where "RIN_DHCPV6_RECONFIGURE_ACCEPTED \<equiv> 2"
abbreviation (input) RIN_DHCPV6_RECONFIGURE_INVALID_ARGUMENT :: int
  where "RIN_DHCPV6_RECONFIGURE_INVALID_ARGUMENT \<equiv> - 1"
abbreviation (input) RIN_DHCPV6_RECONFIGURE_NOT_FOR_US :: int
  where "RIN_DHCPV6_RECONFIGURE_NOT_FOR_US \<equiv> - 3"
abbreviation (input) RIN_DHCPV6_RECONFIGURE_AUTH_FAILED :: int
  where "RIN_DHCPV6_RECONFIGURE_AUTH_FAILED \<equiv> - 4"
abbreviation (input) RIN_DHCPV6_RECONFIGURE_REPLAY :: int
  where "RIN_DHCPV6_RECONFIGURE_REPLAY \<equiv> - 5"
abbreviation (input) RIN_DHCPV6_RECONFIGURE_BUSY :: int
  where "RIN_DHCPV6_RECONFIGURE_BUSY \<equiv> - 6"

abbreviation (input) RKAP_MESSAGE_REPLY :: u8 where "RKAP_MESSAGE_REPLY \<equiv> 7"
abbreviation (input) RKAP_MESSAGE_RECONFIGURE :: u8 where "RKAP_MESSAGE_RECONFIGURE \<equiv> 10"
abbreviation (input) DHCPV6_OPTION_AUTHENTICATION :: u16 where "DHCPV6_OPTION_AUTHENTICATION \<equiv> 11"
abbreviation (input) DHCPV6_OPTION_RECONFIGURE_MESSAGE :: u16
  where "DHCPV6_OPTION_RECONFIGURE_MESSAGE \<equiv> 19"
abbreviation (input) DHCPV6_RKAP_PROTOCOL :: u8 where "DHCPV6_RKAP_PROTOCOL \<equiv> 3"
abbreviation (input) DHCPV6_RKAP_ALGORITHM_HMAC_MD5 :: u8
  where "DHCPV6_RKAP_ALGORITHM_HMAC_MD5 \<equiv> 1"
abbreviation (input) DHCPV6_RKAP_RDM_MONOTONIC :: u8 where "DHCPV6_RKAP_RDM_MONOTONIC \<equiv> 0"
abbreviation (input) DHCPV6_RKAP_AUTH_SIZE :: nat where "DHCPV6_RKAP_AUTH_SIZE \<equiv> 28"
abbreviation (input) DHCPV6_RKAP_KEY_TYPE :: u8 where "DHCPV6_RKAP_KEY_TYPE \<equiv> 1"
abbreviation (input) DHCPV6_RKAP_DIGEST_TYPE :: u8 where "DHCPV6_RKAP_DIGEST_TYPE \<equiv> 2"

record dhcpv6_reconfigure_state =
  rs_version :: u32
  rs_struct_size :: u32
  rs_initialized :: u32
  rs_key_present :: u32
  rs_interface_generation :: u64
  rs_lease_generation :: u64
  rs_highest_replay :: u64
  rs_server_duid_size :: u32
  rs_reserved0 :: u32
  rs_server_duid :: bytes
  rs_key :: bytes

abbreviation (input) sizeof_reconfigure_state :: u32 where "sizeof_reconfigure_state \<equiv> 96"

definition zero_reconfigure_state :: dhcpv6_reconfigure_state where
  "zero_reconfigure_state = \<lparr>rs_version = 0, rs_struct_size = 0, rs_initialized = 0,
     rs_key_present = 0, rs_interface_generation = 0, rs_lease_generation = 0,
     rs_highest_replay = 0, rs_server_duid_size = 0, rs_reserved0 = 0,
     rs_server_duid = zero_bytes 32, rs_key = zero_bytes 16\<rparr>"

record reconfigure_options =
  ro_client_duid :: bytes
  ro_server_duid :: bytes
  ro_authentication :: bytes
  ro_authentication_offset :: nat
  ro_replay :: u64
  ro_requested_kind :: u8
  ro_client_seen :: bool
  ro_server_seen :: bool
  ro_authentication_seen :: bool
  ro_requested_kind_seen :: bool

definition zero_reconfigure_options :: reconfigure_options where
  "zero_reconfigure_options = \<lparr>ro_client_duid = [], ro_server_duid = [], ro_authentication = [],
     ro_authentication_offset = 0, ro_replay = 0, ro_requested_kind = 0, ro_client_seen = False,
     ro_server_seen = False, ro_authentication_seen = False, ro_requested_kind_seen = False\<rparr>"

section \<open>Validity\<close>

definition rkap_all_zero :: "bytes \<Rightarrow> bool" where
  "rkap_all_zero bytes = (byte_accumulate bytes 0 = 0)"

definition load_be64 :: "bytes \<Rightarrow> u64" where
  "load_be64 bytes =
     fold (\<lambda>index v. push_bit 8 v OR ucast (bytes ! index)) [0..<8] 0"

definition client_snapshot_valid :: "dhcpv6_client \<Rightarrow> bool" where
  "client_snapshot_valid client =
     (c_version client = RIN_DHCPV6_CLIENT_VERSION \<and> c_struct_size client = sizeof_client \<and>
      c_initialized client = 1 \<and> c_interface_generation client \<noteq> 0 \<and>
      c_lease_generation client \<noteq> 0 \<and> c_duid_size client \<ge> 5 \<and> c_duid_size client \<le> 32 \<and>
      c_server_duid_size client \<ge> 5 \<and> c_server_duid_size client \<le> 32)"

definition reconfigure_state_valid :: "dhcpv6_reconfigure_state \<Rightarrow> bool" where
  "reconfigure_state_valid state =
     (if rs_version state \<noteq> RIN_DHCPV6_RECONFIGURE_VERSION \<or>
         rs_struct_size state \<noteq> sizeof_reconfigure_state \<or> rs_initialized state \<noteq> 1 \<or>
         rs_key_present state > 1 \<or> rs_reserved0 state \<noteq> 0
      then False
      else if rs_key_present state = 0
      then rs_interface_generation state = 0 \<and> rs_lease_generation state = 0 \<and>
           rs_highest_replay state = 0 \<and> rs_server_duid_size state = 0 \<and>
           rkap_all_zero (rs_server_duid state) \<and> rkap_all_zero (rs_key state)
      else rs_interface_generation state \<noteq> 0 \<and> rs_lease_generation state \<noteq> 0 \<and>
           rs_server_duid_size state \<ge> 5 \<and> rs_server_duid_size state \<le> 32 \<and>
           duid_valid (rs_server_duid state) (unat (rs_server_duid_size state)) \<and>
           rkap_all_zero (drop (unat (rs_server_duid_size state)) (rs_server_duid state)) \<and>
           \<not> rkap_all_zero (rs_key state))"

definition clear_key :: "dhcpv6_reconfigure_state \<Rightarrow> dhcpv6_reconfigure_state" where
  "clear_key state = state\<lparr>rs_key_present := 0, rs_interface_generation := 0,
     rs_lease_generation := 0, rs_highest_replay := 0, rs_server_duid_size := 0,
     rs_server_duid := zero_bytes 32, rs_key := zero_bytes 16\<rparr>"

section \<open>Options\<close>

text \<open>The body of the loop of \<open>parse_options\<close>; \<open>offset\<close> is where the value starts in the message.\<close>

definition reconfigure_option ::
    "u16 \<Rightarrow> bytes \<Rightarrow> nat \<Rightarrow> reconfigure_options \<Rightarrow> reconfigure_options option" where
  "reconfigure_option code value offset parsed =
     (if code = DHCPV6_OPTION_CLIENT_ID then
        (if ro_client_seen parsed \<or> length value < 5 \<or> length value > 32 then None
         else Some (parsed\<lparr>ro_client_seen := True, ro_client_duid := value\<rparr>))
      else if code = DHCPV6_OPTION_SERVER_ID then
        (if ro_server_seen parsed \<or> length value < 5 \<or> length value > 32 then None
         else Some (parsed\<lparr>ro_server_seen := True, ro_server_duid := value\<rparr>))
      else if code = DHCPV6_OPTION_AUTHENTICATION then
        (if ro_authentication_seen parsed \<or> length value \<noteq> DHCPV6_RKAP_AUTH_SIZE \<or>
            value ! 0 \<noteq> DHCPV6_RKAP_PROTOCOL \<or> value ! 1 \<noteq> DHCPV6_RKAP_ALGORITHM_HMAC_MD5 \<or>
            value ! 2 \<noteq> DHCPV6_RKAP_RDM_MONOTONIC
         then None
         else Some (parsed\<lparr>ro_authentication_seen := True, ro_authentication := value,
                ro_authentication_offset := offset, ro_replay := load_be64 (drop 3 value)\<rparr>))
      else if code = DHCPV6_OPTION_RECONFIGURE_MESSAGE then
        (if ro_requested_kind_seen parsed \<or> length value \<noteq> 1 \<or>
            (ucast (value ! 0) \<noteq> RIN_DHCPV6_TRANSMIT_RENEW \<and>
             ucast (value ! 0) \<noteq> RIN_DHCPV6_TRANSMIT_REBIND \<and>
             ucast (value ! 0) \<noteq> RIN_DHCPV6_TRANSMIT_INFORMATION_REQUEST)
         then None
         else Some (parsed\<lparr>ro_requested_kind_seen := True, ro_requested_kind := value ! 0\<rparr>))
      else Some parsed)"

text \<open>The loop: at most 32 options; \<open>count\<close> options have been read before \<open>offset\<close>.\<close>

function parse_options_loop ::
    "bytes \<Rightarrow> nat \<Rightarrow> nat \<Rightarrow> reconfigure_options \<Rightarrow> reconfigure_options option" where
  "parse_options_loop message offset count parsed =
     (if offset < length message then
        (if length message - offset < 4 \<or> count = 32 then None
         else
           let code = load_be16 (drop offset message);
               len = unat (load_be16 (drop (offset + 2) message))
           in if len > length message - (offset + 4) then None
              else case reconfigure_option code (take len (drop (offset + 4) message))
                     (offset + 4) parsed of
                  None \<Rightarrow> None
                | Some parsed' \<Rightarrow>
                    parse_options_loop message (offset + 4 + len) (Suc count) parsed')
      else if offset = length message then Some parsed else None)"
  by pat_completeness auto
termination
  by (relation "measure (\<lambda>(message, offset, _, _). length message - offset)") auto

declare parse_options_loop.simps [simp del]

definition parse_options :: "bytes \<Rightarrow> reconfigure_options option" where
  "parse_options message =
     (if length message < 4 \<or> length message > 512 then None
      else parse_options_loop message 4 0 zero_reconfigure_options)"

section \<open>Operations\<close>

definition reconfigure_init :: dhcpv6_reconfigure_state where
  "reconfigure_init = zero_reconfigure_state\<lparr>rs_version := RIN_DHCPV6_RECONFIGURE_VERSION,
     rs_struct_size := sizeof_reconfigure_state, rs_initialized := 1\<rparr>"

text \<open>The two identifiers of a message name this client and the given server.\<close>

definition options_for_client :: "reconfigure_options \<Rightarrow> dhcpv6_client \<Rightarrow> u32 \<Rightarrow> bytes \<Rightarrow> bool" where
  "options_for_client parsed client server_duid_size server_duid =
     (length (ro_client_duid parsed) = unat (c_duid_size client) \<and>
      length (ro_server_duid parsed) = unat server_duid_size \<and>
      byte_equal (ro_client_duid parsed) (c_duid client) (unat (c_duid_size client)) \<and>
      byte_equal (ro_server_duid parsed) server_duid (unat server_duid_size))"

definition capture_accepts ::
    "dhcpv6_client \<Rightarrow> bytes \<Rightarrow> reconfigure_options option" where
  "capture_accepts client message =
     (if message ! 0 \<noteq> RKAP_MESSAGE_REPLY then None
      else case parse_options message of
          None \<Rightarrow> None
        | Some parsed \<Rightarrow>
            if \<not> ro_client_seen parsed \<or> \<not> ro_server_seen parsed \<or>
               \<not> ro_authentication_seen parsed \<or>
               ro_authentication parsed ! 11 \<noteq> DHCPV6_RKAP_KEY_TYPE \<or>
               \<not> options_for_client parsed client (c_server_duid_size client)
                   (c_server_duid client) \<or>
               rkap_all_zero (take 16 (drop 12 (ro_authentication parsed)))
            then None else Some parsed)"

definition reconfigure_capture_reply ::
    "dhcpv6_reconfigure_state \<Rightarrow> dhcpv6_client \<Rightarrow> bytes \<Rightarrow> int \<times> dhcpv6_reconfigure_state" where
  "reconfigure_capture_reply state client message =
     (if \<not> reconfigure_state_valid state \<or> \<not> client_snapshot_valid client \<or>
         length message < 4 \<or> length message > 512
      then (RIN_DHCPV6_RECONFIGURE_INVALID_ARGUMENT, state)
      else
        let state = clear_key state
        in case capture_accepts client message of
            None \<Rightarrow> (RIN_DHCPV6_RECONFIGURE_NOT_FOR_US, state)
          | Some parsed \<Rightarrow>
              (RIN_DHCPV6_RECONFIGURE_KEY_CAPTURED, state\<lparr>
                 rs_interface_generation := c_interface_generation client,
                 rs_lease_generation := c_lease_generation client,
                 rs_highest_replay := ro_replay parsed,
                 rs_server_duid_size := c_server_duid_size client,
                 rs_server_duid := byte_copy (rs_server_duid state) 0
                   (take (unat (c_server_duid_size client)) (c_server_duid client)),
                 rs_key := take 16 (drop 12 (ro_authentication parsed)),
                 rs_key_present := 1\<rparr>))"

text \<open>The key belongs to the lease the client holds.\<close>

definition key_matches_client :: "dhcpv6_reconfigure_state \<Rightarrow> dhcpv6_client \<Rightarrow> bool" where
  "key_matches_client state client =
     (rs_key_present state = 1 \<and>
      rs_interface_generation state = c_interface_generation client \<and>
      rs_lease_generation state = c_lease_generation client \<and>
      rs_server_duid_size state = c_server_duid_size client \<and>
      byte_equal (rs_server_duid state) (c_server_duid client) (unat (c_server_duid_size client)))"

definition receive_accepts ::
    "dhcpv6_reconfigure_state \<Rightarrow> dhcpv6_client \<Rightarrow> bytes \<Rightarrow> reconfigure_options option" where
  "receive_accepts state client message =
     (if message ! 0 \<noteq> RKAP_MESSAGE_RECONFIGURE then None
      else case parse_options message of
          None \<Rightarrow> None
        | Some parsed \<Rightarrow>
            if \<not> ro_client_seen parsed \<or> \<not> ro_server_seen parsed \<or>
               \<not> ro_authentication_seen parsed \<or> \<not> ro_requested_kind_seen parsed \<or>
               ro_authentication parsed ! 11 \<noteq> DHCPV6_RKAP_DIGEST_TYPE \<or>
               \<not> options_for_client parsed client (rs_server_duid_size state)
                   (rs_server_duid state)
            then None else Some parsed)"

text \<open>The authenticated bytes: the message with the digest field zeroed.\<close>

definition digest_input :: "bytes \<Rightarrow> reconfigure_options \<Rightarrow> bytes" where
  "digest_input message parsed =
     byte_copy message (ro_authentication_offset parsed + 12) (zero_bytes 16)"

definition digest_matches :: "dhcpv6_reconfigure_state \<Rightarrow> bytes \<Rightarrow> reconfigure_options \<Rightarrow> bool" where
  "digest_matches state message parsed =
     byte_equal (hmac_md5 (rs_key state) (digest_input message parsed))
       (drop 12 (ro_authentication parsed)) 16"

definition reconfigure_receive ::
    "dhcpv6_reconfigure_state \<Rightarrow> dhcpv6_client \<Rightarrow> bytes \<Rightarrow> u64 \<Rightarrow>
     int \<times> dhcpv6_reconfigure_state \<times> dhcpv6_client" where
  "reconfigure_receive state client message now_ms =
     (if \<not> reconfigure_state_valid state \<or> \<not> client_snapshot_valid client \<or>
         length message < 4 \<or> length message > 512
      then (RIN_DHCPV6_RECONFIGURE_INVALID_ARGUMENT, state, client)
      else if \<not> key_matches_client state client
      then (RIN_DHCPV6_RECONFIGURE_NOT_FOR_US, state, client)
      else if c_pending_present client \<noteq> 0 \<or>
              (c_state client \<noteq> RIN_DHCPV6_STATE_BOUND \<and>
               c_state client \<noteq> RIN_DHCPV6_STATE_INFORMATION_BOUND)
      then (RIN_DHCPV6_RECONFIGURE_BUSY, state, client)
      else case receive_accepts state client message of
          None \<Rightarrow> (RIN_DHCPV6_RECONFIGURE_NOT_FOR_US, state, client)
        | Some parsed \<Rightarrow>
            if ro_replay parsed \<le> rs_highest_replay state
            then (RIN_DHCPV6_RECONFIGURE_REPLAY, state, client)
            else if \<not> digest_matches state message parsed
            then (RIN_DHCPV6_RECONFIGURE_AUTH_FAILED, state, client)
            else case client_request_reconfigure client (ucast (ro_requested_kind parsed)) now_ms of
              (result, client') \<Rightarrow>
                if result = RIN_DHCPV6_BUSY
                then (RIN_DHCPV6_RECONFIGURE_BUSY, state, client')
                else if result \<noteq> RIN_DHCPV6_OK
                then (RIN_DHCPV6_RECONFIGURE_NOT_FOR_US, state, client')
                else (RIN_DHCPV6_RECONFIGURE_ACCEPTED,
                      state\<lparr>rs_highest_replay := ro_replay parsed\<rparr>, client'))"

section \<open>The entry points\<close>

definition rin_dhcpv6_reconfigure_state_valid :: "dhcpv6_reconfigure_state cptr \<Rightarrow> bool" where
  "rin_dhcpv6_reconfigure_state_valid state =
     (case state of Null \<Rightarrow> False | Ptr _ s \<Rightarrow> reconfigure_state_valid s)"

definition rin_dhcpv6_reconfigure_init ::
    "dhcpv6_reconfigure_state cptr \<Rightarrow> int \<times> dhcpv6_reconfigure_state cptr" where
  "rin_dhcpv6_reconfigure_init state =
     (case state of
        Null \<Rightarrow> (RIN_DHCPV6_RECONFIGURE_INVALID_ARGUMENT, Null)
      | Ptr a _ \<Rightarrow> (RIN_DHCPV6_RECONFIGURE_OK, Ptr a reconfigure_init))"

definition rin_dhcpv6_reconfigure_capture_reply ::
    "dhcpv6_reconfigure_state cptr \<Rightarrow> dhcpv6_client cptr \<Rightarrow> bytes cptr \<Rightarrow>
     int \<times> dhcpv6_reconfigure_state cptr" where
  "rin_dhcpv6_reconfigure_capture_reply state client message =
     (case (state, client, message) of
        (Ptr a s, Ptr _ c, Ptr _ bs) \<Rightarrow> map_prod id (Ptr a) (reconfigure_capture_reply s c bs)
      | _ \<Rightarrow> (RIN_DHCPV6_RECONFIGURE_INVALID_ARGUMENT, state))"

definition rin_dhcpv6_reconfigure_receive ::
    "dhcpv6_reconfigure_state cptr \<Rightarrow> dhcpv6_client cptr \<Rightarrow> bytes cptr \<Rightarrow> u64 \<Rightarrow>
     int \<times> dhcpv6_reconfigure_state cptr \<times> dhcpv6_client cptr" where
  "rin_dhcpv6_reconfigure_receive state client message now_ms =
     (case (state, client, message) of
        (Ptr a s, Ptr b c, Ptr _ bs) \<Rightarrow>
          (case reconfigure_receive s c bs now_ms of
             (status, s', c') \<Rightarrow> (status, Ptr a s', Ptr b c'))
      | _ \<Rightarrow> (RIN_DHCPV6_RECONFIGURE_INVALID_ARGUMENT, state, client))"

definition rin_dhcpv6_reconfigure_destroy ::
    "dhcpv6_reconfigure_state cptr \<Rightarrow> dhcpv6_reconfigure_state cptr" where
  "rin_dhcpv6_reconfigure_destroy state =
     (case state of Null \<Rightarrow> Null | Ptr a _ \<Rightarrow> Ptr a zero_reconfigure_state)"

end
