(* ===== verification/Dhcpv6_Reconfigure_Spec.thy ===== *)
theory Dhcpv6_Reconfigure_Spec
  imports Dhcpv6_Reconfigure Dhcpv6_Client_Spec
begin

text \<open>
  What the reconfigure key owner guarantees: a Reconfigure message is acted on only when it carries
  the HMAC-MD5 of its own bytes under the captured key and a replay value above every earlier one;
  a genuine message is acted on; the state stays valid.
\<close>

section \<open>The option loop\<close>

text \<open>What the loop knows about the Authentication option: its value is a slice of the message.\<close>

definition authentication_slice :: "bytes \<Rightarrow> reconfigure_options \<Rightarrow> bool" where
  "authentication_slice message p = (ro_authentication_seen p \<longrightarrow>
     ro_authentication_offset p + 28 \<le> length message \<and>
     ro_authentication p = take 28 (drop (ro_authentication_offset p) message) \<and>
     ro_replay p = load_be64 (drop 3 (ro_authentication p)))"

lemma reconfigure_option_slice:
  assumes "reconfigure_option code (take len (drop offset message)) offset p = Some p'"
    and "len \<le> length message - offset" and "authentication_slice message p"
  shows "authentication_slice message p'"
  using assms by (auto simp: reconfigure_option_def authentication_slice_def split: if_splits)

lemma parse_options_loop_slice:
  "parse_options_loop message offset count p = Some p' \<Longrightarrow> authentication_slice message p \<Longrightarrow>
     authentication_slice message p'"
proof (induction message offset count p rule: parse_options_loop.induct)
  case (1 message offset count p)
  let ?len = "unat (load_be16 (drop (offset + 2) message))"
  show ?case
  proof (cases "offset < length message")
    case True
    then obtain q where len: "?len \<le> length message - (offset + 4)"
      and q: "reconfigure_option (load_be16 (drop offset message)) (take ?len (drop (offset + 4) message))
        (offset + 4) p = Some q"
      and rest: "parse_options_loop message (offset + 4 + ?len) (Suc count) q = Some p'"
      and guard: "\<not> (length message - offset < 4 \<or> count = 32)"
      using "1.prems"(1) by (subst (asm) parse_options_loop.simps) (auto simp: Let_def not_less split: if_splits option.splits)
    from 1(1) [OF True guard refl refl _ q rest] len reconfigure_option_slice [OF q _ "1.prems"(2)]
    show ?thesis by auto
  next
    case False
    with "1.prems" show ?thesis by (subst (asm) parse_options_loop.simps) (auto split: if_splits)
  qed
qed

lemma parse_options_slice:
  "parse_options message = Some p \<Longrightarrow> authentication_slice message p"
  by (auto simp: parse_options_def authentication_slice_def zero_reconfigure_options_def
      split: if_splits dest!: parse_options_loop_slice)

section \<open>Well-formed states\<close>

definition wf_reconfigure :: "dhcpv6_reconfigure_state \<Rightarrow> bool" where
  "wf_reconfigure s = (length (rs_server_duid s) = 32 \<and> length (rs_key s) = 16)"

definition reconfigure_inv :: "dhcpv6_reconfigure_state \<Rightarrow> bool" where
  "reconfigure_inv s = (wf_reconfigure s \<and> reconfigure_state_valid s)"

lemma reconfigure_init_inv: "reconfigure_inv reconfigure_init"
  by code_simp

lemma clear_key_inv:
  assumes "reconfigure_state_valid s"
  shows "reconfigure_inv (clear_key s)"
  using assms by (auto simp: reconfigure_inv_def wf_reconfigure_def reconfigure_state_valid_def clear_key_def
      rkap_all_zero_def byte_accumulate_eq_0 zero_bytes_def split: if_splits)

text \<open>The identity of the server that the client knows is a valid DUID.\<close>

lemma client_server_duid:
  assumes "client_inv c" and "c_server_duid_size c \<noteq> 0"
  shows "duid_valid (c_server_duid c) (unat (c_server_duid_size c))" and "length (c_server_duid c) = 32"
    and "unat (c_server_duid_size c) \<le> 32"
proof -
  have "client_server_valid c" using client_validD client_invD(2) [OF assms(1)] by blast
  then show d: "duid_valid (c_server_duid c) (unat (c_server_duid_size c))"
    using assms(2) by (auto simp: client_server_valid_def Let_def split: if_splits)
  then show "unat (c_server_duid_size c) \<le> 32" by (auto simp: duid_valid_def split: if_splits)
  show "length (c_server_duid c) = 32" using client_invD(1) [OF assms(1)] by (simp add: wf_client_def)
qed

lemma load_be64_cong: "take 8 xs = take 8 ys \<Longrightarrow> load_be64 xs = load_be64 ys"
proof -
  assume eq: "take 8 xs = take 8 ys"
  have "xs ! i = ys ! i" if "i < 8" for i using arg_cong [OF eq, of "\<lambda>zs. zs ! i"] that by simp
  then show "load_be64 xs = load_be64 ys" unfolding load_be64_def by (intro fold_cong) auto
qed

lemma load_be64_take: "8 \<le> n \<Longrightarrow> load_be64 (take n xs) = load_be64 xs"
  by (rule load_be64_cong) (simp add: min_def)

section \<open>Capturing a key\<close>

lemma capture_accepted:
  assumes "capture_accepts c m = Some p"
  shows "\<exists>off. off + 28 \<le> length m \<and> take 16 (drop 12 (ro_authentication p)) = take 16 (drop (off + 12) m) \<and>
      ro_replay p = load_be64 (drop (off + 3) m)"
    and "\<not> rkap_all_zero (take 16 (drop 12 (ro_authentication p)))"
    and "length (take 16 (drop 12 (ro_authentication p))) = 16"
proof -
  have p: "parse_options m = Some p" "ro_authentication_seen p"
    and nz: "\<not> rkap_all_zero (take 16 (drop 12 (ro_authentication p)))"
    using assms by (auto simp: capture_accepts_def split: if_splits option.splits)
  then have a: "ro_authentication_offset p + 28 \<le> length m"
      "ro_authentication p = take 28 (drop (ro_authentication_offset p) m)"
      "ro_replay p = load_be64 (drop 3 (ro_authentication p))"
    using parse_options_slice by (auto simp: authentication_slice_def)
  show "\<not> rkap_all_zero (take 16 (drop 12 (ro_authentication p)))" by (rule nz)
  show "length (take 16 (drop 12 (ro_authentication p))) = 16" using a by simp
  have "ro_replay p = load_be64 (drop (ro_authentication_offset p + 3) m)"
    unfolding a(3) a(2) by (simp add: drop_take load_be64_take add.commute)
  then show "\<exists>off. off + 28 \<le> length m \<and> take 16 (drop 12 (ro_authentication p)) = take 16 (drop (off + 12) m) \<and>
      ro_replay p = load_be64 (drop (off + 3) m)"
    using a(1,2) by (intro exI [of _ "ro_authentication_offset p"]) (simp add: drop_take add.commute)
qed

lemma capture_inv:
  assumes "reconfigure_inv s" and "client_inv c" and "reconfigure_capture_reply s c m = (st, s')"
  shows "reconfigure_inv s'"
proof (cases "st = RIN_DHCPV6_RECONFIGURE_KEY_CAPTURED")
  case True
  let ?n = "unat (c_server_duid_size c)" and ?d = "take (unat (c_server_duid_size c)) (c_server_duid c)"
  obtain p where snap: "client_snapshot_valid c" and p: "capture_accepts c m = Some p" and v: "reconfigure_state_valid s"
    and s': "s' = (clear_key s)\<lparr>rs_interface_generation := c_interface_generation c,
      rs_lease_generation := c_lease_generation c, rs_highest_replay := ro_replay p,
      rs_server_duid_size := c_server_duid_size c, rs_server_duid := byte_copy (zero_bytes 32) 0 ?d,
      rs_key := take 16 (drop 12 (ro_authentication p)), rs_key_present := 1\<rparr>"
    using assms(3) True by (auto simp: reconfigure_capture_reply_def Let_def clear_key_def split: if_splits option.splits)
  have sz: "c_server_duid_size c \<noteq> 0" "c_server_duid_size c \<ge> 5" "c_server_duid_size c \<le> 32"
    using snap by (auto simp: client_snapshot_valid_def)
  note d = client_server_duid [OF assms(2) sz(1)]
  have "length ?d = ?n" using d by simp
  then have "rkap_all_zero (drop ?n (byte_copy (zero_bytes 32) 0 ?d))"
    by (simp add: rkap_all_zero_def byte_accumulate_eq_0 zero_bytes_def)
  moreover have "duid_valid (byte_copy (zero_bytes 32) 0 ?d) ?n" using d by (simp add: duid_valid_copy del: byte_copy_0)
  moreover have "length (byte_copy (zero_bytes 32) 0 ?d) = 32" using d by simp
  ultimately show ?thesis
    using v snap sz capture_accepted(2,3) [OF p]
    by (simp add: s' reconfigure_inv_def wf_reconfigure_def reconfigure_state_valid_def clear_key_def
        client_snapshot_valid_def del: byte_copy_0 split: if_splits)
next
  case False
  with assms clear_key_inv show ?thesis
    by (auto simp: reconfigure_capture_reply_def reconfigure_inv_def Let_def split: if_splits option.splits)
qed

text \<open>Capturing replaces the key. If a Reply is accepted, the new key and replay value are the
  bytes 12 to 27 and 3 to 10 of an Authentication option inside the message, and the key is bound to
  the interface, the lease and the server of the client. If the Reply carries no usable key, the old
  key is gone. The state stays valid in every case.\<close>

theorem capture_replaces_key:
  assumes "reconfigure_inv s" and "client_inv c" and "reconfigure_capture_reply s c m = (st, s')"
  shows "reconfigure_inv s' \<and>
    (if st = RIN_DHCPV6_RECONFIGURE_KEY_CAPTURED
     then key_matches_client s' c \<and> (\<exists>off. off + 28 \<le> length m \<and>
       rs_key s' = take 16 (drop (off + 12) m) \<and> rs_highest_replay s' = load_be64 (drop (off + 3) m))
     else if st = RIN_DHCPV6_RECONFIGURE_NOT_FOR_US then rs_key_present s' = 0
     else st = RIN_DHCPV6_RECONFIGURE_INVALID_ARGUMENT \<and> s' = s)"
proof (cases "st = RIN_DHCPV6_RECONFIGURE_KEY_CAPTURED")
  case True
  obtain p where snap: "client_snapshot_valid c" and p: "capture_accepts c m = Some p"
    and s': "rs_key s' = take 16 (drop 12 (ro_authentication p))" "rs_highest_replay s' = ro_replay p"
      "rs_key_present s' = 1" "rs_interface_generation s' = c_interface_generation c"
      "rs_lease_generation s' = c_lease_generation c" "rs_server_duid_size s' = c_server_duid_size c"
      "rs_server_duid s' = byte_copy (zero_bytes 32) 0 (take (unat (c_server_duid_size c)) (c_server_duid c))"
    using assms(3) True by (auto simp: reconfigure_capture_reply_def Let_def clear_key_def split: if_splits option.splits)
  have "c_server_duid_size c \<noteq> 0" using snap by (auto simp: client_snapshot_valid_def)
  note d = client_server_duid [OF assms(2) this]
  have "key_matches_client s' c" using s' d by (simp add: key_matches_client_def byte_equal_iff)
  with True capture_inv [OF assms] capture_accepted(1) [OF p] s' show ?thesis by auto
next
  case False
  with capture_inv [OF assms] assms(3) show ?thesis
    by (auto simp: reconfigure_capture_reply_def clear_key_def Let_def split: if_splits option.splits)
qed

definition sample_key :: bytes where
  "sample_key = map of_nat [1..<17]"

definition sample_key_reply :: bytes where
  "sample_key_reply = [RKAP_MESSAGE_REPLY, 4, 5, 6] @ options_encode
     [(DHCPV6_OPTION_CLIENT_ID, sample_duid), (DHCPV6_OPTION_SERVER_ID, sample_server),
      (DHCPV6_OPTION_AUTHENTICATION, [3, 1, 0, 0, 0, 0, 0, 0, 0, 0, 5, 1] @ sample_key)]"

definition sample_keyed :: dhcpv6_reconfigure_state where
  "sample_keyed = reconfigure_init\<lparr>rs_key_present := 1, rs_interface_generation := 1,
     rs_lease_generation := 1, rs_highest_replay := 5, rs_server_duid_size := 10,
     rs_server_duid := sample_server @ zero_bytes 22, rs_key := sample_key\<rparr>"

theorem capture_replaces_key_witness:
  "reconfigure_capture_reply reconfigure_init sample_bound sample_key_reply =
     (RIN_DHCPV6_RECONFIGURE_KEY_CAPTURED, sample_keyed) \<and>
   reconfigure_inv sample_keyed \<and> key_matches_client sample_keyed sample_bound"
proof -
  have c: "reconfigure_capture_reply reconfigure_init sample_bound sample_key_reply =
     (RIN_DHCPV6_RECONFIGURE_KEY_CAPTURED, sample_keyed)"
    by code_simp
  from capture_replaces_key [OF reconfigure_init_inv sample_inv(3) c] c show ?thesis by simp
qed

section \<open>Accepting a Reconfigure message\<close>

lemma receive_accepted:
  assumes "reconfigure_receive s c m now_ms = (RIN_DHCPV6_RECONFIGURE_ACCEPTED, s', c')"
  obtains p where "receive_accepts s c m = Some p" "key_matches_client s c" "rs_highest_replay s < ro_replay p"
    "digest_matches s m p" "s' = s\<lparr>rs_highest_replay := ro_replay p\<rparr>"
    "client_request_reconfigure c (ucast (ro_requested_kind p)) now_ms = (RIN_DHCPV6_OK, c')"
    "c_pending_present c = 0"
    "c_state c = RIN_DHCPV6_STATE_BOUND \<or> c_state c = RIN_DHCPV6_STATE_INFORMATION_BOUND"
  using assms by (auto simp: reconfigure_receive_def not_le split: if_splits option.splits prod.splits)





section \<open>Replay\<close>

text \<open>The replay values acted on while the key owner handles a sequence of messages, each with the
  client and the time at which it arrives.\<close>

fun accepted_replays ::
    "dhcpv6_reconfigure_state \<Rightarrow> (dhcpv6_client \<times> bytes \<times> u64) list \<Rightarrow> u64 list" where
  "accepted_replays s [] = []"
| "accepted_replays s ((c, m, now_ms) # arrivals) =
     (case reconfigure_receive s c m now_ms of (status, s', _) \<Rightarrow>
        (if status = RIN_DHCPV6_RECONFIGURE_ACCEPTED then [rs_highest_replay s'] else []) @
        accepted_replays s' arrivals)"

lemma receive_rejected:
  "reconfigure_receive s c m now_ms = (st, s', c') \<Longrightarrow> st \<noteq> RIN_DHCPV6_RECONFIGURE_ACCEPTED \<Longrightarrow> s' = s"
  by (auto simp: reconfigure_receive_def split: if_splits option.splits prod.splits)

lemma receive_replay:
  assumes "reconfigure_receive s c m now_ms = (RIN_DHCPV6_RECONFIGURE_ACCEPTED, s', c')"
  shows "rs_highest_replay s < rs_highest_replay s'"
  using assms by (rule receive_accepted) simp

text \<open>C30: Along any sequence of messages, from any senders and at any times, the replay values acted on
  are strictly increasing and lie above the value the key was captured with. In particular no message
  is acted on twice.\<close>

theorem replays_increase:
  "sorted_wrt (<) (rs_highest_replay s # accepted_replays s arrivals)"
proof (induction s arrivals rule: accepted_replays.induct)
  case (2 s c m now_ms arrivals)
  obtain st s' c' where r: "reconfigure_receive s c m now_ms = (st, s', c')" by (metis prod_cases3)
  have IH: "sorted_wrt (<) (rs_highest_replay s' # accepted_replays s' arrivals)" by (rule 2 [OF r [symmetric] refl])
  show ?case
  proof (cases "st = RIN_DHCPV6_RECONFIGURE_ACCEPTED")
    case True
    have "rs_highest_replay s < rs_highest_replay s'" using r unfolding True by (rule receive_replay)
    with IH r True show ?thesis by auto
  next
    case False
    with IH receive_rejected [OF r False] r show ?thesis by simp
  qed
qed simp

section \<open>A genuine message is acted on\<close>





definition reconfigure_kind :: "u8 \<Rightarrow> bool" where
  "reconfigure_kind kind = (kind = 5 \<or> kind = 6 \<or> kind = 11)"


lemma length_option_encode [simp]: "length (option_encode (code, v)) = 4 + length v"
  by (simp add: option_encode_def)






lemma sample_reconfigure_checks:
  "reconfigure_inv sample_keyed" "client_snapshot_valid sample_bound" "key_matches_client sample_keyed sample_bound"
  "c_pending_present sample_bound = 0" "c_state sample_bound = RIN_DHCPV6_STATE_BOUND"
  "rs_highest_replay sample_keyed < load_be64 [0, 0, 0, 0, 0, 0, 0, 6]" "reconfigure_kind 6"
  "fst (client_request_reconfigure sample_bound (ucast (6 :: u8)) 6000) = RIN_DHCPV6_OK"
  by code_simp+

lemma sample_request:
  "client_request_reconfigure sample_bound (ucast (6 :: u8)) 6000 =
     (RIN_DHCPV6_OK, snd (client_request_reconfigure sample_bound (ucast (6 :: u8)) 6000))"
  using sample_reconfigure_checks(8) by (metis prod.collapse)



section \<open>What the client sends next\<close>

text \<open>A client that accepted a request to reconfigure sends the requested message next, in a new
  transaction and without waiting, unless it is a Renew asked for after the rebind time.\<close>

theorem request_reconfigure_sends:
  assumes "client_request_reconfigure c kind now_ms = (RIN_DHCPV6_OK, c')"
    and "\<not> renew_after_rebind c kind now_ms"
  shows "prepare_kind c' now_ms = Some (kind, True) \<and> c_pending_present c' = 0"
proof -
  have allowed: "reconfigure_allowed c kind" and pending: "c_pending_present c = 0" and live: "now_ms < c_expires_at_ms c"
    and c': "c' = (if kind = RIN_DHCPV6_TRANSMIT_REBIND
           then c\<lparr>c_state := RIN_DHCPV6_STATE_RECONFIGURE_REBINDING, c_transaction_started_ms := 0,
             c_next_transmit_ms := now_ms, c_retry_ms := 0, c_offer_t1_seconds := DHCPV6_RETRANSMISSION_NOT_STARTED\<rparr>
           else if kind = RIN_DHCPV6_TRANSMIT_INFORMATION_REQUEST \<and> \<not> client_information_mode c
           then c\<lparr>c_state := RIN_DHCPV6_STATE_RECONFIGURE_INFORMATION_REQUESTING, c_transaction_started_ms := 0,
             c_next_transmit_ms := now_ms, c_retry_ms := 0, c_offer_t1_seconds := DHCPV6_RETRANSMISSION_NOT_STARTED\<rparr>
           else c\<lparr>c_renew_at_ms := now_ms\<rparr>)\<lparr>c_last_now_ms := now_ms, c_generation := c_generation c + 1\<rparr>"
    using assms(1) by (auto simp: client_request_reconfigure_def expire_lease_cases Let_def not_le split: if_splits)
  have early: "kind = RIN_DHCPV6_TRANSMIT_RENEW \<Longrightarrow> now_ms < c_rebind_at_ms c"
    using assms(2) live by (simp add: renew_after_rebind_def not_le)
  show ?thesis
    using allowed pending early unfolding c' reconfigure_allowed_def
    by (elim disjE conjE) (simp_all add: prepare_kind_def Let_def)
qed

theorem request_reconfigure_sends_witness:
  "\<exists>c'. client_request_reconfigure sample_bound 6 6000 = (RIN_DHCPV6_OK, c') \<and> prepare_kind c' 6000 = Some (6, True)"
proof -
  have "\<not> renew_after_rebind sample_bound 6 6000" by code_simp
  moreover have "client_request_reconfigure sample_bound 6 6000 =
      (RIN_DHCPV6_OK, snd (client_request_reconfigure sample_bound 6 6000))"
    using sample_request by simp
  ultimately show ?thesis using request_reconfigure_sends by blast
qed

end
