(* ===== verification/Dhcpv4_Wire.thy ===== *)
theory Dhcpv4_Wire
  imports Rin_Prelude
begin

text \<open>
  The DHCPv4 reply parser of \<open>src/rin_dhcpv4_wire.c\<close>: the fixed header is matched against the
  outstanding request, the options are read once, and a reply is published only when all of them
  are consistent.
\<close>

section \<open>Constants and records\<close>

abbreviation (input) RIN_DHCPV4_WIRE_VERSION :: u32 where "RIN_DHCPV4_WIRE_VERSION \<equiv> 1"
abbreviation (input) RIN_DHCPV4_MAX_PACKET_SIZE :: nat where "RIN_DHCPV4_MAX_PACKET_SIZE \<equiv> 576"
abbreviation (input) RIN_DHCPV4_MAX_DNS_SERVERS :: nat where "RIN_DHCPV4_MAX_DNS_SERVERS \<equiv> 3"

abbreviation (input) RIN_DHCPV4_WIRE_OK :: int where "RIN_DHCPV4_WIRE_OK \<equiv> 0"
abbreviation (input) RIN_DHCPV4_WIRE_INVALID_ARGUMENT :: int
  where "RIN_DHCPV4_WIRE_INVALID_ARGUMENT \<equiv> - 1"
abbreviation (input) RIN_DHCPV4_WIRE_MALFORMED :: int where "RIN_DHCPV4_WIRE_MALFORMED \<equiv> - 2"
abbreviation (input) RIN_DHCPV4_WIRE_NOT_FOR_US :: int where "RIN_DHCPV4_WIRE_NOT_FOR_US \<equiv> - 3"
abbreviation (input) RIN_DHCPV4_WIRE_UNSUPPORTED :: int where "RIN_DHCPV4_WIRE_UNSUPPORTED \<equiv> - 4"

abbreviation (input) RIN_DHCPV4_MESSAGE_OFFER :: u32 where "RIN_DHCPV4_MESSAGE_OFFER \<equiv> 2"
abbreviation (input) RIN_DHCPV4_MESSAGE_ACK :: u32 where "RIN_DHCPV4_MESSAGE_ACK \<equiv> 5"
abbreviation (input) RIN_DHCPV4_MESSAGE_NAK :: u32 where "RIN_DHCPV4_MESSAGE_NAK \<equiv> 6"

abbreviation (input) DHCPV4_FIXED_HEADER_SIZE :: nat where "DHCPV4_FIXED_HEADER_SIZE \<equiv> 236"
abbreviation (input) DHCPV4_MAGIC_COOKIE :: u32 where "DHCPV4_MAGIC_COOKIE \<equiv> 0x63825363"
abbreviation (input) DHCPV4_OP_BOOTREPLY :: u8 where "DHCPV4_OP_BOOTREPLY \<equiv> 2"
abbreviation (input) DHCPV4_HTYPE_ETHERNET :: u8 where "DHCPV4_HTYPE_ETHERNET \<equiv> 1"
abbreviation (input) DHCPV4_HLEN_ETHERNET :: u8 where "DHCPV4_HLEN_ETHERNET \<equiv> 6"
abbreviation (input) DHCPV4_OPTION_PAD :: u8 where "DHCPV4_OPTION_PAD \<equiv> 0"
abbreviation (input) DHCPV4_OPTION_END :: u8 where "DHCPV4_OPTION_END \<equiv> 255"
abbreviation (input) DHCPV4_OPTION_SUBNET_MASK :: u8 where "DHCPV4_OPTION_SUBNET_MASK \<equiv> 1"
abbreviation (input) DHCPV4_OPTION_ROUTER :: u8 where "DHCPV4_OPTION_ROUTER \<equiv> 3"
abbreviation (input) DHCPV4_OPTION_DNS :: u8 where "DHCPV4_OPTION_DNS \<equiv> 6"
abbreviation (input) DHCPV4_OPTION_LEASE_TIME :: u8 where "DHCPV4_OPTION_LEASE_TIME \<equiv> 51"
abbreviation (input) DHCPV4_OPTION_MESSAGE_TYPE :: u8 where "DHCPV4_OPTION_MESSAGE_TYPE \<equiv> 53"
abbreviation (input) DHCPV4_OPTION_SERVER_IDENTIFIER :: u8
  where "DHCPV4_OPTION_SERVER_IDENTIFIER \<equiv> 54"
abbreviation (input) DHCPV4_OPTION_RENEWAL_TIME :: u8 where "DHCPV4_OPTION_RENEWAL_TIME \<equiv> 58"
abbreviation (input) DHCPV4_OPTION_REBIND_TIME :: u8 where "DHCPV4_OPTION_REBIND_TIME \<equiv> 59"
abbreviation (input) DHCPV4_MAX_OPTIONS :: nat where "DHCPV4_MAX_OPTIONS \<equiv> 64"

record dhcpv4_reply =
  r4_struct_size :: u32
  r4_version :: u32
  r4_transaction_id :: u32
  r4_message_type :: u32
  r4_yiaddr :: bytes
  r4_server_identifier :: bytes
  r4_subnet_mask :: bytes
  r4_router :: bytes
  r4_dns_servers :: "bytes list"
  r4_dns_server_count :: u32
  r4_lease_seconds :: u32
  r4_renewal_seconds :: u32
  r4_rebind_seconds :: u32
  r4_options_seen :: u32
  r4_reserved :: u32

definition zero_dhcpv4_reply :: dhcpv4_reply where
  "zero_dhcpv4_reply = \<lparr>r4_struct_size = 0, r4_version = 0, r4_transaction_id = 0,
     r4_message_type = 0, r4_yiaddr = zero_bytes 4, r4_server_identifier = zero_bytes 4,
     r4_subnet_mask = zero_bytes 4, r4_router = zero_bytes 4,
     r4_dns_servers = replicate 3 (zero_bytes 4), r4_dns_server_count = 0, r4_lease_seconds = 0,
     r4_renewal_seconds = 0, r4_rebind_seconds = 0, r4_options_seen = 0, r4_reserved = 0\<rparr>"

text \<open>The local variables of the parser: the candidate reply, the \<open>seen_\<close> flags and the number of
  options.\<close>

record dhcpv4_scan =
  s4_candidate :: dhcpv4_reply
  s4_option_count :: nat
  s4_seen_message :: bool
  s4_seen_server :: bool
  s4_seen_lease :: bool
  s4_seen_renewal :: bool
  s4_seen_rebind :: bool
  s4_seen_subnet :: bool
  s4_seen_router :: bool
  s4_seen_dns :: bool

definition dhcpv4_scan_start :: dhcpv4_scan where
  "dhcpv4_scan_start = \<lparr>s4_candidate = zero_dhcpv4_reply, s4_option_count = 0,
     s4_seen_message = False, s4_seen_server = False, s4_seen_lease = False,
     s4_seen_renewal = False, s4_seen_rebind = False, s4_seen_subnet = False,
     s4_seen_router = False, s4_seen_dns = False\<rparr>"

section \<open>Checks\<close>

definition v4_all_zero :: "bytes \<Rightarrow> nat \<Rightarrow> bool" where
  "v4_all_zero bytes n = (byte_accumulate (take n bytes) 0 = 0)"

definition v4_address_valid :: "bytes \<Rightarrow> bool" where
  "v4_address_valid address =
     (\<not> v4_all_zero address 4 \<and>
      \<not> (address ! 0 = 255 \<and> address ! 1 = 255 \<and> address ! 2 = 255 \<and> address ! 3 = 255))"

definition seconds_order_valid :: "dhcpv4_reply \<Rightarrow> bool" where
  "seconds_order_valid reply =
     (if r4_message_type reply = RIN_DHCPV4_MESSAGE_NAK then True
      else if r4_lease_seconds reply = 0 \<or> r4_lease_seconds reply = UINT32_MAX then False
      else if r4_renewal_seconds reply = 0 \<or> r4_rebind_seconds reply = 0 \<or>
              r4_renewal_seconds reply \<ge> r4_rebind_seconds reply \<or>
              r4_rebind_seconds reply \<ge> r4_lease_seconds reply
      then False
      else True)"

section \<open>Options\<close>

text \<open>The loop over the addresses of a DNS option: the four bytes at every index are checked and
  copied; \<^const>\<open>None\<close> is the early return.\<close>

fun copy_dns_servers :: "nat \<Rightarrow> nat \<Rightarrow> bytes \<Rightarrow> bytes list \<Rightarrow> bytes list option" where
  "copy_dns_servers 0 index value servers = Some servers"
| "copy_dns_servers (Suc n) index value servers =
     (if \<not> v4_address_valid (drop (index * 4) value) then None
      else copy_dns_servers n (Suc index) value
             (servers[index := take 4 (drop (index * 4) value)]))"

text \<open>The \<open>switch\<close> on the option code; \<open>value\<close> has the length of the option.\<close>

definition v4_option :: "u8 \<Rightarrow> bytes \<Rightarrow> dhcpv4_scan \<Rightarrow> int + dhcpv4_scan" where
  "v4_option code value scan =
     (let candidate = s4_candidate scan in
      if code = DHCPV4_OPTION_MESSAGE_TYPE then
        (if length value \<noteq> 1 \<or> s4_seen_message scan then Inl RIN_DHCPV4_WIRE_MALFORMED
         else let message_type = (ucast (value ! 0) :: u32) in
           if message_type \<noteq> RIN_DHCPV4_MESSAGE_OFFER \<and> message_type \<noteq> RIN_DHCPV4_MESSAGE_ACK \<and>
              message_type \<noteq> RIN_DHCPV4_MESSAGE_NAK
           then Inl RIN_DHCPV4_WIRE_UNSUPPORTED
           else Inr (scan\<lparr>s4_candidate := candidate\<lparr>r4_message_type := message_type\<rparr>,
                       s4_seen_message := True\<rparr>))
      else if code = DHCPV4_OPTION_SERVER_IDENTIFIER then
        (if length value \<noteq> 4 \<or> s4_seen_server scan \<or> \<not> v4_address_valid value
         then Inl RIN_DHCPV4_WIRE_MALFORMED
         else Inr (scan\<lparr>s4_candidate := candidate\<lparr>r4_server_identifier := value\<rparr>,
                     s4_seen_server := True\<rparr>))
      else if code = DHCPV4_OPTION_SUBNET_MASK then
        (if length value \<noteq> 4 \<or> s4_seen_subnet scan then Inl RIN_DHCPV4_WIRE_MALFORMED
         else Inr (scan\<lparr>s4_candidate := candidate\<lparr>r4_subnet_mask := value\<rparr>,
                     s4_seen_subnet := True\<rparr>))
      else if code = DHCPV4_OPTION_ROUTER then
        (if length value \<noteq> 4 \<or> s4_seen_router scan \<or> \<not> v4_address_valid value
         then Inl RIN_DHCPV4_WIRE_MALFORMED
         else Inr (scan\<lparr>s4_candidate := candidate\<lparr>r4_router := value\<rparr>,
                     s4_seen_router := True\<rparr>))
      else if code = DHCPV4_OPTION_DNS then
        (if length value = 0 \<or> length value mod 4 \<noteq> 0 \<or> s4_seen_dns scan \<or>
            length value > RIN_DHCPV4_MAX_DNS_SERVERS * 4
         then Inl RIN_DHCPV4_WIRE_MALFORMED
         else case copy_dns_servers (length value div 4) 0 value (r4_dns_servers candidate) of
             None \<Rightarrow> Inl RIN_DHCPV4_WIRE_MALFORMED
           | Some servers \<Rightarrow>
               Inr (scan\<lparr>s4_candidate := candidate\<lparr>r4_dns_servers := servers,
                           r4_dns_server_count := of_nat (length value div 4)\<rparr>,
                         s4_seen_dns := True\<rparr>))
      else if code = DHCPV4_OPTION_LEASE_TIME then
        (if length value \<noteq> 4 \<or> s4_seen_lease scan then Inl RIN_DHCPV4_WIRE_MALFORMED
         else Inr (scan\<lparr>s4_candidate := candidate\<lparr>r4_lease_seconds := load_be32 value\<rparr>,
                     s4_seen_lease := True\<rparr>))
      else if code = DHCPV4_OPTION_RENEWAL_TIME then
        (if length value \<noteq> 4 \<or> s4_seen_renewal scan then Inl RIN_DHCPV4_WIRE_MALFORMED
         else Inr (scan\<lparr>s4_candidate := candidate\<lparr>r4_renewal_seconds := load_be32 value\<rparr>,
                     s4_seen_renewal := True\<rparr>))
      else if code = DHCPV4_OPTION_REBIND_TIME then
        (if length value \<noteq> 4 \<or> s4_seen_rebind scan then Inl RIN_DHCPV4_WIRE_MALFORMED
         else Inr (scan\<lparr>s4_candidate := candidate\<lparr>r4_rebind_seconds := load_be32 value\<rparr>,
                     s4_seen_rebind := True\<rparr>))
      else Inr scan)"

text \<open>The loop over the options; the result also tells whether the end option was seen, after which
  only padding may follow.\<close>

function v4_options :: "bytes \<Rightarrow> dhcpv4_scan \<Rightarrow> int + bool \<times> dhcpv4_scan" where
  "v4_options [] scan = Inr (False, scan)"
| "v4_options (code # rest) scan =
     (if code = DHCPV4_OPTION_PAD then v4_options rest scan
      else if code = DHCPV4_OPTION_END then
        (if list_all (\<lambda>b. b = DHCPV4_OPTION_PAD) rest then Inr (True, scan)
         else Inl RIN_DHCPV4_WIRE_MALFORMED)
      else
        let scan = scan\<lparr>s4_option_count := s4_option_count scan + 1\<rparr>
        in if s4_option_count scan > DHCPV4_MAX_OPTIONS \<or> rest = []
           then Inl RIN_DHCPV4_WIRE_MALFORMED
           else
             let len = unat (hd rest) in
             if len > length (tl rest) then Inl RIN_DHCPV4_WIRE_MALFORMED
             else case v4_option code (take len (tl rest)) scan of
                 Inl status \<Rightarrow> Inl status
               | Inr scan' \<Rightarrow> v4_options (drop len (tl rest)) scan')"
  by pat_completeness auto
termination
  by (relation "measure (length \<circ> fst)") (auto simp: less_Suc_eq_le)

section \<open>The parser\<close>

definition v4_header_matches :: "bytes \<Rightarrow> u32 \<Rightarrow> bytes \<Rightarrow> bool" where
  "v4_header_matches packet expected_transaction_id client_hardware_address =
     (packet ! 0 = DHCPV4_OP_BOOTREPLY \<and> packet ! 1 = DHCPV4_HTYPE_ETHERNET \<and>
      packet ! 2 = DHCPV4_HLEN_ETHERNET \<and> packet ! 3 = 0 \<and>
      load_be32 (drop 4 packet) = expected_transaction_id \<and>
      byte_equal (drop 28 packet) client_hardware_address 6 \<and>
      v4_all_zero (drop 34 packet) 10 \<and>
      load_be32 (drop DHCPV4_FIXED_HEADER_SIZE packet) = DHCPV4_MAGIC_COOKIE)"

definition v4_finish :: "bytes \<Rightarrow> u32 \<Rightarrow> bool \<Rightarrow> dhcpv4_scan \<Rightarrow> int + dhcpv4_reply" where
  "v4_finish packet expected_transaction_id ended scan =
     (let candidate = s4_candidate scan;
          publish = (\<lambda>candidate. Inr (candidate\<lparr>r4_struct_size := 68,
            r4_version := RIN_DHCPV4_WIRE_VERSION,
            r4_transaction_id := expected_transaction_id,
            r4_options_seen := of_nat (s4_option_count scan)\<rparr>))
      in if \<not> ended \<or> \<not> s4_seen_message scan \<or> \<not> s4_seen_server scan
         then Inl RIN_DHCPV4_WIRE_MALFORMED
         else if r4_message_type candidate = RIN_DHCPV4_MESSAGE_NAK then
           (if \<not> v4_all_zero (drop 16 packet) 4 \<or> s4_seen_lease scan \<or> s4_seen_renewal scan \<or>
               s4_seen_rebind scan
            then Inl RIN_DHCPV4_WIRE_MALFORMED else publish candidate)
         else if \<not> v4_address_valid (drop 16 packet) \<or> \<not> s4_seen_lease scan \<or>
                 \<not> s4_seen_renewal scan \<or> \<not> s4_seen_rebind scan \<or>
                 \<not> seconds_order_valid candidate
         then Inl RIN_DHCPV4_WIRE_MALFORMED
         else publish (candidate\<lparr>r4_yiaddr := take 4 (drop 16 packet)\<rparr>))"

text \<open>An error leaves the published reply zeroed.\<close>

definition v4_parse_reply :: "bytes \<Rightarrow> u32 \<Rightarrow> bytes \<Rightarrow> int + dhcpv4_reply" where
  "v4_parse_reply packet expected_transaction_id client_hardware_address =
     (if length packet < DHCPV4_FIXED_HEADER_SIZE + 4 \<or>
         length packet > RIN_DHCPV4_MAX_PACKET_SIZE \<or> expected_transaction_id = 0 \<or>
         v4_all_zero client_hardware_address 6
      then Inl RIN_DHCPV4_WIRE_INVALID_ARGUMENT
      else if \<not> v4_header_matches packet expected_transaction_id client_hardware_address
      then Inl RIN_DHCPV4_WIRE_NOT_FOR_US
      else case v4_options (drop (DHCPV4_FIXED_HEADER_SIZE + 4) packet) dhcpv4_scan_start of
          Inl status \<Rightarrow> Inl status
        | Inr (ended, scan) \<Rightarrow> v4_finish packet expected_transaction_id ended scan)"

definition rin_dhcpv4_parse_reply ::
    "bytes cptr \<Rightarrow> u32 \<Rightarrow> bytes cptr \<Rightarrow> dhcpv4_reply cptr \<Rightarrow> int \<times> dhcpv4_reply cptr" where
  "rin_dhcpv4_parse_reply packet expected_transaction_id client_hardware_address reply =
     (case (packet, client_hardware_address, reply) of
        (Ptr _ bs, Ptr _ mac, Ptr a _) \<Rightarrow>
          (case v4_parse_reply bs expected_transaction_id mac of
             Inl status \<Rightarrow> (status, Ptr a zero_dhcpv4_reply)
           | Inr r \<Rightarrow> (RIN_DHCPV4_WIRE_OK, Ptr a r))
      | (_, _, Ptr a _) \<Rightarrow> (RIN_DHCPV4_WIRE_INVALID_ARGUMENT, Ptr a zero_dhcpv4_reply)
      | _ \<Rightarrow> (RIN_DHCPV4_WIRE_INVALID_ARGUMENT, reply))"

end
