(* ===== verification/Dhcpv4_Wire_Spec.thy ===== *)
theory Dhcpv4_Wire_Spec
  imports Dhcpv4_Wire
begin

text \<open>
  The DHCPv4 reply parser against a reference reading of the packet: the options as a list of codes
  and values, and the fields of a reply as lookups in that list. An accepted reply is consistent,
  and a well-formed server reply is accepted with exactly its fields.
\<close>

section \<open>The option area as a list\<close>

text \<open>The reference reading: padding is skipped, the list ends at the end option, and only padding may
  follow.\<close>

function v4_walk :: "bytes \<Rightarrow> (u8 \<times> bytes) list option" where
  "v4_walk [] = None"
| "v4_walk (code # rest) =
     (if code = DHCPV4_OPTION_PAD then v4_walk rest
      else if code = DHCPV4_OPTION_END then
        (if rest = zero_bytes (length rest) then Some [] else None)
      else case rest of
          [] \<Rightarrow> None
        | n # rest' \<Rightarrow>
            if unat n > length rest' then None
            else map_option ((#) (code, take (unat n) rest')) (v4_walk (drop (unat n) rest')))"
  by pat_completeness auto
termination
  by (relation "measure length") auto

fun v4_fold :: "(u8 \<times> bytes) list \<Rightarrow> dhcpv4_scan \<Rightarrow> int + dhcpv4_scan" where
  "v4_fold [] scan = Inr scan"
| "v4_fold ((code, v) # opts) scan =
     (case v4_option code v (scan\<lparr>s4_option_count := s4_option_count scan + 1\<rparr>) of
        Inl status \<Rightarrow> Inl status | Inr scan' \<Rightarrow> v4_fold opts scan')"

lemma v4_option_count:
  "v4_option code v scan = Inr scan' \<Longrightarrow> s4_option_count scan' = s4_option_count scan"
  by (auto simp: v4_option_def Let_def split: if_splits option.splits)

lemma padding_zero: "list_all (\<lambda>b. b = DHCPV4_OPTION_PAD) rest = (rest = zero_bytes (length rest))"
  by (simp add: zero_bytes_def list_all_iff map_replicate_const [symmetric] list_eq_iff_nth_eq all_set_conv_all_nth)

text \<open>The loop of the parser succeeds exactly when the reference reading exists, has at most 64 options
  in all, and every option is accepted in turn.\<close>

lemma v4_options_walk:
  "v4_options bs scan = Inr (True, scan') \<longleftrightarrow>
     (\<exists>opts. v4_walk bs = Some opts \<and> v4_fold opts scan = Inr scan' \<and>
        (opts \<noteq> [] \<longrightarrow> s4_option_count scan + length opts \<le> DHCPV4_MAX_OPTIONS))"
proof (induction bs scan arbitrary: scan' rule: v4_options.induct)
  case (2 code rest scan)
  let ?scan = "scan\<lparr>s4_option_count := s4_option_count scan + 1\<rparr>"
  consider "code = 0" | "code = 255" | "code \<noteq> 0" "code \<noteq> 255" by blast
  then show ?case
  proof cases
    case 1
    then show ?thesis using "2.IH"(1) by simp
  next
    case 2
    then show ?thesis by (auto simp: padding_zero)
  next
    case 3
    show ?thesis
    proof (cases "s4_option_count ?scan > DHCPV4_MAX_OPTIONS \<or> rest = [] \<or> unat (hd rest) > length (tl rest)")
      case True
      with 3 show ?thesis by (auto simp: Let_def split: list.splits)
    next
      case False
      then obtain n rest' where r: "rest = n # rest'" "unat n \<le> length rest'" by (cases rest) auto
      let ?v = "take (unat n) rest'" and ?tl = "drop (unat n) rest'"
      have IH: "v4_options ?tl s = Inr (True, scan') \<longleftrightarrow> (\<exists>opts. v4_walk ?tl = Some opts \<and>
          v4_fold opts s = Inr scan' \<and> (opts \<noteq> [] \<longrightarrow> s4_option_count s + length opts \<le> 64))"
        if "v4_option code ?v ?scan = Inr s" for s
        using "2.IH"(2) [OF 3 refl _ refl _ _, of s scan'] False r that by auto
      show ?thesis
      proof (cases "v4_option code ?v ?scan")
        case (Inl a)
        with 3 r False show ?thesis by (auto simp: Let_def)
      next
        case (Inr s)
        from v4_option_count [OF Inr] have "s4_option_count s = s4_option_count scan + 1" by simp
        with 3 r False Inr IH [OF Inr] show ?thesis by (fastforce simp: Let_def)
      qed
    qed
  qed
qed simp
section \<open>The fields of a reply as lookups\<close>

definition v4_value :: "(u8 \<times> bytes) list \<Rightarrow> u8 \<Rightarrow> bytes" where
  "v4_value opts code = (case map_of opts code of None \<Rightarrow> [] | Some v \<Rightarrow> v)"

definition v4_has :: "(u8 \<times> bytes) list \<Rightarrow> u8 \<Rightarrow> bool" where
  "v4_has opts code = (map_of opts code \<noteq> None)"

definition v4_address :: "(u8 \<times> bytes) list \<Rightarrow> u8 \<Rightarrow> bytes" where
  "v4_address opts code = (if v4_has opts code then v4_value opts code else zero_bytes 4)"

definition v4_seconds :: "(u8 \<times> bytes) list \<Rightarrow> u8 \<Rightarrow> u32" where
  "v4_seconds opts code = (if v4_has opts code then load_be32 (v4_value opts code) else 0)"

definition v4_type :: "(u8 \<times> bytes) list \<Rightarrow> u32" where
  "v4_type opts = (if v4_has opts DHCPV4_OPTION_MESSAGE_TYPE
     then ucast (v4_value opts DHCPV4_OPTION_MESSAGE_TYPE ! 0) else 0)"

definition v4_chunk :: "bytes \<Rightarrow> nat \<Rightarrow> bytes" where
  "v4_chunk v i = take 4 (drop (i * 4) v)"

definition v4_dns_slots :: "bytes \<Rightarrow> bytes list" where
  "v4_dns_slots v = map (\<lambda>i. if i < length v div 4 then v4_chunk v i else zero_bytes 4) [0..<3]"

definition v4_reply_of :: "(u8 \<times> bytes) list \<Rightarrow> dhcpv4_reply" where
  "v4_reply_of opts = zero_dhcpv4_reply\<lparr>r4_message_type := v4_type opts,
     r4_server_identifier := v4_address opts DHCPV4_OPTION_SERVER_IDENTIFIER,
     r4_subnet_mask := v4_address opts DHCPV4_OPTION_SUBNET_MASK,
     r4_router := v4_address opts DHCPV4_OPTION_ROUTER,
     r4_dns_servers := v4_dns_slots (v4_value opts DHCPV4_OPTION_DNS),
     r4_dns_server_count := of_nat (length (v4_value opts DHCPV4_OPTION_DNS) div 4),
     r4_lease_seconds := v4_seconds opts DHCPV4_OPTION_LEASE_TIME,
     r4_renewal_seconds := v4_seconds opts DHCPV4_OPTION_RENEWAL_TIME,
     r4_rebind_seconds := v4_seconds opts DHCPV4_OPTION_REBIND_TIME\<rparr>"

definition v4_scan_of :: "(u8 \<times> bytes) list \<Rightarrow> dhcpv4_scan" where
  "v4_scan_of opts = \<lparr>s4_candidate = v4_reply_of opts, s4_option_count = length opts,
     s4_seen_message = v4_has opts DHCPV4_OPTION_MESSAGE_TYPE,
     s4_seen_server = v4_has opts DHCPV4_OPTION_SERVER_IDENTIFIER,
     s4_seen_lease = v4_has opts DHCPV4_OPTION_LEASE_TIME,
     s4_seen_renewal = v4_has opts DHCPV4_OPTION_RENEWAL_TIME,
     s4_seen_rebind = v4_has opts DHCPV4_OPTION_REBIND_TIME,
     s4_seen_subnet = v4_has opts DHCPV4_OPTION_SUBNET_MASK,
     s4_seen_router = v4_has opts DHCPV4_OPTION_ROUTER,
     s4_seen_dns = v4_has opts DHCPV4_OPTION_DNS\<rparr>"

section \<open>Admissible options\<close>

definition v4_known :: "u8 set" where
  "v4_known = {DHCPV4_OPTION_MESSAGE_TYPE, DHCPV4_OPTION_SERVER_IDENTIFIER, DHCPV4_OPTION_SUBNET_MASK,
     DHCPV4_OPTION_ROUTER, DHCPV4_OPTION_DNS, DHCPV4_OPTION_LEASE_TIME, DHCPV4_OPTION_RENEWAL_TIME,
     DHCPV4_OPTION_REBIND_TIME}"

definition v4_admissible :: "u8 \<Rightarrow> bytes \<Rightarrow> bool" where
  "v4_admissible code v =
     ((code = DHCPV4_OPTION_MESSAGE_TYPE \<longrightarrow> length v = 1 \<and> v ! 0 \<in> {2, 5, 6}) \<and>
      (code \<in> {DHCPV4_OPTION_SERVER_IDENTIFIER, DHCPV4_OPTION_ROUTER} \<longrightarrow> length v = 4 \<and> v4_address_valid v) \<and>
      (code \<in> {DHCPV4_OPTION_SUBNET_MASK, DHCPV4_OPTION_LEASE_TIME, DHCPV4_OPTION_RENEWAL_TIME,
         DHCPV4_OPTION_REBIND_TIME} \<longrightarrow> length v = 4) \<and>
      (code = DHCPV4_OPTION_DNS \<longrightarrow> length v \<in> {4, 8, 12} \<and>
         (\<forall>i < length v div 4. v4_address_valid (v4_chunk v i))))"

fun v4_all_admissible :: "(u8 \<times> bytes) list \<Rightarrow> bool" where
  "v4_all_admissible opts = ((\<forall>(code, v) \<in> set opts. v4_admissible code v) \<and>
     distinct (filter (\<lambda>code. code \<in> v4_known) (map fst opts)))"

lemma copy_dns_servers_some:
  assumes "index + n \<le> length servers"
  shows "copy_dns_servers n index v servers = (if \<forall>i < n. v4_address_valid (drop ((index + i) * 4) v)
    then Some (take index servers @ map (v4_chunk v) [index..<index + n] @ drop (index + n) servers) else None)"
  using assms
proof (induction n arbitrary: index servers)
  case (Suc n)
  have all: "(\<forall>i < Suc n. v4_address_valid (drop ((index + i) * 4) v)) =
      (v4_address_valid (drop (index * 4) v) \<and> (\<forall>i < n. v4_address_valid (drop ((Suc index + i) * 4) v)))"
    by (simp add: All_less_Suc2 ac_simps)
  have upd: "take (Suc index) (servers[index := v4_chunk v index]) = take index servers @ [v4_chunk v index]"
    using Suc.prems by (simp add: take_Suc_conv_app_nth list_update_append upd_conv_take_nth_drop)
  have c: "take 4 (drop (index * 4) v) = v4_chunk v index" by (simp add: v4_chunk_def)
  have u: "map (v4_chunk v) [index..<index + Suc n] = v4_chunk v index # map (v4_chunk v) [Suc index..<Suc index + n]"
    by (simp add: upt_conv_Cons del: upt_Suc)
  show ?case unfolding all u using Suc.IH [of "Suc index" "servers[index := v4_chunk v index]"] Suc.prems upd
    by (simp add: c del: upt_Suc)
qed simp

lemma v4_address_valid_chunk: "v4_address_valid (take 4 bs) = v4_address_valid bs"
  by (simp add: v4_address_valid_def v4_all_zero_def)

lemma v4_has_snoc: "v4_has (opts @ [(code, v)]) k = (v4_has opts k \<or> k = code)"
  by (auto simp: v4_has_def map_of_append split: option.splits)

lemma v4_value_snoc:
  "v4_value (opts @ [(code, v)]) k = (if k = code \<and> \<not> v4_has opts k then v else v4_value opts k)"
  by (auto simp: v4_has_def v4_value_def map_add_def split: option.splits)

lemma v4_has_iff: "v4_has opts k = (k \<in> fst ` set opts)"
  by (simp add: v4_has_def map_of_eq_None_iff)

lemma v4_value_missing: "\<not> v4_has opts k \<Longrightarrow> v4_value opts k = []"
  by (simp add: v4_has_def v4_value_def)

lemma v4_dns_copied:
  assumes "length v \<in> {4, 8, 12}"
  shows "copy_dns_servers (length v div 4) 0 v (v4_dns_slots []) =
    (if \<forall>i < length v div 4. v4_address_valid (v4_chunk v i) then Some (v4_dns_slots v) else None)"
proof -
  have "length v div 4 \<le> 3" using assms by auto
  then have "map (v4_chunk v) [0..<length v div 4] @ drop (length v div 4) (v4_dns_slots []) = v4_dns_slots v"
    by (auto simp: v4_dns_slots_def nth_append intro!: nth_equalityI)
  with copy_dns_servers_some [of 0 "length v div 4" "v4_dns_slots []" v] \<open>length v div 4 \<le> 3\<close>
  show ?thesis by (simp add: v4_chunk_def v4_address_valid_chunk) (simp add: v4_dns_slots_def)
qed

text \<open>What one more option adds to the reference fields.\<close>

lemma v4_scan_snoc:
  assumes "\<not> v4_has opts code"
  shows "code = DHCPV4_OPTION_MESSAGE_TYPE \<Longrightarrow> v4_scan_of (opts @ [(code, v)]) = (v4_scan_of opts)\<lparr>
      s4_option_count := length opts + 1, s4_candidate := (v4_reply_of opts)\<lparr>r4_message_type := ucast (v ! 0)\<rparr>,
      s4_seen_message := True\<rparr>"
    and "code = DHCPV4_OPTION_SERVER_IDENTIFIER \<Longrightarrow> v4_scan_of (opts @ [(code, v)]) = (v4_scan_of opts)\<lparr>
      s4_option_count := length opts + 1, s4_candidate := (v4_reply_of opts)\<lparr>r4_server_identifier := v\<rparr>,
      s4_seen_server := True\<rparr>"
    and "code = DHCPV4_OPTION_SUBNET_MASK \<Longrightarrow> v4_scan_of (opts @ [(code, v)]) = (v4_scan_of opts)\<lparr>
      s4_option_count := length opts + 1, s4_candidate := (v4_reply_of opts)\<lparr>r4_subnet_mask := v\<rparr>,
      s4_seen_subnet := True\<rparr>"
    and "code = DHCPV4_OPTION_ROUTER \<Longrightarrow> v4_scan_of (opts @ [(code, v)]) = (v4_scan_of opts)\<lparr>
      s4_option_count := length opts + 1, s4_candidate := (v4_reply_of opts)\<lparr>r4_router := v\<rparr>,
      s4_seen_router := True\<rparr>"
    and "code = DHCPV4_OPTION_LEASE_TIME \<Longrightarrow> v4_scan_of (opts @ [(code, v)]) = (v4_scan_of opts)\<lparr>
      s4_option_count := length opts + 1, s4_candidate := (v4_reply_of opts)\<lparr>r4_lease_seconds := load_be32 v\<rparr>,
      s4_seen_lease := True\<rparr>"
    and "code = DHCPV4_OPTION_RENEWAL_TIME \<Longrightarrow> v4_scan_of (opts @ [(code, v)]) = (v4_scan_of opts)\<lparr>
      s4_option_count := length opts + 1, s4_candidate := (v4_reply_of opts)\<lparr>r4_renewal_seconds := load_be32 v\<rparr>,
      s4_seen_renewal := True\<rparr>"
    and "code = DHCPV4_OPTION_REBIND_TIME \<Longrightarrow> v4_scan_of (opts @ [(code, v)]) = (v4_scan_of opts)\<lparr>
      s4_option_count := length opts + 1, s4_candidate := (v4_reply_of opts)\<lparr>r4_rebind_seconds := load_be32 v\<rparr>,
      s4_seen_rebind := True\<rparr>"
    and "code = DHCPV4_OPTION_DNS \<Longrightarrow> v4_scan_of (opts @ [(code, v)]) = (v4_scan_of opts)\<lparr>
      s4_option_count := length opts + 1, s4_candidate := (v4_reply_of opts)\<lparr>r4_dns_servers := v4_dns_slots v,
        r4_dns_server_count := of_nat (length v div 4)\<rparr>, s4_seen_dns := True\<rparr>"
  using assms
  by (simp_all add: v4_scan_of_def v4_reply_of_def v4_type_def v4_address_def v4_seconds_def v4_has_snoc v4_value_snoc
      cong: if_cong split del: if_split)

lemma v4_scan_snoc_unknown:
  "code \<notin> v4_known \<Longrightarrow> v4_scan_of (opts @ [(code, v)]) = (v4_scan_of opts)\<lparr>s4_option_count := length opts + 1\<rparr>"
  by (simp add: v4_known_def eq_commute [of _ code] v4_scan_of_def v4_reply_of_def v4_type_def v4_address_def
      v4_seconds_def v4_has_snoc v4_value_snoc cong: if_cong split del: if_split)

lemma ucast_u8_eq: "unat k < 256 \<Longrightarrow> (ucast (b :: u8) = (k :: u32)) = (b = ucast k)"
  using unsigned_less [of b, where 'a = nat] by (auto simp: word_unat_eq_iff unsigned_ucast_eq take_bit_nat_eq_self)

lemma v4_option_step:
  "\<exists>status. v4_option code v ((v4_scan_of opts)\<lparr>s4_option_count := length opts + 1\<rparr>) =
     (if v4_admissible code v \<and> (code \<in> v4_known \<longrightarrow> \<not> v4_has opts code)
      then Inr (v4_scan_of (opts @ [(code, v)])) else Inl status)"
proof (cases "code \<in> v4_known")
  case True
  have sel: "s4_candidate (v4_scan_of opts) = v4_reply_of opts"
    "s4_seen_message (v4_scan_of opts) = v4_has opts 53" "s4_seen_server (v4_scan_of opts) = v4_has opts 54"
    "s4_seen_subnet (v4_scan_of opts) = v4_has opts 1" "s4_seen_router (v4_scan_of opts) = v4_has opts 3"
    "s4_seen_dns (v4_scan_of opts) = v4_has opts 6" "s4_seen_lease (v4_scan_of opts) = v4_has opts 51"
    "s4_seen_renewal (v4_scan_of opts) = v4_has opts 58" "s4_seen_rebind (v4_scan_of opts) = v4_has opts 59"
    by (simp_all add: v4_scan_of_def)
  note defs = v4_option_def v4_admissible_def sel Let_def
  show ?thesis
  proof (cases "v4_has opts code")
    case has: True
    from True show ?thesis
      unfolding v4_known_def insert_iff empty_iff using has by (elim disjE FalseE) (simp_all add: defs v4_known_def)
  next
    case False
    note snoc = v4_scan_snoc [OF False, of v]
    consider "code = 53" | "code = 6" | "code = 54" | "code = 1" | "code = 3" | "code = 51" | "code = 58" | "code = 59"
      using True by (auto simp: v4_known_def)
    then show ?thesis
    proof cases
      case 1
      have "(ucast (v ! 0) = (2 :: u32)) = (v ! 0 = 2)" "(ucast (v ! 0) = (5 :: u32)) = (v ! 0 = 5)"
          "(ucast (v ! 0) = (6 :: u32)) = (v ! 0 = 6)"
        by (simp_all add: ucast_u8_eq)
      with 1 False snoc(1) show ?thesis by (simp add: defs)
    next
      case 2
      have len: "(n = 0 \<or> n mod 4 \<noteq> 0 \<or> n > 12) = (n \<notin> {4, 8, 12})" for n :: nat by simp presburger
      have slots: "r4_dns_servers (v4_reply_of opts) = v4_dns_slots []"
        using False 2 by (simp add: v4_reply_of_def v4_value_missing)
      show ?thesis
      proof (cases "length v \<in> {4, 8, 12}")
        case l: True
        with 2 False v4_dns_copied [OF l] slots len [of "length v"] snoc(8) show ?thesis by (auto simp: defs)
      next
        case l: False
        with 2 False len [of "length v"] show ?thesis by (auto simp: defs)
      qed
    next
      case 3
      with False snoc(2) show ?thesis by (simp add: defs)
    next
      case 4
      with False snoc(3) show ?thesis by (simp add: defs)
    next
      case 5
      with False snoc(4) show ?thesis by (simp add: defs)
    next
      case 6
      with False snoc(5) show ?thesis by (simp add: defs)
    next
      case 7
      with False snoc(6) show ?thesis by (simp add: defs)
    next
      case 8
      with False snoc(7) show ?thesis by (simp add: defs)
    qed
  qed
next
  case False
  have "v4_admissible code v" using False by (auto simp: v4_admissible_def v4_known_def)
  with False v4_scan_snoc_unknown [OF False, of opts v] show ?thesis
    by (simp add: v4_option_def v4_known_def Let_def)
qed

lemma v4_fold_snoc:
  "v4_fold (opts @ [(code, v)]) scan = (case v4_fold opts scan of Inl status \<Rightarrow> Inl status
     | Inr s \<Rightarrow> v4_option code v (s\<lparr>s4_option_count := s4_option_count s + 1\<rparr>))"
  by (induction opts scan rule: v4_fold.induct) (auto split: sum.splits)

lemma v4_fold_spec:
  "v4_fold opts dhcpv4_scan_start = Inr scan \<longleftrightarrow> v4_all_admissible opts \<and> scan = v4_scan_of opts"
proof (induction opts arbitrary: scan rule: rev_induct)
  case Nil
  have "dhcpv4_scan_start = v4_scan_of []"
    by code_simp
  then show ?case by auto
next
  case (snoc opt opts)
  obtain code v where opt: "opt = (code, v)" by fastforce
  have count: "s4_option_count (v4_scan_of opts) = length opts" by (simp add: v4_scan_of_def)
  show ?case
  proof (cases "v4_fold opts dhcpv4_scan_start")
    case (Inl status)
    with snoc show ?thesis by (auto simp: opt v4_fold_snoc)
  next
    case (Inr s)
    with snoc [of s] have "v4_all_admissible opts" "s = v4_scan_of opts" by simp_all
    with Inr v4_option_step [of code v opts] show ?thesis
      by (auto simp: opt v4_fold_snoc count v4_has_iff split: if_splits)
  qed
qed

section \<open>Accepted replies\<close>

text \<open>The fixed header of a reply to the request \<open>xid\<close> of the host \<open>mac\<close>.\<close>

definition v4_reply_header :: "bytes \<Rightarrow> u32 \<Rightarrow> bytes \<Rightarrow> bool" where
  "v4_reply_header packet xid mac =
     (240 \<le> length packet \<and> length packet \<le> 576 \<and> xid \<noteq> 0 \<and> mac \<noteq> zero_bytes 6 \<and>
      take 4 packet = [DHCPV4_OP_BOOTREPLY, DHCPV4_HTYPE_ETHERNET, DHCPV4_HLEN_ETHERNET, 0] \<and>
      load_be32 (drop 4 packet) = xid \<and> take 16 (drop 28 packet) = mac @ zero_bytes 10 \<and>
      load_be32 (drop 236 packet) = DHCPV4_MAGIC_COOKIE)"

definition v4_consistent :: "bytes \<Rightarrow> (u8 \<times> bytes) list \<Rightarrow> bool" where
  "v4_consistent packet opts =
     (v4_has opts DHCPV4_OPTION_MESSAGE_TYPE \<and> v4_has opts DHCPV4_OPTION_SERVER_IDENTIFIER \<and>
      (let t1 = v4_seconds opts DHCPV4_OPTION_RENEWAL_TIME; t2 = v4_seconds opts DHCPV4_OPTION_REBIND_TIME;
           lease = v4_seconds opts DHCPV4_OPTION_LEASE_TIME
       in if v4_type opts = RIN_DHCPV4_MESSAGE_NAK
          then take 4 (drop 16 packet) = zero_bytes 4 \<and> \<not> v4_has opts DHCPV4_OPTION_LEASE_TIME \<and>
            \<not> v4_has opts DHCPV4_OPTION_RENEWAL_TIME \<and> \<not> v4_has opts DHCPV4_OPTION_REBIND_TIME
          else v4_address_valid (take 4 (drop 16 packet)) \<and> 0 < t1 \<and> t1 < t2 \<and> t2 < lease \<and> lease < UINT32_MAX))"

definition v4_published :: "bytes \<Rightarrow> u32 \<Rightarrow> (u8 \<times> bytes) list \<Rightarrow> dhcpv4_reply" where
  "v4_published packet xid opts = (v4_reply_of opts)\<lparr>r4_struct_size := 68,
     r4_version := RIN_DHCPV4_WIRE_VERSION, r4_transaction_id := xid,
     r4_options_seen := of_nat (length opts),
     r4_yiaddr := (if v4_type opts = RIN_DHCPV4_MESSAGE_NAK then zero_bytes 4 else take 4 (drop 16 packet))\<rparr>"

lemma v4_all_zero_iff: "n \<le> length bs \<Longrightarrow> v4_all_zero bs n = (take n bs = zero_bytes n)"
  by (auto simp: v4_all_zero_def byte_accumulate_eq_0 zero_bytes_def list_eq_iff_nth_eq all_set_conv_all_nth)

lemma v4_header_iff:
  assumes "length mac = 6"
  shows "v4_reply_header packet xid mac \<longleftrightarrow> 240 \<le> length packet \<and> length packet \<le> 576 \<and> xid \<noteq> 0 \<and>
    \<not> v4_all_zero mac 6 \<and> v4_header_matches packet xid mac"
proof (cases "240 \<le> length packet")
  case True
  have "take 4 packet = [packet ! 0, packet ! 1, packet ! 2, packet ! 3]"
    using True by (auto simp: list_eq_iff_nth_eq less_Suc_eq eval_nat_numeral)
  moreover have "take 16 (drop 28 packet) = take 6 (drop 28 packet) @ take 10 (drop 34 packet)"
    using take_add [of 6 10 "drop 28 packet"] by simp
  moreover have "byte_equal (drop 28 packet) mac 6 = (take 6 (drop 28 packet) = mac)"
    using True assms by (simp add: byte_equal_iff)
  ultimately show ?thesis
    using True assms by (auto simp: v4_reply_header_def v4_header_matches_def v4_all_zero_iff)
qed (simp add: v4_reply_header_def)

lemma v4_seconds_missing: "\<not> v4_has opts k \<Longrightarrow> v4_seconds opts k = 0"
  by (simp add: v4_seconds_def)

lemma v4_finish_iff:
  assumes "20 \<le> length packet"
  shows "v4_finish packet xid True (v4_scan_of opts) = Inr r \<longleftrightarrow>
    v4_consistent packet opts \<and> r = v4_published packet xid opts"
proof -
  have nz: "x = 0 \<or> x = UINT32_MAX \<longleftrightarrow> \<not> (0 < x \<and> x < UINT32_MAX)" for x :: u32
  proof -
    have max: "UINT32_MAX = (- 1 :: u32)" by simp
    show ?thesis unfolding max using word_order.not_eq_extremum [of x] by (auto simp: word_gt_0)
  qed
  have sel: "s4_candidate (v4_scan_of opts) = v4_reply_of opts" "r4_message_type (v4_reply_of opts) = v4_type opts"
    "s4_seen_message (v4_scan_of opts) = v4_has opts 53" "s4_seen_server (v4_scan_of opts) = v4_has opts 54"
    "s4_seen_lease (v4_scan_of opts) = v4_has opts 51" "s4_seen_renewal (v4_scan_of opts) = v4_has opts 58"
    "s4_seen_rebind (v4_scan_of opts) = v4_has opts 59" "s4_option_count (v4_scan_of opts) = length opts"
    "r4_lease_seconds (v4_reply_of opts) = v4_seconds opts 51"
    "r4_renewal_seconds (v4_reply_of opts) = v4_seconds opts 58"
    "r4_rebind_seconds (v4_reply_of opts) = v4_seconds opts 59"
    by (simp_all add: v4_scan_of_def v4_reply_of_def)
  have yi: "r4_yiaddr (v4_reply_of opts) = zero_bytes 4" by (simp add: v4_reply_of_def zero_dhcpv4_reply_def)
  have z: "v4_all_zero (drop 16 packet) 4 = (take 4 (drop 16 packet) = zero_bytes 4)"
    using assms by (simp add: v4_all_zero_iff)
  show ?thesis
  proof (cases "v4_type opts = RIN_DHCPV4_MESSAGE_NAK")
    case True
    then have "v4_published packet xid opts = (v4_reply_of opts)\<lparr>r4_struct_size := 68,
        r4_version := RIN_DHCPV4_WIRE_VERSION, r4_transaction_id := xid, r4_options_seen := of_nat (length opts)\<rparr>"
      using yi by (simp add: v4_published_def)
    with True show ?thesis by (auto simp: v4_finish_def v4_consistent_def sel z Let_def)
  next
    case False
    have "seconds_order_valid (v4_reply_of opts) \<longleftrightarrow> 0 < v4_seconds opts 58 \<and> v4_seconds opts 58 < v4_seconds opts 59 \<and>
        v4_seconds opts 59 < v4_seconds opts 51 \<and> v4_seconds opts 51 < UINT32_MAX"
      using False nz [of "v4_seconds opts 51"] by (auto simp: seconds_order_valid_def sel word_gt_0 not_le)
    moreover have "v4_published packet xid opts = ((v4_reply_of opts)\<lparr>r4_yiaddr := take 4 (drop 16 packet)\<rparr>)\<lparr>r4_struct_size := 68,
        r4_version := RIN_DHCPV4_WIRE_VERSION, r4_transaction_id := xid, r4_options_seen := of_nat (length opts)\<rparr>"
      using False by (simp add: v4_published_def)
    ultimately show ?thesis
      using False v4_seconds_missing [of opts]
      by (auto simp: v4_finish_def v4_consistent_def sel v4_address_valid_chunk Let_def)
  qed
qed

lemma v4_reply_spec:
  assumes "length mac = 6"
  shows "v4_parse_reply packet xid mac = Inr r \<longleftrightarrow> v4_reply_header packet xid mac \<and>
    (\<exists>opts. v4_walk (drop 240 packet) = Some opts \<and> length opts \<le> 64 \<and> v4_all_admissible opts \<and>
       v4_consistent packet opts \<and> r = v4_published packet xid opts)"
proof (cases "v4_reply_header packet xid mac")
  case True
  with v4_header_iff [OF assms] have h: "240 \<le> length packet" "length packet \<le> 576" "xid \<noteq> 0"
      "\<not> v4_all_zero mac 6" "v4_header_matches packet xid mac" by simp_all
  have "v4_parse_reply packet xid mac = Inr r \<longleftrightarrow>
      (\<exists>scan. v4_options (drop 240 packet) dhcpv4_scan_start = Inr (True, scan) \<and>
         v4_finish packet xid True scan = Inr r)"
  proof -
    have "v4_finish packet xid ended scan = Inr r \<Longrightarrow> ended" for ended scan
      by (auto simp: v4_finish_def Let_def split: if_splits)
    with h show ?thesis by (fastforce simp: v4_parse_reply_def split: sum.splits)
  qed
  also have "\<dots> \<longleftrightarrow> (\<exists>opts. v4_walk (drop 240 packet) = Some opts \<and> length opts \<le> 64 \<and> v4_all_admissible opts \<and>
         v4_finish packet xid True (v4_scan_of opts) = Inr r)"
    unfolding v4_options_walk v4_fold_spec by (auto simp: dhcpv4_scan_start_def)
  also have "\<dots> \<longleftrightarrow> (\<exists>opts. v4_walk (drop 240 packet) = Some opts \<and> length opts \<le> 64 \<and> v4_all_admissible opts \<and>
       v4_consistent packet opts \<and> r = v4_published packet xid opts)"
    using h(1) by (simp add: v4_finish_iff)
  finally show ?thesis using True by simp
next
  case False
  with v4_header_iff [OF assms, of packet xid] show ?thesis by (auto simp: v4_parse_reply_def split: if_splits)
qed

text \<open>C11: A DHCPv4 packet is accepted exactly when its fixed header answers the outstanding request of this
  host, its option area reads as a list of at most 64 options in which every option the client knows
  occurs at most once and has an admissible value, and the message is consistent: a NAK offers no
  address and no times, an offer or acknowledgement offers a usable address with
  \<open>0 < T1 < T2 < lease\<close>. The published reply consists of exactly the values of these options.\<close>

theorem v4_parse_reply_spec:
  assumes "length mac = 6"
  shows "v4_parse_reply packet xid mac = Inr r \<longleftrightarrow> v4_reply_header packet xid mac \<and>
    (\<exists>opts. v4_walk (drop 240 packet) = Some opts \<and> length opts \<le> 64 \<and> v4_all_admissible opts \<and>
       v4_consistent packet opts \<and> r = v4_published packet xid opts)"
  by (rule v4_reply_spec [OF assms])

definition sample_v4_options :: "(u8 \<times> bytes) list" where
  "sample_v4_options = [(DHCPV4_OPTION_MESSAGE_TYPE, [5]), (DHCPV4_OPTION_SERVER_IDENTIFIER, [192, 0, 2, 1]),
     (DHCPV4_OPTION_LEASE_TIME, [0, 0, 14, 16]), (DHCPV4_OPTION_RENEWAL_TIME, [0, 0, 7, 8]),
     (DHCPV4_OPTION_REBIND_TIME, [0, 0, 12, 78]), (DHCPV4_OPTION_DNS, [192, 0, 2, 53, 192, 0, 2, 54])]"

text \<open>The encoding of an option list as a server writes it, and the header in front of it.\<close>

definition v4_encode :: "(u8 \<times> bytes) list \<Rightarrow> bytes" where
  "v4_encode opts = concat (map (\<lambda>(code, v). [code, of_nat (length v)] @ v) opts) @ [DHCPV4_OPTION_END]"

definition v4_header :: "u32 \<Rightarrow> bytes \<Rightarrow> bytes \<Rightarrow> bytes" where
  "v4_header xid mac yiaddr = [2, 1, 6, 0] @ store_be32 xid @ zero_bytes 8 @ yiaddr @ zero_bytes 8 @ mac @
     zero_bytes 202 @ store_be32 DHCPV4_MAGIC_COOKIE"

definition sample_v4_packet :: bytes where
  "sample_v4_packet = v4_header 0x01020304 [2, 0, 94, 16, 0, 1] [192, 0, 2, 10] @ v4_encode sample_v4_options @ [0, 0]"

theorem v4_parse_reply_spec_witness:
  "\<exists>r. v4_parse_reply sample_v4_packet 0x01020304 [2, 0, 94, 16, 0, 1] = Inr r \<and>
     r4_yiaddr r = [192, 0, 2, 10] \<and> r4_lease_seconds r = 3600 \<and> r4_dns_server_count r = 2 \<and>
     v4_reply_header sample_v4_packet 0x01020304 [2, 0, 94, 16, 0, 1]"
proof -
  have "\<exists>r. v4_parse_reply sample_v4_packet 0x01020304 [2, 0, 94, 16, 0, 1] = Inr r \<and>
     r4_yiaddr r = [192, 0, 2, 10] \<and> r4_lease_seconds r = 3600 \<and> r4_dns_server_count r = 2"
  proof -
    have "case v4_parse_reply sample_v4_packet 0x01020304 [2, 0, 94, 16, 0, 1] of Inl _ \<Rightarrow> False
        | Inr r \<Rightarrow> r4_yiaddr r = [192, 0, 2, 10] \<and> r4_lease_seconds r = 3600 \<and> r4_dns_server_count r = 2"
      by code_simp
    then show ?thesis by (auto split: sum.splits)
  qed
  then obtain r where r: "v4_parse_reply sample_v4_packet 0x01020304 [2, 0, 94, 16, 0, 1] = Inr r"
    "r4_yiaddr r = [192, 0, 2, 10]" "r4_lease_seconds r = 3600" "r4_dns_server_count r = 2" by blast
  with v4_parse_reply_spec [of "[2, 0, 94, 16, 0, 1]" sample_v4_packet "0x01020304" r] show ?thesis by auto
qed

section \<open>A server's reply is accepted\<close>

lemma v4_walk_encode:
  assumes "\<forall>(code, v) \<in> set opts. code \<noteq> DHCPV4_OPTION_PAD \<and> code \<noteq> DHCPV4_OPTION_END \<and> length v < 256"
  shows "v4_walk (v4_encode opts @ zero_bytes n) = Some opts"
  using assms
proof (induction opts)
  case (Cons opt opts)
  obtain code v where opt: "opt = (code, v)" by fastforce
  have "unat (of_nat (length v) :: u8) = length v" using Cons.prems by (simp add: opt unat_of_nat)
  with Cons show ?case by (auto simp: opt v4_encode_def)
qed (simp add: v4_encode_def)

lemma zero_bytes_0 [simp]: "zero_bytes 0 = []"
  by (simp add: zero_bytes_def)

text \<open>C31: What a server writes is what the client reads: a packet made of the header for this request,
  an encoded list of admissible and consistent options and any padding is accepted, and the
  published reply has exactly the values of the list and the offered address.\<close>

theorem v4_server_reply_roundtrip:
  assumes "xid \<noteq> 0" and "length mac = 6" and "mac \<noteq> zero_bytes 6" and "length yiaddr = 4"
    and "packet = v4_header xid mac yiaddr @ v4_encode opts @ zero_bytes n" and "length packet \<le> 576"
    and "length opts \<le> 64" and "v4_all_admissible opts" and "v4_consistent packet opts"
    and "\<forall>(code, v) \<in> set opts. code \<noteq> DHCPV4_OPTION_PAD \<and> code \<noteq> DHCPV4_OPTION_END \<and> length v < 256"
  shows "v4_parse_reply packet xid mac = Inr (v4_published packet xid opts) \<and>
    take 4 (drop 16 packet) = yiaddr"
proof -
  have len: "length (v4_header xid mac yiaddr) = 240"
    using assms(2,4) by (simp add: v4_header_def)
  have yi: "take 4 (drop 16 packet) = yiaddr" and hdr: "v4_reply_header packet xid mac"
    using assms(1-6) len by (simp_all add: v4_header_def v4_reply_header_def)
  have "v4_walk (drop 240 packet) = Some opts"
    using v4_walk_encode [OF assms(10), of n] len assms(5) by simp
  with hdr assms(7-9) v4_reply_spec [OF assms(2)] yi show ?thesis by blast
qed

theorem v4_server_reply_roundtrip_witness:
  "v4_parse_reply sample_v4_packet 0x01020304 [2, 0, 94, 16, 0, 1] =
     Inr (v4_published sample_v4_packet 0x01020304 sample_v4_options)"
proof -
  have checks: "[2, 0, 94, 16, 0, 1] \<noteq> zero_bytes 6" "length sample_v4_packet \<le> 576" "length sample_v4_options \<le> 64"
      "v4_consistent sample_v4_packet sample_v4_options"
      "v4_header 0x01020304 [2, 0, 94, 16, 0, 1] [192, 0, 2, 10] @ v4_encode sample_v4_options @ [0, 0] =
       v4_header 0x01020304 [2, 0, 94, 16, 0, 1] [192, 0, 2, 10] @ v4_encode sample_v4_options @ zero_bytes 2"
    by code_simp+
  moreover have "v4_all_admissible sample_v4_options"
    "\<forall>(code, v) \<in> set sample_v4_options. code \<noteq> DHCPV4_OPTION_PAD \<and> code \<noteq> DHCPV4_OPTION_END \<and> length v < 256"
    by code_simp+
  ultimately show ?thesis
    using v4_server_reply_roundtrip [of "0x01020304" "[2, 0, 94, 16, 0, 1]" "[192, 0, 2, 10]" sample_v4_packet
        sample_v4_options 2] by (simp add: sample_v4_packet_def)
qed

end
