(* ===== verification/Dns_Wire.thy ===== *)
theory Dns_Wire
  imports Rin_Prelude
begin

text \<open>
  The DNS message code of \<open>include/rinruntime/dns_wire.h\<close>: names in presentation and wire form, the
  chain of canonical names, EDNS options, and the parser of responses.

  A C string, and a character array that holds one, is the list of its bytes before the first \<open>NUL\<close>;
  a name of more than 255 bytes is an array without terminator. A pointer and a size into a packet are
  the list of the bytes they cover, so that a smaller \<open>packet_size\<close> is a prefix of the packet. Offsets
  exceed the size of a packet by at most 64 before they are checked and are \<^typ>\<open>nat\<close>. Results that the
  code writes through pointers are returned, and a routine that answers \<open>-1\<close> or \<open>0\<close> for failure without
  a meaningful output returns \<^const>\<open>None\<close>.
\<close>

section \<open>Constants and structures\<close>

abbreviation (input) RIN_DNS_WIRE_MAX_NAME_SIZE :: nat where "RIN_DNS_WIRE_MAX_NAME_SIZE \<equiv> 255"
abbreviation (input) RIN_DNS_WIRE_MAX_POINTERS :: nat where "RIN_DNS_WIRE_MAX_POINTERS \<equiv> 32"
abbreviation (input) RIN_DNS_WIRE_MAX_ANSWERS :: nat where "RIN_DNS_WIRE_MAX_ANSWERS \<equiv> 32"
abbreviation (input) RIN_DNS_WIRE_MAX_AUTHORITY :: nat where "RIN_DNS_WIRE_MAX_AUTHORITY \<equiv> 32"
abbreviation (input) RIN_DNS_WIRE_MAX_ADDITIONAL :: nat where "RIN_DNS_WIRE_MAX_ADDITIONAL \<equiv> 32"
abbreviation (input) RIN_DNS_WIRE_MAX_EDNS_OPTIONS :: nat where "RIN_DNS_WIRE_MAX_EDNS_OPTIONS \<equiv> 32"
abbreviation (input) RIN_DNS_WIRE_MAX_CNAME_HOPS :: nat where "RIN_DNS_WIRE_MAX_CNAME_HOPS \<equiv> 8"
abbreviation (input) RIN_DNS_WIRE_MAX_RESULT_ADDRESSES :: nat where
  "RIN_DNS_WIRE_MAX_RESULT_ADDRESSES \<equiv> 8"

abbreviation (input) RIN_DNS_WIRE_TYPE_A :: u16 where "RIN_DNS_WIRE_TYPE_A \<equiv> 1"
abbreviation (input) RIN_DNS_WIRE_TYPE_CNAME :: u16 where "RIN_DNS_WIRE_TYPE_CNAME \<equiv> 5"
abbreviation (input) RIN_DNS_WIRE_TYPE_PTR :: u16 where "RIN_DNS_WIRE_TYPE_PTR \<equiv> 12"
abbreviation (input) RIN_DNS_WIRE_TYPE_AAAA :: u16 where "RIN_DNS_WIRE_TYPE_AAAA \<equiv> 28"
abbreviation (input) RIN_DNS_WIRE_TYPE_OPT :: u16 where "RIN_DNS_WIRE_TYPE_OPT \<equiv> 41"
abbreviation (input) RIN_DNS_WIRE_CLASS_IN :: u16 where "RIN_DNS_WIRE_CLASS_IN \<equiv> 1"

abbreviation (input) RIN_DNS_WIRE_EDNS_OPTION_ECS :: u16 where "RIN_DNS_WIRE_EDNS_OPTION_ECS \<equiv> 8"
abbreviation (input) RIN_DNS_WIRE_EDNS_OPTION_COOKIE :: u16 where
  "RIN_DNS_WIRE_EDNS_OPTION_COOKIE \<equiv> 10"
abbreviation (input) RIN_DNS_WIRE_EDNS_OPTION_PADDING :: u16 where
  "RIN_DNS_WIRE_EDNS_OPTION_PADDING \<equiv> 12"
abbreviation (input) RIN_DNS_WIRE_EDNS_OPTION_EDE :: u16 where "RIN_DNS_WIRE_EDNS_OPTION_EDE \<equiv> 15"

abbreviation (input) RIN_DNS_WIRE_PARSE_SUCCESS :: int where "RIN_DNS_WIRE_PARSE_SUCCESS \<equiv> 0"
abbreviation (input) RIN_DNS_WIRE_PARSE_CNAME_REFERRAL :: int where
  "RIN_DNS_WIRE_PARSE_CNAME_REFERRAL \<equiv> 1"
abbreviation (input) RIN_DNS_WIRE_PARSE_NAME_ERROR :: int where "RIN_DNS_WIRE_PARSE_NAME_ERROR \<equiv> 2"
abbreviation (input) RIN_DNS_WIRE_PARSE_NO_DATA :: int where "RIN_DNS_WIRE_PARSE_NO_DATA \<equiv> 3"
abbreviation (input) RIN_DNS_WIRE_PARSE_NOT_IMPLEMENTED :: int where
  "RIN_DNS_WIRE_PARSE_NOT_IMPLEMENTED \<equiv> 4"
abbreviation (input) RIN_DNS_WIRE_PARSE_CNAME_LOOP :: int where "RIN_DNS_WIRE_PARSE_CNAME_LOOP \<equiv> -5"
abbreviation (input) RIN_DNS_WIRE_PARSE_CNAME_LIMIT :: int where "RIN_DNS_WIRE_PARSE_CNAME_LIMIT \<equiv> -6"

abbreviation (input) RIN_DNS_WIRE_CNAME_CHAIN_INVALID :: int where
  "RIN_DNS_WIRE_CNAME_CHAIN_INVALID \<equiv> -1"
abbreviation (input) RIN_DNS_WIRE_CNAME_CHAIN_LOOP :: int where "RIN_DNS_WIRE_CNAME_CHAIN_LOOP \<equiv> -2"
abbreviation (input) RIN_DNS_WIRE_CNAME_CHAIN_LIMIT :: int where "RIN_DNS_WIRE_CNAME_CHAIN_LIMIT \<equiv> -3"

text \<open>The characters the code compares with.\<close>

abbreviation (input) ascii_dot :: u8 where "ascii_dot \<equiv> 0x2e"
abbreviation (input) ascii_backslash :: u8 where "ascii_backslash \<equiv> 0x5c"

type_synonym cstring = bytes

record dns_answer =
  an_type :: u16
  an_ttl :: u32
  an_address :: bytes
  an_name :: cstring
  an_edns_udp_payload_size :: u16
  an_edns_extended_error_code :: u16
  an_edns_present :: u8
  an_edns_dnssec_ok :: u8
  an_edns_extended_error_present :: u8
  an_edns_cookie_present :: u8
  an_edns_client_subnet_present :: u8
  an_edns_padding_present :: u8

record dns_answer_set =
  as_primary :: dns_answer
  as_address_count :: u32
  as_addresses :: "bytes list"

record dns_cname_chain =
  cc_hop_count :: u32
  cc_minimum_ttl :: u32
  cc_names :: "cstring list"

definition dns_clear_answer :: dns_answer where
  "dns_clear_answer = \<lparr>an_type = 0, an_ttl = 0, an_address = zero_bytes 16, an_name = [],
     an_edns_udp_payload_size = 0, an_edns_extended_error_code = 0, an_edns_present = 0,
     an_edns_dnssec_ok = 0, an_edns_extended_error_present = 0, an_edns_cookie_present = 0,
     an_edns_client_subnet_present = 0, an_edns_padding_present = 0\<rparr>"

definition dns_clear_answer_set :: dns_answer_set where
  "dns_clear_answer_set = \<lparr>as_primary = dns_clear_answer, as_address_count = 0,
     as_addresses = replicate RIN_DNS_WIRE_MAX_RESULT_ADDRESSES (zero_bytes 16)\<rparr>"

section \<open>Names\<close>

definition char_at :: "cstring \<Rightarrow> nat \<Rightarrow> u8" where
  "char_at s i = (if i < length s then s ! i else 0)"

definition dns_fold_ascii :: "u8 \<Rightarrow> u8" where
  "dns_fold_ascii character =
     (if character \<ge> 0x41 \<and> character \<le> 0x5a then character + (0x61 - 0x41) else character)"

text \<open>One character of the comparison: a dot in front of the terminator reads as the terminator.\<close>

definition dns_name_char :: "cstring \<Rightarrow> nat \<Rightarrow> u8" where
  "dns_name_char name index =
     (if index < RIN_DNS_WIRE_MAX_NAME_SIZE \<and> char_at name index = ascii_dot \<and>
         char_at name (index + 1) = 0
      then 0 else char_at name index)"

function dns_names_equal_from :: "nat \<Rightarrow> cstring \<Rightarrow> cstring \<Rightarrow> bool" where
  "dns_names_equal_from index left right =
     (if index > RIN_DNS_WIRE_MAX_NAME_SIZE then False
      else if dns_fold_ascii (dns_name_char left index) \<noteq> dns_fold_ascii (dns_name_char right index)
      then False
      else if dns_name_char left index = 0 then True
      else dns_names_equal_from (index + 1) left right)"
  by pat_completeness auto
termination
  by (relation "measure (\<lambda>(index, _). 256 - index)") auto

declare dns_names_equal_from.simps [simp del]

definition dns_names_equal :: "cstring \<Rightarrow> cstring \<Rightarrow> bool" where
  "dns_names_equal left right = dns_names_equal_from 0 left right"

text \<open>\<open>copy_name\<close>: the copy succeeds when the terminator still fits.\<close>

fun dns_copy_name :: "nat \<Rightarrow> cstring \<Rightarrow> cstring option" where
  "dns_copy_name 0 source = None"
| "dns_copy_name (Suc capacity) [] = Some []"
| "dns_copy_name (Suc capacity) (c # source) = map_option (Cons c) (dns_copy_name capacity source)"

text \<open>\<open>encode_name\<close>: \<open>dns_label_end\<close> is the inner loop, which reads one label.\<close>

definition dns_label_char :: "u8 \<Rightarrow> bool" where
  "dns_label_char character =
     (\<not> (character < 0x21 \<or> character > 0x7e \<or> character = ascii_backslash))"

function dns_label_end :: "cstring \<Rightarrow> nat \<Rightarrow> nat option" where
  "dns_label_end name input_position =
     (if input_position \<le> RIN_DNS_WIRE_MAX_NAME_SIZE \<and> char_at name input_position \<noteq> 0 \<and>
         char_at name input_position \<noteq> ascii_dot
      then if \<not> dns_label_char (char_at name input_position) then None
           else dns_label_end name (input_position + 1)
      else Some input_position)"
  by pat_completeness auto
termination
  by (relation "measure (\<lambda>(_, i). 256 - i)") auto

declare dns_label_end.simps [simp del]

lemma dns_label_end_ge: "dns_label_end name i = Some j \<Longrightarrow> i \<le> j"
proof (induction name i rule: dns_label_end.induct)
  case (1 name i)
  then show ?case by (subst (asm) dns_label_end.simps) (fastforce split: if_splits)
qed

function dns_encode_labels :: "cstring \<Rightarrow> nat \<Rightarrow> nat \<Rightarrow> bytes \<Rightarrow> bytes option" where
  "dns_encode_labels name output_capacity label_start output =
     (case dns_label_end name label_start of
        None \<Rightarrow> None
      | Some input_position \<Rightarrow>
          let label_length = input_position - label_start; output_position = length output
          in if input_position > RIN_DNS_WIRE_MAX_NAME_SIZE \<or> label_length = 0 \<or> label_length > 63 \<or>
                output_position \<ge> output_capacity \<or>
                label_length > output_capacity - output_position - 1 \<or>
                output_position + 1 + label_length \<ge> RIN_DNS_WIRE_MAX_NAME_SIZE
             then None
             else
               let output = output @ of_nat label_length # take label_length (drop label_start name)
               in if char_at name input_position = 0 then Some output
                  else if char_at name (input_position + 1) = 0 then Some output
                  else dns_encode_labels name output_capacity (input_position + 1) output)"
  by pat_completeness auto
termination
  by (relation "measure (\<lambda>(_, _, i, _). 256 - i)") (auto dest: dns_label_end_ge)

declare dns_encode_labels.simps [simp del]

definition dns_encode_name :: "cstring \<Rightarrow> nat \<Rightarrow> bytes option" where
  "dns_encode_name name output_capacity =
     (if output_capacity = 0 \<or> char_at name 0 = 0 then None
      else case dns_encode_labels name output_capacity 0 [] of
          None \<Rightarrow> None
        | Some output \<Rightarrow>
            if length output \<ge> output_capacity \<or> length output \<ge> RIN_DNS_WIRE_MAX_NAME_SIZE then None
            else Some (output @ [0]))"

text \<open>\<open>decode_name\<close>: the state of the loop is the position, the output, the size of the expanded name,
  the number of pointers followed, and the offset behind the first pointer (\<open>final_offset\<close>, once
  \<open>jumped\<close>).\<close>

definition dns_presentation_char :: "u8 \<Rightarrow> bool" where
  "dns_presentation_char character =
     (\<not> (character < 0x21 \<or> character > 0x7e \<or> character = ascii_dot \<or> character = ascii_backslash))"

definition dns_append_label :: "nat \<Rightarrow> cstring \<Rightarrow> bytes \<Rightarrow> cstring option" where
  "dns_append_label output_capacity output label =
     (if output \<noteq> [] \<and> length output + 1 \<ge> output_capacity then None
      else
        let output = (if output \<noteq> [] then output @ [ascii_dot] else output)
        in if length label \<ge> output_capacity - length output \<or> \<not> list_all dns_presentation_char label
           then None else Some (output @ label))"

function dns_decode_labels ::
    "bytes \<Rightarrow> nat \<Rightarrow> nat \<Rightarrow> cstring \<Rightarrow> nat \<Rightarrow> nat \<Rightarrow> nat option \<Rightarrow> (cstring \<times> nat) option" where
  "dns_decode_labels packet output_capacity position output expanded_wire_size pointers final_offset =
     (if position \<ge> length packet then None
      else
        let label_length = packet ! position
        in if label_length = 0
           then Some (output, case final_offset of None \<Rightarrow> position + 1 | Some final \<Rightarrow> final)
           else if label_length AND 0xc0 = 0xc0 then
             (if position + 1 \<ge> length packet \<or> pointers + 1 > RIN_DNS_WIRE_MAX_POINTERS then None
              else
                let target = unat (push_bit 8 (ucast (label_length AND 0x3f)) OR
                               ucast (packet ! (position + 1)) :: u16)
                in if target \<ge> position \<or> target \<ge> length packet then None
                   else dns_decode_labels packet output_capacity target output expanded_wire_size
                     (pointers + 1)
                     (Some (case final_offset of None \<Rightarrow> position + 2 | Some final \<Rightarrow> final)))
           else if label_length AND 0xc0 \<noteq> 0 \<or> label_length > 63 then None
           else
             let label_end = position + 1 + unat label_length
             in if label_end > length packet \<or>
                   expanded_wire_size > RIN_DNS_WIRE_MAX_NAME_SIZE - (1 + unat label_length)
                then None
                else case dns_append_label output_capacity output
                       (take (unat label_length) (drop (position + 1) packet)) of
                    None \<Rightarrow> None
                  | Some output \<Rightarrow>
                      dns_decode_labels packet output_capacity label_end output
                        (expanded_wire_size + (1 + unat label_length)) pointers final_offset)"
  by pat_completeness auto
termination
proof (relation "measures [\<lambda>(_, _, _, _, _, pointers, _). 33 - pointers,
    \<lambda>(_, _, _, _, expanded_wire_size, _, _). 256 - expanded_wire_size]", goal_cases)
qed (auto simp: not_less)

declare dns_decode_labels.simps [simp del]

definition dns_decode_name :: "bytes \<Rightarrow> nat \<Rightarrow> nat \<Rightarrow> (cstring \<times> nat) option" where
  "dns_decode_name packet start_offset output_capacity =
     (if output_capacity = 0 \<or> start_offset \<ge> length packet then None
      else dns_decode_labels packet output_capacity start_offset [] 1 0 None)"

text \<open>Every caller in this file decodes into an array of 256 characters.\<close>

abbreviation dns_decode :: "bytes \<Rightarrow> nat \<Rightarrow> (cstring \<times> nat) option" where
  "dns_decode packet start_offset \<equiv>
     dns_decode_name packet start_offset (RIN_DNS_WIRE_MAX_NAME_SIZE + 1)"
section \<open>The chain of canonical names\<close>

definition dns_empty_chain :: dns_cname_chain where
  "dns_empty_chain = \<lparr>cc_hop_count = 0, cc_minimum_ttl = UINT32_MAX,
     cc_names = replicate (RIN_DNS_WIRE_MAX_CNAME_HOPS + 1) []\<rparr>"

definition dns_cname_chain_init :: "cstring \<Rightarrow> dns_cname_chain option" where
  "dns_cname_chain_init initial_name =
     (if char_at initial_name 0 = 0 then None
      else map_option (\<lambda>name. dns_empty_chain\<lparr>cc_names := (cc_names dns_empty_chain)[0 := name]\<rparr>)
             (dns_copy_name (RIN_DNS_WIRE_MAX_NAME_SIZE + 1) initial_name))"

definition dns_cname_chain_current :: "dns_cname_chain \<Rightarrow> cstring option" where
  "dns_cname_chain_current chain =
     (if unat (cc_hop_count chain) > RIN_DNS_WIRE_MAX_CNAME_HOPS \<or>
         char_at (cc_names chain ! 0) 0 = 0 \<or>
         char_at (cc_names chain ! unat (cc_hop_count chain)) 0 = 0
      then None
      else if list_ex (\<lambda>name. length name = 0 \<or> length name > RIN_DNS_WIRE_MAX_NAME_SIZE)
                (take (unat (cc_hop_count chain) + 1) (cc_names chain))
      then None
      else Some (cc_names chain ! unat (cc_hop_count chain)))"

definition dns_cname_chain_follow ::
    "dns_cname_chain \<Rightarrow> cstring \<Rightarrow> int \<times> dns_cname_chain" where
  "dns_cname_chain_follow chain target_name =
     (case (dns_cname_chain_current chain,
            if char_at target_name 0 = 0 then None
            else dns_copy_name (RIN_DNS_WIRE_MAX_NAME_SIZE + 1) target_name) of
        (Some _, Some target) \<Rightarrow>
          if list_ex (dns_names_equal target) (take (unat (cc_hop_count chain) + 1) (cc_names chain))
          then (RIN_DNS_WIRE_CNAME_CHAIN_LOOP, chain)
          else if unat (cc_hop_count chain) \<ge> RIN_DNS_WIRE_MAX_CNAME_HOPS
          then (RIN_DNS_WIRE_CNAME_CHAIN_LIMIT, chain)
          else (case dns_copy_name (RIN_DNS_WIRE_MAX_NAME_SIZE + 1) target of
                  None \<Rightarrow> (RIN_DNS_WIRE_CNAME_CHAIN_INVALID, chain)
                | Some name \<Rightarrow>
                    (0, chain\<lparr>cc_names := (cc_names chain)[unat (cc_hop_count chain) + 1 := name],
                          cc_hop_count := cc_hop_count chain + 1\<rparr>))
      | _ \<Rightarrow> (RIN_DNS_WIRE_CNAME_CHAIN_INVALID, chain))"

section \<open>EDNS options\<close>

text \<open>The lead byte of a UTF-8 sequence: its bits, the number of continuation bytes, and the
  smallest code point that needs so many.\<close>

definition dns_utf8_lead :: "u8 \<Rightarrow> (u32 \<times> nat \<times> u32) option" where
  "dns_utf8_lead first =
     (if first \<ge> 0xc2 \<and> first \<le> 0xdf then Some (ucast (first AND 0x1f), 1, 0x80)
      else if first \<ge> 0xe0 \<and> first \<le> 0xef then Some (ucast (first AND 0x0f), 2, 0x800)
      else if first \<ge> 0xf0 \<and> first \<le> 0xf4 then Some (ucast (first AND 0x07), 3, 0x10000)
      else None)"

fun dns_utf8_continue :: "nat \<Rightarrow> u32 \<Rightarrow> bytes \<Rightarrow> u32 option" where
  "dns_utf8_continue 0 code_point text = Some code_point"
| "dns_utf8_continue (Suc n) code_point [] = None"
| "dns_utf8_continue (Suc n) code_point (continuation # text) =
     (if continuation AND 0xc0 \<noteq> 0x80 then None
      else dns_utf8_continue n (push_bit 6 code_point OR ucast (continuation AND 0x3f)) text)"

function dns_utf8_valid :: "bytes \<Rightarrow> bool" where
  "dns_utf8_valid [] = True"
| "dns_utf8_valid (first # text) =
     (if first < 0x80 then dns_utf8_valid text
      else case dns_utf8_lead first of
          None \<Rightarrow> False
        | Some (code_point, continuation_count, minimum) \<Rightarrow>
            if continuation_count > length text then False
            else case dns_utf8_continue continuation_count code_point text of
                None \<Rightarrow> False
              | Some code_point \<Rightarrow>
                  if code_point < minimum \<or> (code_point \<ge> 0xd800 \<and> code_point \<le> 0xdfff) \<or>
                     code_point > 0x10ffff
                  then False else dns_utf8_valid (drop continuation_count text))"
  by pat_completeness auto
termination
  by (relation "measure length") auto

definition dns_edns_ecs_valid :: "bytes \<Rightarrow> bool" where
  "dns_edns_ecs_valid data =
     (if length data < 4 then False
      else
        let family = load_be16 data; source_prefix = data ! 2; scope_prefix = data ! 3;
            address_size = length data - 4
        in if family \<noteq> 1 \<and> family \<noteq> 2 then True
           else
             let maximum_prefix = (if family = 1 then 32 else 128)
             in if source_prefix > maximum_prefix \<or> scope_prefix > maximum_prefix \<or>
                   address_size \<noteq> (unat source_prefix + 7) div 8
                then False
                else \<not> (source_prefix AND 7 \<noteq> 0 \<and> address_size \<noteq> 0 \<and>
                        data ! (length data - 1) AND
                          (push_bit (8 - unat (source_prefix AND 7)) 1 - 1) \<noteq> 0))"

text \<open>\<open>edns_options_valid\<close>: the walk over the options of an OPT record. The state has the number of
  options seen, the three flags, and the answer that the diagnostics are stored in.\<close>

record dns_edns_scan =
  es_option_count :: nat
  es_saw_cookie :: bool
  es_saw_ecs :: bool
  es_saw_padding :: bool
  es_answer :: dns_answer

definition dns_edns_option :: "u16 \<Rightarrow> bytes \<Rightarrow> dns_edns_scan \<Rightarrow> dns_edns_scan option" where
  "dns_edns_option option_code option_data scan =
     (let option_length = length option_data
      in if option_code = RIN_DNS_WIRE_EDNS_OPTION_COOKIE then
           (if es_saw_cookie scan \<or>
               \<not> (option_length = 8 \<or> (option_length \<ge> 16 \<and> option_length \<le> 40))
            then None else Some (scan\<lparr>es_saw_cookie := True\<rparr>))
         else if option_code = RIN_DNS_WIRE_EDNS_OPTION_ECS then
           (if es_saw_ecs scan \<or> \<not> dns_edns_ecs_valid option_data
            then None else Some (scan\<lparr>es_saw_ecs := True\<rparr>))
         else if option_code = RIN_DNS_WIRE_EDNS_OPTION_PADDING then
           (if es_saw_padding scan then None else Some (scan\<lparr>es_saw_padding := True\<rparr>))
         else if option_code = RIN_DNS_WIRE_EDNS_OPTION_EDE then
           (if option_length < 2 \<or> \<not> dns_utf8_valid (drop 2 option_data) then None
            else if an_edns_extended_error_present (es_answer scan) = 0 then
              Some (scan\<lparr>es_answer := (es_answer scan)\<lparr>
                an_edns_extended_error_code := load_be16 option_data,
                an_edns_extended_error_present := 1\<rparr>\<rparr>)
            else Some scan)
         else Some scan)"

function dns_edns_walk :: "bytes \<Rightarrow> dns_edns_scan \<Rightarrow> dns_edns_scan option" where
  "dns_edns_walk data scan =
     (if data = [] then Some scan
      else if es_option_count scan + 1 > RIN_DNS_WIRE_MAX_EDNS_OPTIONS \<or> length data < 4 then None
      else
        let option_length = unat (load_be16 (drop 2 data))
        in if option_length > length data - 4 then None
           else case dns_edns_option (load_be16 data) (take option_length (drop 4 data))
                  (scan\<lparr>es_option_count := es_option_count scan + 1\<rparr>) of
               None \<Rightarrow> None
             | Some scan \<Rightarrow> dns_edns_walk (drop (4 + option_length) data) scan)"
  by pat_completeness auto
termination
  by (relation "measure (length \<circ> fst)") auto

declare dns_edns_walk.simps [simp del]

definition dns_edns_options_valid :: "bytes \<Rightarrow> dns_answer \<Rightarrow> dns_answer option" where
  "dns_edns_options_valid data answer =
     map_option (\<lambda>scan. (es_answer scan)\<lparr>
         an_edns_cookie_present := (if es_saw_cookie scan then 1 else 0),
         an_edns_client_subnet_present := (if es_saw_ecs scan then 1 else 0),
         an_edns_padding_present := (if es_saw_padding scan then 1 else 0)\<rparr>)
       (dns_edns_walk data \<lparr>es_option_count = 0, es_saw_cookie = False, es_saw_ecs = False,
          es_saw_padding = False, es_answer = answer\<rparr>)"
section \<open>Questions, records and special responses\<close>

definition dns_type_supported :: "u16 \<Rightarrow> bool" where
  "dns_type_supported expected_type =
     (\<not> (expected_type \<noteq> RIN_DNS_WIRE_TYPE_A \<and> expected_type \<noteq> RIN_DNS_WIRE_TYPE_AAAA \<and>
         expected_type \<noteq> RIN_DNS_WIRE_TYPE_PTR))"

text \<open>The echoed question at offset 12: name, type and class must be the ones asked for. The result is
  the offset behind the question.\<close>

definition dns_question :: "bytes \<Rightarrow> cstring \<Rightarrow> u16 \<Rightarrow> nat option" where
  "dns_question packet expected_name expected_type =
     (case dns_decode packet 12 of
        None \<Rightarrow> None
      | Some (decoded_name, next_offset) \<Rightarrow>
          if \<not> dns_names_equal decoded_name expected_name \<or> next_offset > length packet \<or>
             length packet - next_offset < 4 \<or>
             load_be16 (drop next_offset packet) \<noteq> expected_type \<or>
             load_be16 (drop (next_offset + 2) packet) \<noteq> RIN_DNS_WIRE_CLASS_IN
          then None else Some (next_offset + 4))"

record dns_record =
  rr_name :: cstring
  rr_type :: u16
  rr_class :: u16
  rr_ttl :: u32
  rr_data_position :: nat
  rr_data_end :: nat

definition dns_read_record :: "bytes \<Rightarrow> nat \<Rightarrow> dns_record option" where
  "dns_read_record packet position =
     (case dns_decode packet position of
        None \<Rightarrow> None
      | Some (decoded_name, next_offset) \<Rightarrow>
          if next_offset > length packet \<or> length packet - next_offset < 10 then None
          else
            let data_length = unat (load_be16 (drop (next_offset + 8) packet));
                position = next_offset + 10
            in if data_length > length packet - position then None
               else Some \<lparr>rr_name = decoded_name, rr_type = load_be16 (drop next_offset packet),
                      rr_class = load_be16 (drop (next_offset + 2) packet),
                      rr_ttl = load_be32 (drop (next_offset + 4) packet),
                      rr_data_position = position, rr_data_end = position + data_length\<rparr>)"

definition rr_data :: "bytes \<Rightarrow> dns_record \<Rightarrow> bytes" where
  "rr_data packet rr = take (rr_data_end rr - rr_data_position rr) (drop (rr_data_position rr) packet)"

definition dns_is_truncated_response :: "bytes \<Rightarrow> u16 \<Rightarrow> cstring \<Rightarrow> u16 \<Rightarrow> bool" where
  "dns_is_truncated_response packet expected_id expected_name expected_type =
     (if length packet < 12 \<or> \<not> dns_type_supported expected_type \<or> load_be16 packet \<noteq> expected_id
      then False
      else
        let flags = load_be16 (drop 2 packet)
        in \<not> (flags AND 0x8000 = 0 \<or> flags AND 0x7800 \<noteq> 0 \<or> flags AND 0x0200 = 0 \<or>
              flags AND 0x000f \<noteq> 0 \<or> load_be16 (drop 4 packet) \<noteq> 1 \<or>
              dns_question packet expected_name expected_type = None))"

definition dns_is_edns_downgrade_response :: "bytes \<Rightarrow> u16 \<Rightarrow> cstring \<Rightarrow> u16 \<Rightarrow> bool" where
  "dns_is_edns_downgrade_response packet expected_id expected_name expected_type =
     (if length packet < 12 \<or> \<not> dns_type_supported expected_type \<or> load_be16 packet \<noteq> expected_id
      then False
      else
        let flags = load_be16 (drop 2 packet); rcode = flags AND 0x000f;
            answer_count = load_be16 (drop 6 packet); authority_count = load_be16 (drop 8 packet);
            additional_count = load_be16 (drop 10 packet)
        in if flags AND 0x8000 = 0 \<or> flags AND 0x7800 \<noteq> 0 \<or> flags AND 0x0200 \<noteq> 0 \<or>
              (rcode \<noteq> 0 \<and> rcode \<noteq> 1) \<or> load_be16 (drop 4 packet) \<noteq> 1 \<or>
              answer_count \<noteq> 0 \<or> authority_count \<noteq> 0 \<or> additional_count > 1
           then False
           else case dns_question packet expected_name expected_type of
               None \<Rightarrow> False
             | Some position \<Rightarrow>
                 if additional_count = 0 then rcode = 1 \<and> position = length packet
                 else case dns_read_record packet position of
                     None \<Rightarrow> False
                   | Some rr \<Rightarrow>
                       if char_at (rr_name rr) 0 \<noteq> 0 \<or> rr_type rr \<noteq> RIN_DNS_WIRE_TYPE_OPT \<or>
                          dns_edns_options_valid (rr_data packet rr) dns_clear_answer = None \<or>
                          rr_data_end rr \<noteq> length packet \<or>
                          drop_bit 16 (rr_ttl rr) AND 0xff \<noteq> 0 \<or> rr_ttl rr AND 0x7fff \<noteq> 0
                       then False else rcode = 0 \<and> drop_bit 24 (rr_ttl rr) = 1)"

text \<open>The records of one section of a NOTIMP response; the second section may hold one OPT record.\<close>

definition dns_opt_header_valid :: "dns_record \<Rightarrow> bool" where
  "dns_opt_header_valid rr =
     (\<not> (char_at (rr_name rr) 0 \<noteq> 0 \<or> drop_bit 24 (rr_ttl rr) AND 0xff \<noteq> 0 \<or>
         drop_bit 16 (rr_ttl rr) AND 0xff \<noteq> 0 \<or> rr_ttl rr AND 0x7fff \<noteq> 0))"

fun dns_notimp_records :: "bytes \<Rightarrow> bool \<Rightarrow> nat \<Rightarrow> nat \<times> nat \<Rightarrow> (nat \<times> nat) option" where
  "dns_notimp_records packet additional 0 (position, opt_count) = Some (position, opt_count)"
| "dns_notimp_records packet additional (Suc record_count) (position, opt_count) =
     (case dns_read_record packet position of
        None \<Rightarrow> None
      | Some rr \<Rightarrow>
          if rr_type rr = RIN_DNS_WIRE_TYPE_OPT then
            (if \<not> additional \<or> opt_count + 1 \<noteq> 1 \<or> \<not> dns_opt_header_valid rr \<or>
                dns_edns_options_valid (rr_data packet rr) dns_clear_answer = None
             then None
             else dns_notimp_records packet additional record_count (rr_data_end rr, opt_count + 1))
          else dns_notimp_records packet additional record_count (rr_data_end rr, opt_count))"

definition dns_is_notimp_response :: "bytes \<Rightarrow> u16 \<Rightarrow> cstring \<Rightarrow> u16 \<Rightarrow> bool" where
  "dns_is_notimp_response packet expected_id expected_name expected_type =
     (if length packet < 12 \<or> \<not> dns_type_supported expected_type \<or> load_be16 packet \<noteq> expected_id
      then False
      else
        let flags = load_be16 (drop 2 packet); answer_count = load_be16 (drop 6 packet);
            authority_count = unat (load_be16 (drop 8 packet));
            additional_count = unat (load_be16 (drop 10 packet))
        in if flags AND 0x8000 = 0 \<or> flags AND 0x7800 \<noteq> 0 \<or> flags AND 0x0200 \<noteq> 0 \<or>
              flags AND 0x000f \<noteq> 4 \<or> load_be16 (drop 4 packet) \<noteq> 1 \<or> answer_count \<noteq> 0 \<or>
              authority_count > RIN_DNS_WIRE_MAX_AUTHORITY \<or>
              additional_count > RIN_DNS_WIRE_MAX_ADDITIONAL
           then False
           else case dns_question packet expected_name expected_type of
               None \<Rightarrow> False
             | Some position \<Rightarrow>
                 (case dns_notimp_records packet False authority_count (position, 0) of
                    None \<Rightarrow> False
                  | Some state \<Rightarrow>
                      (case dns_notimp_records packet True additional_count state of
                         None \<Rightarrow> False
                       | Some (position, _) \<Rightarrow> position = length packet)))"
section \<open>The response parser\<close>

text \<open>The framing pass over the answer and authority sections: the offset behind the last record.\<close>

fun dns_skip_records :: "bytes \<Rightarrow> nat \<Rightarrow> nat \<Rightarrow> nat option" where
  "dns_skip_records packet 0 position = Some position"
| "dns_skip_records packet (Suc record_count) position =
     (case dns_read_record packet position of
        None \<Rightarrow> None
      | Some rr \<Rightarrow>
          if rr_type rr = RIN_DNS_WIRE_TYPE_OPT then None
          else dns_skip_records packet record_count (rr_data_end rr))"

text \<open>One scan of the answer section for the records of \<open>current_name\<close>. The flags and the target are
  local to a scan; the answer set and \<open>result_found\<close> survive it.\<close>

record dns_scan =
  sc_cname_seen :: bool
  sc_data_seen :: bool
  sc_cname_ttl :: u32
  sc_cname_target :: cstring
  sc_answer_set :: dns_answer_set
  sc_result_found :: bool

definition dns_scan_cname :: "bytes \<Rightarrow> dns_record \<Rightarrow> dns_scan \<Rightarrow> dns_scan option" where
  "dns_scan_cname packet rr scan =
     (if sc_cname_seen scan \<or> sc_data_seen scan then None
      else case dns_decode packet (rr_data_position rr) of
          None \<Rightarrow> None
        | Some (record_data_name, next_offset) \<Rightarrow>
            if next_offset \<noteq> rr_data_end rr \<or> char_at record_data_name 0 = 0 then None
            else map_option (\<lambda>target. scan\<lparr>sc_cname_target := target, sc_cname_seen := True,
                     sc_cname_ttl := rr_ttl rr\<rparr>)
                   (dns_copy_name (RIN_DNS_WIRE_MAX_NAME_SIZE + 1) record_data_name))"

definition dns_store_address :: "nat \<Rightarrow> bytes \<Rightarrow> dns_record \<Rightarrow> dns_scan \<Rightarrow> dns_scan option" where
  "dns_store_address address_size packet rr scan =
     (let answers = sc_answer_set scan; count = unat (as_address_count answers);
          data = take address_size (drop (rr_data_position rr) packet)
      in if rr_data_end rr - rr_data_position rr \<noteq> address_size \<or>
            count \<ge> RIN_DNS_WIRE_MAX_RESULT_ADDRESSES
         then None
         else
           let answers = answers\<lparr>as_addresses :=
                   (as_addresses answers)[count := byte_copy (as_addresses answers ! count) 0 data],
                 as_address_count := as_address_count answers + 1\<rparr>
           in Some (scan\<lparr>sc_answer_set :=
                if sc_result_found scan then answers
                else answers\<lparr>as_primary := (as_primary answers)\<lparr>
                  an_address := byte_copy (an_address (as_primary answers)) 0 data\<rparr>\<rparr>\<rparr>))"

text \<open>The data of a matching record: an address, or for a PTR query a name, which is the second
  component of the result.\<close>

definition dns_scan_data ::
    "bytes \<Rightarrow> u16 \<Rightarrow> dns_record \<Rightarrow> dns_scan \<Rightarrow> (dns_scan \<times> cstring) option" where
  "dns_scan_data packet expected_type rr scan =
     (if expected_type = RIN_DNS_WIRE_TYPE_A
      then map_option (\<lambda>scan. (scan, [])) (dns_store_address 4 packet rr scan)
      else if expected_type = RIN_DNS_WIRE_TYPE_AAAA
      then map_option (\<lambda>scan. (scan, [])) (dns_store_address 16 packet rr scan)
      else case dns_decode packet (rr_data_position rr) of
          None \<Rightarrow> None
        | Some (record_data_name, next_offset) \<Rightarrow>
            if next_offset \<noteq> rr_data_end rr \<or> char_at record_data_name 0 = 0 then None
            else Some (scan, record_data_name))"

text \<open>The first record of the wanted type sets the type, the lifetime and for PTR the name; every
  later one can only lower the lifetime.\<close>

definition dns_publish_data ::
    "u16 \<Rightarrow> u32 \<Rightarrow> cstring \<Rightarrow> dns_scan \<Rightarrow> dns_scan option" where
  "dns_publish_data expected_type effective_ttl record_data_name scan =
     (let answers = sc_answer_set scan; answer = as_primary answers
      in if \<not> sc_result_found scan then
           (let answer = answer\<lparr>an_type := expected_type, an_ttl := effective_ttl\<rparr>
            in if expected_type = RIN_DNS_WIRE_TYPE_PTR
               then map_option (\<lambda>name. scan\<lparr>sc_answer_set :=
                        answers\<lparr>as_primary := answer\<lparr>an_name := name\<rparr>, as_address_count := 1\<rparr>,
                        sc_result_found := True\<rparr>)
                      (dns_copy_name (RIN_DNS_WIRE_MAX_NAME_SIZE + 1) record_data_name)
               else Some (scan\<lparr>sc_answer_set := answers\<lparr>as_primary := answer\<rparr>, sc_result_found := True\<rparr>))
         else Some (scan\<lparr>sc_answer_set := answers\<lparr>as_primary :=
                (if effective_ttl < an_ttl answer then answer\<lparr>an_ttl := effective_ttl\<rparr> else answer)\<rparr>\<rparr>))"

definition dns_scan_record ::
    "bytes \<Rightarrow> u16 \<Rightarrow> cstring \<Rightarrow> u32 \<Rightarrow> dns_record \<Rightarrow> dns_scan \<Rightarrow> dns_scan option" where
  "dns_scan_record packet expected_type current_name minimum_ttl rr scan =
     (if \<not> dns_names_equal (rr_name rr) current_name then Some scan
      else if (rr_type rr = RIN_DNS_WIRE_TYPE_CNAME \<or> rr_type rr = expected_type) \<and>
              rr_class rr \<noteq> RIN_DNS_WIRE_CLASS_IN
      then None
      else if rr_type rr = RIN_DNS_WIRE_TYPE_CNAME then dns_scan_cname packet rr scan
      else if rr_type rr = expected_type then
        (if sc_cname_seen scan then None
         else case dns_scan_data packet expected_type rr (scan\<lparr>sc_data_seen := True\<rparr>) of
             None \<Rightarrow> None
           | Some (scan, record_data_name) \<Rightarrow>
               dns_publish_data expected_type
                 (if rr_ttl rr < minimum_ttl then rr_ttl rr else minimum_ttl) record_data_name scan)
      else Some scan)"

fun dns_scan_answers ::
    "bytes \<Rightarrow> nat \<Rightarrow> u16 \<Rightarrow> cstring \<Rightarrow> u32 \<Rightarrow> nat \<Rightarrow> nat \<Rightarrow> dns_scan \<Rightarrow> (dns_scan \<times> nat) option" where
  "dns_scan_answers packet answer_end expected_type current_name minimum_ttl 0 scan_position scan =
     Some (scan, scan_position)"
| "dns_scan_answers packet answer_end expected_type current_name minimum_ttl (Suc record_count)
     scan_position scan =
     (case dns_read_record (take answer_end packet) scan_position of
        None \<Rightarrow> None
      | Some rr \<Rightarrow>
          (case dns_scan_record packet expected_type current_name minimum_ttl rr scan of
             None \<Rightarrow> None
           | Some scan \<Rightarrow>
               dns_scan_answers packet answer_end expected_type current_name minimum_ttl record_count
                 (rr_data_end rr) scan))"
text \<open>The loop over the chain of canonical names. Each round scans the answers for one name; a CNAME
  record starts another round, and the hop limit of the chain bounds the number of rounds.\<close>

record dns_resolution =
  rs_chain :: dns_cname_chain
  rs_current_name :: cstring
  rs_cname_hops :: nat
  rs_answer_set :: dns_answer_set
  rs_result_found :: bool

definition dns_start_scan :: "dns_resolution \<Rightarrow> dns_scan" where
  "dns_start_scan res = \<lparr>sc_cname_seen = False, sc_data_seen = False, sc_cname_ttl = 0,
     sc_cname_target = [], sc_answer_set = rs_answer_set res, sc_result_found = rs_result_found res\<rparr>"

text \<open>The end of a round that saw a CNAME record.\<close>

definition dns_next_name :: "dns_scan \<Rightarrow> dns_resolution \<Rightarrow> int + dns_resolution" where
  "dns_next_name scan res =
     (if sc_data_seen scan then Inl (-1)
      else case dns_cname_chain_follow (rs_chain res) (sc_cname_target scan) of
        (chain_status, chain) \<Rightarrow>
          if chain_status = RIN_DNS_WIRE_CNAME_CHAIN_LOOP then Inl RIN_DNS_WIRE_PARSE_CNAME_LOOP
          else if chain_status = RIN_DNS_WIRE_CNAME_CHAIN_LIMIT then Inl RIN_DNS_WIRE_PARSE_CNAME_LIMIT
          else if chain_status \<noteq> 0 then Inl (-1)
          else case dns_copy_name (RIN_DNS_WIRE_MAX_NAME_SIZE + 1) (sc_cname_target scan) of
              None \<Rightarrow> Inl (-1)
            | Some name \<Rightarrow>
                Inr \<lparr>rs_chain = (if sc_cname_ttl scan < cc_minimum_ttl chain
                       then chain\<lparr>cc_minimum_ttl := sc_cname_ttl scan\<rparr> else chain),
                     rs_current_name = name, rs_cname_hops = rs_cname_hops res + 1,
                     rs_answer_set = sc_answer_set scan, rs_result_found = sc_result_found scan\<rparr>)"

lemma dns_chain_follow_hops:
  assumes "dns_cname_chain_follow chain target = (0, chain')"
  shows "unat (cc_hop_count chain) < 8 \<and> unat (cc_hop_count chain') = Suc (unat (cc_hop_count chain))"
proof -
  have "unat (cc_hop_count chain) < 8" and c: "cc_hop_count chain' = cc_hop_count chain + 1"
    using assms by (auto simp: dns_cname_chain_follow_def split: option.splits if_splits)
  moreover from this have "unat (cc_hop_count chain + 1) = Suc (unat (cc_hop_count chain))"
    by (simp add: unat_word_ariths)
  ultimately show ?thesis by simp
qed

lemma dns_next_name_hops:
  assumes "dns_next_name scan res = Inr res'"
  shows "8 - unat (cc_hop_count (rs_chain res')) < 8 - unat (cc_hop_count (rs_chain res))"
proof -
  obtain chain' where f: "dns_cname_chain_follow (rs_chain res) (sc_cname_target scan) = (0, chain')"
    and "cc_hop_count (rs_chain res') = cc_hop_count chain'"
    using assms by (auto simp: dns_next_name_def split: prod.splits if_splits option.splits)
  with dns_chain_follow_hops [OF f] show ?thesis by auto
qed

function dns_follow_chain ::
    "bytes \<Rightarrow> nat \<Rightarrow> nat \<Rightarrow> nat \<Rightarrow> u16 \<Rightarrow> dns_resolution \<Rightarrow> int + dns_resolution" where
  "dns_follow_chain packet answer_start answer_end answer_count expected_type res =
     (case dns_scan_answers packet answer_end expected_type (rs_current_name res)
             (cc_minimum_ttl (rs_chain res)) answer_count answer_start (dns_start_scan res) of
        None \<Rightarrow> Inl (-1)
      | Some (scan, scan_position) \<Rightarrow>
          if scan_position \<noteq> answer_end then Inl (-1)
          else if sc_cname_seen scan then
            (case dns_next_name scan res of
               Inl failure_result \<Rightarrow> Inl failure_result
             | Inr res' \<Rightarrow>
                 dns_follow_chain packet answer_start answer_end answer_count expected_type res')
          else Inr (res\<lparr>rs_answer_set := sc_answer_set scan,
                 rs_result_found := sc_result_found scan\<rparr>))"
  by pat_completeness auto
termination
  by (relation "measure (\<lambda>(_, _, _, _, _, res). 8 - unat (cc_hop_count (rs_chain res)))")
    (auto dest: dns_next_name_hops)

declare dns_follow_chain.simps [simp del]

text \<open>The additional section, in which the OPT record is admitted.\<close>

definition dns_additional_record :: "bytes \<Rightarrow> dns_record \<Rightarrow> dns_answer \<Rightarrow> dns_answer option" where
  "dns_additional_record packet rr answer =
     (if rr_type rr \<noteq> RIN_DNS_WIRE_TYPE_OPT then Some answer
      else if an_edns_present answer \<noteq> 0 \<or> \<not> dns_opt_header_valid rr then None
      else map_option (\<lambda>answer. answer\<lparr>
               an_edns_udp_payload_size := (if rr_class rr < 512 then 512 else rr_class rr),
               an_edns_present := 1,
               an_edns_dnssec_ok := (if rr_ttl rr AND 0x8000 \<noteq> 0 then 1 else 0)\<rparr>)
             (dns_edns_options_valid (rr_data packet rr) answer))"

fun dns_additional :: "bytes \<Rightarrow> nat \<Rightarrow> nat \<Rightarrow> dns_answer \<Rightarrow> (nat \<times> dns_answer) option" where
  "dns_additional packet 0 position answer = Some (position, answer)"
| "dns_additional packet (Suc record_count) position answer =
     (case dns_read_record packet position of
        None \<Rightarrow> None
      | Some rr \<Rightarrow>
          (case dns_additional_record packet rr answer of
             None \<Rightarrow> None
           | Some answer \<Rightarrow> dns_additional packet record_count (rr_data_end rr) answer))"

text \<open>The verdict over an admitted response. \<open>referral_capacity\<close> is zero when the caller passes no
  buffer for the referral; the result has the status and the text left in that buffer.\<close>

definition dns_verdict :: "u16 \<Rightarrow> nat \<Rightarrow> nat \<Rightarrow> dns_resolution \<Rightarrow> (int \<times> cstring) option" where
  "dns_verdict rcode answer_count referral_capacity res =
     (if rcode = 3 then
        (if rs_result_found res \<or> (answer_count \<noteq> 0 \<and> rs_cname_hops res = 0) then None
         else if rs_cname_hops res \<noteq> 0 \<and> referral_capacity > 0
         then map_option (Pair RIN_DNS_WIRE_PARSE_NAME_ERROR)
                (dns_copy_name referral_capacity (rs_current_name res))
         else Some (RIN_DNS_WIRE_PARSE_NAME_ERROR, []))
      else if rs_result_found res then Some (RIN_DNS_WIRE_PARSE_SUCCESS, [])
      else if rs_cname_hops res \<noteq> 0 \<and> referral_capacity > 0 \<and>
              dns_copy_name referral_capacity (rs_current_name res) \<noteq> None
      then map_option (Pair RIN_DNS_WIRE_PARSE_CNAME_REFERRAL)
             (dns_copy_name referral_capacity (rs_current_name res))
      else if rs_cname_hops res = 0 then Some (RIN_DNS_WIRE_PARSE_NO_DATA, [])
      else None)"

text \<open>\<open>parse_response_answers_chain_ex\<close>: the part behind the header checks, and the whole parser. The
  result is the status, the chain, the answer set and the referral.\<close>

definition dns_parse_sections ::
    "bytes \<Rightarrow> cstring \<Rightarrow> u16 \<Rightarrow> dns_cname_chain \<Rightarrow> nat \<Rightarrow> u16 \<Rightarrow>
     int + (int \<times> cstring \<times> dns_cname_chain \<times> dns_answer_set)" where
  "dns_parse_sections packet expected_name expected_type chain referral_capacity rcode =
     (let answer_count = unat (load_be16 (drop 6 packet));
          authority_count = unat (load_be16 (drop 8 packet));
          additional_count = unat (load_be16 (drop 10 packet))
      in if answer_count > RIN_DNS_WIRE_MAX_ANSWERS \<or> authority_count > RIN_DNS_WIRE_MAX_AUTHORITY \<or>
            additional_count > RIN_DNS_WIRE_MAX_ADDITIONAL
         then Inl (-1)
         else case (dns_copy_name (RIN_DNS_WIRE_MAX_NAME_SIZE + 1) expected_name,
                    dns_question packet expected_name expected_type) of
             (Some current_name, Some answer_start) \<Rightarrow>
               (case dns_skip_records packet answer_count answer_start of
                  None \<Rightarrow> Inl (-1)
                | Some answer_end \<Rightarrow>
                    (case dns_follow_chain packet answer_start answer_end answer_count expected_type
                            \<lparr>rs_chain = chain, rs_current_name = current_name, rs_cname_hops = 0,
                             rs_answer_set = dns_clear_answer_set, rs_result_found = False\<rparr> of
                       Inl failure_result \<Rightarrow> Inl failure_result
                     | Inr res \<Rightarrow>
                         (case Option.bind (dns_skip_records packet authority_count answer_end)
                                 (\<lambda>position. dns_additional packet additional_count position
                                    (as_primary (rs_answer_set res))) of
                            None \<Rightarrow> Inl (-1)
                          | Some (position, answer) \<Rightarrow>
                              if position \<noteq> length packet then Inl (-1)
                              else case dns_verdict rcode answer_count referral_capacity res of
                                  None \<Rightarrow> Inl (-1)
                                | Some (status, referral) \<Rightarrow>
                                    Inr (status, referral, rs_chain res,
                                      (rs_answer_set res)\<lparr>as_primary := answer\<rparr>))))
           | _ \<Rightarrow> Inl (-1))"

definition dns_parse_response_answers_chain ::
    "bytes \<Rightarrow> u16 \<Rightarrow> cstring \<Rightarrow> u16 \<Rightarrow> dns_cname_chain \<Rightarrow> nat \<Rightarrow>
     int \<times> dns_cname_chain \<times> dns_answer_set \<times> cstring" where
  "dns_parse_response_answers_chain packet expected_id expected_name expected_type chain
     referral_capacity =
     (let fail = (\<lambda>failure_result. (failure_result, chain, dns_clear_answer_set, []));
          flags = load_be16 (drop 2 packet); rcode = flags AND 0x000f
      in if length packet < 12 \<or> \<not> dns_type_supported expected_type \<or> load_be16 packet \<noteq> expected_id
         then fail (-1)
         else case dns_cname_chain_current chain of
             None \<Rightarrow> fail (-1)
           | Some current \<Rightarrow>
               if \<not> dns_names_equal current expected_name then fail (-1)
               else if flags AND 0x8000 = 0 \<or> flags AND 0x7800 \<noteq> 0 \<or> flags AND 0x0200 \<noteq> 0 \<or>
                       load_be16 (drop 4 packet) \<noteq> 1
               then fail (-1)
               else if rcode = 4 then
                 (if dns_is_notimp_response packet expected_id expected_name expected_type
                  then fail RIN_DNS_WIRE_PARSE_NOT_IMPLEMENTED else fail (-1))
               else if rcode \<noteq> 0 \<and> rcode \<noteq> 3 then fail (-1)
               else case dns_parse_sections packet expected_name expected_type chain
                      referral_capacity rcode of
                   Inl failure_result \<Rightarrow> fail failure_result
                 | Inr (status, referral, chain', answers) \<Rightarrow> (status, chain', answers, referral))"
section \<open>The entry points\<close>

text \<open>The functions of the header with their pointer checks; \<^const>\<open>None\<close> is a null pointer. The chain, the
  answer set, the referral buffer and the inputs are distinct objects.\<close>

definition rin_dns_wire_names_equal :: "cstring option \<Rightarrow> cstring option \<Rightarrow> bool" where
  "rin_dns_wire_names_equal left right =
     (case (left, right) of (Some l, Some r) \<Rightarrow> dns_names_equal l r | _ \<Rightarrow> False)"

definition rin_dns_wire_cname_chain_follow ::
    "dns_cname_chain option \<Rightarrow> cstring option \<Rightarrow> int \<times> dns_cname_chain option" where
  "rin_dns_wire_cname_chain_follow chain target_name =
     (case (chain, target_name) of
        (Some c, Some t) \<Rightarrow> map_prod (\<lambda>s. s) Some (dns_cname_chain_follow c t)
      | _ \<Rightarrow> (RIN_DNS_WIRE_CNAME_CHAIN_INVALID, chain))"

definition rin_dns_wire_encode_name :: "cstring option \<Rightarrow> nat option \<Rightarrow> int \<times> bytes" where
  "rin_dns_wire_encode_name name output_capacity =
     (case (name, output_capacity) of
        (Some n, Some capacity) \<Rightarrow>
          (case dns_encode_name n capacity of None \<Rightarrow> (-1, []) | Some output \<Rightarrow> (0, output))
      | _ \<Rightarrow> (-1, []))"

definition rin_dns_wire_decode_name ::
    "bytes option \<Rightarrow> nat \<Rightarrow> nat option \<Rightarrow> int \<times> cstring \<times> nat" where
  "rin_dns_wire_decode_name packet start_offset output_capacity =
     (case (packet, output_capacity) of
        (Some p, Some capacity) \<Rightarrow>
          (case dns_decode_name p start_offset capacity of
             None \<Rightarrow> (-1, [], 0) | Some (output, next_offset) \<Rightarrow> (0, output, next_offset))
      | _ \<Rightarrow> (-1, [], 0))"

definition rin_dns_wire_parse_response_answers_chain_ex ::
    "bytes option \<Rightarrow> u16 \<Rightarrow> cstring option \<Rightarrow> u16 \<Rightarrow> dns_cname_chain option \<Rightarrow> dns_answer_set option \<Rightarrow>
     nat \<Rightarrow> int \<times> dns_cname_chain option \<times> dns_answer_set option \<times> cstring" where
  "rin_dns_wire_parse_response_answers_chain_ex packet expected_id expected_name expected_type chain
     answer_set referral_capacity =
     (case (packet, expected_name, chain, answer_set) of
        (Some p, Some name, Some c, Some _) \<Rightarrow>
          (case dns_parse_response_answers_chain p expected_id name expected_type c referral_capacity of
             (status, c', answers, referral) \<Rightarrow> (status, Some c', Some answers, referral))
      | _ \<Rightarrow> (-1, chain, map_option (\<lambda>_. dns_clear_answer_set) answer_set, []))"

definition rin_dns_wire_parse_response_answers_ex ::
    "bytes option \<Rightarrow> u16 \<Rightarrow> cstring option \<Rightarrow> u16 \<Rightarrow> dns_answer_set option \<Rightarrow> nat \<Rightarrow>
     int \<times> dns_answer_set option \<times> cstring" where
  "rin_dns_wire_parse_response_answers_ex packet expected_id expected_name expected_type answer_set
     referral_capacity =
     (case Option.bind expected_name dns_cname_chain_init of
        None \<Rightarrow> (-1, map_option (\<lambda>_. dns_clear_answer_set) answer_set, [])
      | Some chain \<Rightarrow>
          (case rin_dns_wire_parse_response_answers_chain_ex packet expected_id expected_name
                  expected_type (Some chain) answer_set referral_capacity of
             (status, _, answers, referral) \<Rightarrow> (status, answers, referral)))"

definition rin_dns_wire_parse_response_ex ::
    "bytes option \<Rightarrow> u16 \<Rightarrow> cstring option \<Rightarrow> u16 \<Rightarrow> dns_answer option \<Rightarrow> nat \<Rightarrow> cstring \<Rightarrow>
     int \<times> dns_answer option \<times> cstring" where
  "rin_dns_wire_parse_response_ex packet expected_id expected_name expected_type answer
     referral_capacity referral_before =
     (if answer = None then (-1, None, referral_before)
      else case rin_dns_wire_parse_response_answers_ex packet expected_id expected_name expected_type
             (Some dns_clear_answer_set) referral_capacity of
        (status, answers, referral) \<Rightarrow>
          (status,
           Some (if status = RIN_DNS_WIRE_PARSE_SUCCESS
                 then (case answers of None \<Rightarrow> dns_clear_answer | Some found \<Rightarrow> as_primary found)
                 else dns_clear_answer),
           referral))"

definition rin_dns_wire_parse_response ::
    "bytes option \<Rightarrow> u16 \<Rightarrow> cstring option \<Rightarrow> u16 \<Rightarrow> dns_answer option \<Rightarrow> int \<times> dns_answer option" where
  "rin_dns_wire_parse_response packet expected_id expected_name expected_type answer =
     (case rin_dns_wire_parse_response_ex packet expected_id expected_name expected_type answer 0 [] of
        (status, answer', _) \<Rightarrow> (if status = RIN_DNS_WIRE_PARSE_SUCCESS then 0 else -1, answer'))"

end
