(* ===== verification/Dns_Wire_Spec.thy ===== *)
theory Dns_Wire_Spec
  imports Dns_Wire
begin

text \<open>
  Names in DNS messages. Two names are compared as sequences of folded characters without a final dot;
  a name in a packet is a sequence of labels that is read through backward pointers; encoding and
  decoding are inverse to each other; and the UTF-8 check accepts exactly the encodings of sequences
  of Unicode scalar values.
\<close>

section \<open>Comparison\<close>

definition strip_dot :: "cstring \<Rightarrow> cstring" where
  "strip_dot s = (if s \<noteq> [] \<and> last s = ascii_dot then butlast s else s)"

definition dns_canonical :: "cstring \<Rightarrow> cstring" where
  "dns_canonical s = map dns_fold_ascii (strip_dot s)"

lemma fold_ascii_0 [simp]: "dns_fold_ascii c = 0 \<longleftrightarrow> c = 0"
proof -
  have "c + 0x20 \<noteq> 0" if "c \<ge> 0x41" "c \<le> 0x5a"
  proof -
    have "unat (c + 0x20) = unat c + 0x20" using that by (simp add: unat_word_ariths word_le_nat_alt)
    then show ?thesis by (metis add_is_0 unat_0 zero_neq_numeral)
  qed
  moreover have "c \<noteq> 0" if "c \<ge> 0x41" using that by (auto simp: word_le_nat_alt)
  ultimately show ?thesis by (auto simp: dns_fold_ascii_def)
qed

lemma fold_ascii_of_0 [simp]: "dns_fold_ascii 0 = 0"
  by simp

lemma set_strip_dot: "set (strip_dot s) \<subseteq> set s"
  by (auto simp: strip_dot_def dest: in_set_butlastD)

lemma name_char_strip:
  assumes "0 \<notin> set s" and "length s \<le> 255" and "i \<le> length (strip_dot s)"
  shows "dns_name_char s i = (if i < length (strip_dot s) then strip_dot s ! i else 0)"
proof -
  have zero: "char_at s j = 0 \<longleftrightarrow> length s \<le> j" for j
    using assms(1) by (auto simp: char_at_def) (metis nth_mem)
  show ?thesis
  proof (cases "s \<noteq> [] \<and> last s = ascii_dot")
    case True
    then have "length (strip_dot s) = length s - 1" "length s > 0" by (simp_all add: strip_dot_def)
    with True assms(2,3) zero [of "i + 1"] show ?thesis
      by (auto simp: dns_name_char_def char_at_def strip_dot_def nth_butlast last_conv_nth)
  next
    case False
    then have [simp]: "strip_dot s = s" by (auto simp: strip_dot_def)
    have "s ! i \<noteq> ascii_dot" if "i < length s" "length s \<le> i + 1"
    proof -
      have "i = length s - 1" using that by simp
      moreover have "s \<noteq> []" using that by auto
      ultimately show ?thesis using False by (simp add: last_conv_nth)
    qed
    then have "\<not> (char_at s i = ascii_dot \<and> char_at s (i + 1) = 0)"
      using zero [of "i + 1"] by (auto simp: char_at_def)
    then show ?thesis using assms(3) by (auto simp: dns_name_char_def char_at_def split: if_splits)
  qed
qed

lemma names_equal_from_iff:
  assumes "0 \<notin> set l" "length l \<le> 255" "0 \<notin> set r" "length r \<le> 255"
    and "i \<le> length (strip_dot l)" and "i \<le> length (strip_dot r)"
  shows "dns_names_equal_from i l r \<longleftrightarrow>
    map dns_fold_ascii (drop i (strip_dot l)) = map dns_fold_ascii (drop i (strip_dot r))"
  using assms
proof (induction i l r rule: dns_names_equal_from.induct)
  case (1 i l r)
  let ?l = "strip_dot l" and ?r = "strip_dot r"
  have le: "i \<le> 255" using 1 by (auto simp: strip_dot_def split: if_splits)
  note c = name_char_strip [OF "1.prems"(1,2,5)] name_char_strip [OF "1.prems"(3,4,6)]
  have nz: "i < length ?l \<Longrightarrow> ?l ! i \<noteq> 0" "i < length ?r \<Longrightarrow> ?r ! i \<noteq> 0"
    using "1.prems"(1,3) set_strip_dot nth_mem by (metis subsetD)+
  show ?case
  proof (cases "i < length ?l \<and> i < length ?r")
    case True
    then have "drop i ?l = ?l ! i # drop (i + 1) ?l" "drop i ?r = ?r ! i # drop (i + 1) ?r"
      by (simp_all add: Cons_nth_drop_Suc)
    with True "1.IH" "1.prems" le c nz show ?thesis
      by (subst dns_names_equal_from.simps) simp
  next
    case False
    then consider "i = length ?l" | "i < length ?l" "i = length ?r" using "1.prems"(5,6) by linarith
    then show ?thesis
    proof cases
      case 1
      then show ?thesis using le c nz by (subst dns_names_equal_from.simps) (auto simp: drop_eq_Nil2)
    next
      case 2
      then show ?thesis using le c nz by (subst dns_names_equal_from.simps) auto
    qed
  qed
qed

text \<open>The comparison decides equality up to case and one final dot.\<close>

lemma names_equal_iff:
  assumes "0 \<notin> set l" "length l \<le> 255" "0 \<notin> set r" "length r \<le> 255"
  shows "dns_names_equal l r \<longleftrightarrow> dns_canonical l = dns_canonical r"
  using names_equal_from_iff [OF assms, of 0] by (simp add: dns_names_equal_def dns_canonical_def)
section \<open>Labels\<close>

text \<open>A name is a list of labels. In presentation form the labels are separated by dots, on the wire each
  is preceded by its length and a zero byte ends the name.\<close>

definition label_ok :: "bytes \<Rightarrow> bool" where
  "label_ok l = (l \<noteq> [] \<and> length l \<le> 63 \<and> list_all dns_presentation_char l)"

fun join_onto :: "cstring \<Rightarrow> bytes list \<Rightarrow> cstring" where
  "join_onto out [] = out"
| "join_onto out (l # ls) = join_onto (if out = [] then l else out @ ascii_dot # l) ls"

abbreviation join_labels :: "bytes list \<Rightarrow> cstring" where
  "join_labels \<equiv> join_onto []"

definition wire_labels :: "bytes list \<Rightarrow> bytes" where
  "wire_labels ls = concat (map (\<lambda>l. of_nat (length l) # l) ls)"

definition wire_name :: "bytes list \<Rightarrow> bytes" where
  "wire_name ls = wire_labels ls @ [0]"

lemma wire_labels_simps [simp]:
  "wire_labels [] = []" "wire_labels (l # ls) = of_nat (length l) # l @ wire_labels ls"
  "wire_labels (ls @ ms) = wire_labels ls @ wire_labels ms"
  by (simp_all add: wire_labels_def)

lemma length_wire_name [simp]: "length (wire_name ls) = length (wire_labels ls) + 1"
  by (simp add: wire_name_def)

lemma join_onto_ne: "out \<noteq> [] \<Longrightarrow> length (join_onto out ls) = length out + length (wire_labels ls)"
  by (induction out ls rule: join_onto.induct) auto

lemma length_join_onto_ge: "length out \<le> length (join_onto out ls)"
  by (induction out ls rule: join_onto.induct) (auto split: if_splits)

lemma length_join_labels:
  "list_all label_ok ls \<Longrightarrow> length (join_labels ls) = length (wire_labels ls) - 1"
  by (cases ls) (auto simp: join_onto_ne label_ok_def)

text \<open>Reading a name at an offset of a packet: the labels, the number of pointers followed, and the
  offset behind the name. A pointer leads to a smaller offset.\<close>

definition pointer_target :: "bytes \<Rightarrow> nat \<Rightarrow> nat" where
  "pointer_target p i = unat (push_bit 8 (ucast (p ! i AND 0x3f)) OR ucast (p ! (i + 1)) :: u16)"

inductive name_at :: "bytes \<Rightarrow> nat \<Rightarrow> bytes list \<Rightarrow> nat \<Rightarrow> nat \<Rightarrow> bool" for p where
  name_root: "i < length p \<Longrightarrow> p ! i = 0 \<Longrightarrow> name_at p i [] 0 (i + 1)"
| name_label: "i < length p \<Longrightarrow> 0 < unat (p ! i) \<Longrightarrow> unat (p ! i) < 64 \<Longrightarrow>
    i + 1 + unat (p ! i) \<le> length p \<Longrightarrow> name_at p (i + 1 + unat (p ! i)) ls k n \<Longrightarrow>
    name_at p i (take (unat (p ! i)) (drop (i + 1) p) # ls) k n"
| name_pointer: "i + 1 < length p \<Longrightarrow> p ! i AND 0xc0 = 0xc0 \<Longrightarrow> pointer_target p i < i \<Longrightarrow>
    name_at p (pointer_target p i) ls k n \<Longrightarrow> name_at p i ls (Suc k) (i + 2)"

inductive_simps name_at_iff: "name_at p i ls k n"

lemma byte_class: "(x AND 0xc0 \<noteq> 0 \<or> x > 63) \<longleftrightarrow> unat x \<ge> 64" "x AND 0xc0 = 0xc0 \<Longrightarrow> unat x \<ge> 64"
  for x :: u8
proof -
  have zero: "unat x < 64 \<longrightarrow> x AND 0xc0 = 0"
  proof
    assume "unat x < 64"
    then have "take_bit 6 x = x" by (simp add: word_unat_eq_iff unat_mod take_bit_eq_mod)
    then have "x = x AND 63" by (simp add: take_bit_eq_mask mask_numeral)
    then have "x AND 0xc0 = x AND (63 AND 0xc0)" by (metis and.assoc)
    then show "x AND 0xc0 = 0" by simp
  qed
  then show "(x AND 0xc0 \<noteq> 0 \<or> x > 63) \<longleftrightarrow> unat x \<ge> 64" by (auto simp: word_less_nat_alt not_le [symmetric])
  have "x AND 0xc0 \<le> x" by (rule word_and_le2)
  then show "unat x \<ge> 64" if "x AND 0xc0 = 0xc0" using that by (simp add: word_le_nat_alt)
qed
section \<open>Decoding\<close>

lemma append_label_iff:
  assumes "length out < cap" "l \<noteq> []"
  shows "dns_append_label cap out l = Some out' \<longleftrightarrow>
    list_all dns_presentation_char l \<and> length out' < cap \<and> out' = join_onto out [l]"
  using assms by (auto simp: dns_append_label_def Let_def)

text \<open>What the decoding loop computes from any of its states.\<close>

definition decodes_to :: "bytes \<Rightarrow> nat \<Rightarrow> nat \<Rightarrow> cstring \<Rightarrow> nat \<Rightarrow> nat \<Rightarrow> nat option \<Rightarrow> cstring \<Rightarrow> nat \<Rightarrow> bool" where
  "decodes_to p cap i out used pointers final name n =
    (\<exists>ls k m. name_at p i ls k m \<and> pointers + k \<le> 32 \<and> list_all label_ok ls \<and>
       used + length (wire_labels ls) \<le> 255 \<and> name = join_onto out ls \<and> length name < cap \<and>
       n = (case final of None \<Rightarrow> m | Some f \<Rightarrow> f))"

lemma name_at_pointer:
  assumes "p ! i AND 0xc0 = 0xc0"
  shows "name_at p i ls k m \<longleftrightarrow> (\<exists>k' m'. i + 1 < length p \<and> pointer_target p i < i \<and>
    name_at p (pointer_target p i) ls k' m' \<and> k = Suc k' \<and> m = i + 2)"
proof -
  have "unat (p ! i) \<ge> 64" using assms by (rule byte_class(2))
  with assms show ?thesis by (subst name_at_iff) auto
qed

lemma decodes_to_pointer:
  assumes "p ! i AND 0xc0 = 0xc0"
  shows "decodes_to p cap i out used pointers final name n \<longleftrightarrow>
    i + 1 < length p \<and> pointers + 1 \<le> 32 \<and> pointer_target p i < i \<and>
    decodes_to p cap (pointer_target p i) out used (pointers + 1)
      (Some (case final of None \<Rightarrow> i + 2 | Some f \<Rightarrow> f)) name n" (is "?l \<longleftrightarrow> ?r")
proof
  assume ?l
  then obtain ls k m k' m' where "pointers + k \<le> 32" "list_all label_ok ls"
    "used + length (wire_labels ls) \<le> 255" "name = join_onto out ls" "length name < cap"
    "n = (case final of None \<Rightarrow> m | Some f \<Rightarrow> f)" "name_at p (pointer_target p i) ls k' m'" "k = Suc k'"
    "m = i + 2" "i + 1 < length p" "pointer_target p i < i"
    unfolding decodes_to_def name_at_pointer [OF assms] by blast
  then show ?r
    unfolding decodes_to_def
    by - (intro conjI, simp, simp, simp, rule exI [of _ ls], rule exI [of _ k'], rule exI [of _ m'],
      simp split: option.splits)
next
  assume r: ?r
  then obtain ls k m where a: "name_at p (pointer_target p i) ls k m" "pointers + 1 + k \<le> 32"
    "list_all label_ok ls" "used + length (wire_labels ls) \<le> 255" "name = join_onto out ls" "length name < cap"
    "n = (case final of None \<Rightarrow> i + 2 | Some f \<Rightarrow> f)" unfolding decodes_to_def by auto
  moreover from a(1) r have "name_at p i ls (Suc k) (i + 2)" unfolding name_at_pointer [OF assms] by blast
  ultimately show ?l
    unfolding decodes_to_def by - (rule exI [of _ ls], rule exI [of _ "Suc k"], rule exI [of _ "i + 2"], simp)
qed

abbreviation label_at :: "bytes \<Rightarrow> nat \<Rightarrow> bytes" where
  "label_at p i \<equiv> take (unat (p ! i)) (drop (i + 1) p)"

abbreviation after_label :: "bytes \<Rightarrow> nat \<Rightarrow> nat" where
  "after_label p i \<equiv> i + 1 + unat (p ! i)"

lemma name_at_label:
  assumes "i < length p" "p ! i \<noteq> 0" "unat (p ! i) < 64"
  shows "name_at p i ls k m \<longleftrightarrow> after_label p i \<le> length p \<and>
    (\<exists>ls'. ls = label_at p i # ls' \<and> name_at p (after_label p i) ls' k m)"
proof
  have nc: "p ! i AND 0xc0 \<noteq> 0xc0" using assms(3) byte_class(2) by fastforce
  show "after_label p i \<le> length p \<and> (\<exists>ls'. ls = label_at p i # ls' \<and> name_at p (after_label p i) ls' k m)"
    if "name_at p i ls k m"
    using that by cases (use assms nc in auto)
  show "name_at p i ls k m"
    if "after_label p i \<le> length p \<and> (\<exists>ls'. ls = label_at p i # ls' \<and> name_at p (after_label p i) ls' k m)"
    using that assms name_label [of i p] by (auto simp: unat_gt_0)
qed

lemma decodes_to_label:
  assumes "i < length p" "p ! i \<noteq> 0" "unat (p ! i) < 64"
  shows "decodes_to p cap i out used pointers final name n \<longleftrightarrow>
    after_label p i \<le> length p \<and> used + (1 + unat (p ! i)) \<le> 255 \<and>
    list_all dns_presentation_char (label_at p i) \<and> length (join_onto out [label_at p i]) < cap \<and>
    decodes_to p cap (after_label p i) (join_onto out [label_at p i]) (used + (1 + unat (p ! i)))
      pointers final name n" (is "?l \<longleftrightarrow> ?r")
proof -
  have pos: "0 < unat (p ! i)" using assms(2) by (simp add: unat_gt_0)
  have len: "length (label_at p i) = unat (p ! i)" if "after_label p i \<le> length p" using that by simp
  have ok: "label_ok (label_at p i) \<longleftrightarrow> list_all dns_presentation_char (label_at p i)" if "after_label p i \<le> length p"
    using len [OF that] pos assms(3) by (auto simp: label_ok_def)
  note at = name_at_label [OF assms]
  show ?thesis
  proof
    assume ?l
    then obtain ls k m where a: "name_at p (after_label p i) ls k m" "pointers + k \<le> 32"
      "list_all label_ok (label_at p i # ls)" "used + length (wire_labels (label_at p i # ls)) \<le> 255"
      "name = join_onto out (label_at p i # ls)" "length name < cap" "after_label p i \<le> length p"
      "n = (case final of None \<Rightarrow> m | Some f \<Rightarrow> f)" unfolding decodes_to_def at by blast
    then have "length (join_onto out [label_at p i]) < cap"
      using length_join_onto_ge [of "join_onto out [label_at p i]" ls] by simp
    moreover have "decodes_to p cap (after_label p i) (join_onto out [label_at p i]) (used + (1 + unat (p ! i)))
        pointers final name n"
      using a len unfolding decodes_to_def by - (rule exI [of _ ls], rule exI [of _ k], rule exI [of _ m], simp)
    ultimately show ?r using a ok len by simp
  next
    assume r: ?r
    then obtain ls k m where "name_at p (after_label p i) ls k m" "pointers + k \<le> 32" "list_all label_ok ls"
      "used + (1 + unat (p ! i)) + length (wire_labels ls) \<le> 255"
      "name = join_onto (join_onto out [label_at p i]) ls" "length name < cap"
      "n = (case final of None \<Rightarrow> m | Some f \<Rightarrow> f)" unfolding decodes_to_def by blast
    with r ok len show ?l
      unfolding decodes_to_def at by - (rule exI [of _ "label_at p i # ls"], rule exI [of _ k], rule exI [of _ m], simp)
  qed
qed

lemma label_guards:
  assumes "i < length p" "p ! i \<noteq> 0" "unat (p ! i) < 64" "after_label p i \<le> length p" "used + (1 + unat (p ! i)) \<le> 255"
  shows "\<not> (after_label p i > length p \<or> used > 255 - (1 + unat (p ! i)))" "\<not> i \<ge> length p" "p ! i \<noteq> 0"
    "p ! i AND 0xc0 \<noteq> 0xc0" "\<not> (p ! i AND 0xc0 \<noteq> 0 \<or> p ! i > 63)"
  using assms byte_class [of "p ! i"] by auto

lemma decode_labels_label:
  assumes "i < length p" "p ! i \<noteq> 0" "unat (p ! i) < 64" "after_label p i \<le> length p" "used + (1 + unat (p ! i)) \<le> 255"
  shows "dns_decode_labels p cap i out used pointers final =
    Option.bind (dns_append_label cap out (label_at p i))
      (\<lambda>out'. dns_decode_labels p cap (after_label p i) out' (used + (1 + unat (p ! i))) pointers final)"
proof -
  note g = label_guards [OF assms, THEN eq_False [THEN iffD2]]
  show ?thesis
    by (subst dns_decode_labels.simps, unfold Let_def g if_False)
      (cases "dns_append_label cap out (label_at p i)", simp_all only: option.case bind.simps)
qed

lemma decode_label_step:
  assumes "i < length p" "p ! i \<noteq> 0" "unat (p ! i) < 64" "length out < cap"
    and "\<And>out'. after_label p i \<le> length p \<Longrightarrow> used + (1 + unat (p ! i)) \<le> 255 \<Longrightarrow>
      dns_append_label cap out (label_at p i) = Some out' \<Longrightarrow> length out' < cap \<Longrightarrow>
      dns_decode_labels p cap (after_label p i) out' (used + (1 + unat (p ! i))) pointers final = Some (name, n) \<longleftrightarrow>
      decodes_to p cap (after_label p i) out' (used + (1 + unat (p ! i))) pointers final name n"
  shows "dns_decode_labels p cap i out used pointers final = Some (name, n) \<longleftrightarrow>
    decodes_to p cap i out used pointers final name n"
proof (cases "after_label p i \<le> length p \<and> used + (1 + unat (p ! i)) \<le> 255")
  case True
  then have fits: "after_label p i \<le> length p" "used + (1 + unat (p ! i)) \<le> 255" by simp_all
  have "0 < unat (p ! i)" using assms(2) by (simp add: unat_gt_0)
  then have ne: "label_at p i \<noteq> []" using fits by auto
  let ?out = "join_onto out [label_at p i]"
  note app = append_label_iff [OF assms(4) ne]
  show ?thesis
  proof (cases "list_all dns_presentation_char (label_at p i) \<and> length ?out < cap")
    case True
    then have ap: "dns_append_label cap out (label_at p i) = Some ?out" unfolding app by simp
    show ?thesis
      unfolding decode_labels_label [OF assms(1-3) fits] decodes_to_label [OF assms(1-3)] ap bind.simps
      using True fits assms(5) [OF fits ap] by blast
  next
    case False
    then have "dns_append_label cap out (label_at p i) = None" using app by (metis option.exhaust)
    then show ?thesis
      unfolding decode_labels_label [OF assms(1-3) fits] decodes_to_label [OF assms(1-3)] using False by auto
  qed
next
  case False
  then show ?thesis unfolding decodes_to_label [OF assms(1-3)]
    using assms(1-3) byte_class [of "p ! i"] by (subst dns_decode_labels.simps) (auto simp: Let_def)
qed

lemma decode_labels_iff:
  assumes "length out < cap" and "used \<le> 255" and "pointers \<le> 32"
  shows "dns_decode_labels p cap i out used pointers final = Some (name, n) \<longleftrightarrow>
    decodes_to p cap i out used pointers final name n"
  using assms
proof (induction p cap i out used pointers final rule: dns_decode_labels.induct)
  case (1 p cap i out used pointers final)
  consider "i \<ge> length p" | (root) "i < length p" "p ! i = 0"
    | (pointer) "i < length p" "p ! i \<noteq> 0" "p ! i AND 0xc0 = 0xc0"
    | (bad) "i < length p" "p ! i \<noteq> 0" "p ! i AND 0xc0 \<noteq> 0xc0" "unat (p ! i) \<ge> 64"
    | (label) "i < length p" "p ! i \<noteq> 0" "unat (p ! i) < 64"
    by linarith
  then show ?case
  proof cases
    case 1
    then show ?thesis unfolding decodes_to_def by (subst dns_decode_labels.simps, subst name_at_iff) auto
  next
    case root
    then show ?thesis
      using "1.prems" unfolding decodes_to_def
      by (subst dns_decode_labels.simps, subst name_at_iff) (auto split: option.splits)
  next
    case pointer
    show ?thesis
    proof (cases "i + 1 < length p \<and> pointers + 1 \<le> 32 \<and> pointer_target p i < i")
      case True
      then show ?thesis
        unfolding decodes_to_pointer [OF pointer(3)]
        using "1.IH"(1) [OF _ refl] pointer "1.prems" unfolding pointer_target_def
        by (subst dns_decode_labels.simps) (simp add: Let_def)
    next
      case False
      then show ?thesis unfolding decodes_to_pointer [OF pointer(3)] using pointer
        by (subst dns_decode_labels.simps) (auto simp: Let_def pointer_target_def)
    qed
  next
    case bad
    then show ?thesis
      using byte_class(1) unfolding decodes_to_def
      by (subst dns_decode_labels.simps, subst name_at_iff) (auto simp: Let_def)
  next
    case label
    then show ?thesis
    proof (rule decode_label_step [OF _ _ _ "1.prems"(1)])
      fix out'
      assume fits: "after_label p i \<le> length p" "used + (1 + unat (p ! i)) \<le> 255"
        and ap: "dns_append_label cap out (label_at p i) = Some out'" "length out' < cap"
      note cond = label_guards [OF label fits]
      show "dns_decode_labels p cap (after_label p i) out' (used + (1 + unat (p ! i))) pointers final = Some (name, n) \<longleftrightarrow>
          decodes_to p cap (after_label p i) out' (used + (1 + unat (p ! i))) pointers final name n"
        using "1.IH"(2) [OF cond(2) refl cond(3,4,5) refl cond(1) ap fits(2) "1.prems"(3)] .
    qed
  qed
qed
definition labels_ok :: "bytes list \<Rightarrow> bool" where
  "labels_ok ls = (list_all label_ok ls \<and> length (wire_name ls) \<le> 255)"

lemma name_at_bounds: "name_at p i ls k n \<Longrightarrow> i < n \<and> n \<le> length p"
  by (induction rule: name_at.induct) auto

lemma decode_name_spec:
  "dns_decode_name p i 256 = Some (name, n) \<longleftrightarrow>
     (\<exists>ls k. name_at p i ls k n \<and> k \<le> 32 \<and> labels_ok ls \<and> name = join_labels ls)"
proof (cases "i < length p")
  case True
  then have "dns_decode_name p i 256 = Some (name, n) \<longleftrightarrow> decodes_to p 256 i [] 1 0 None name n"
    by (simp add: dns_decode_name_def decode_labels_iff)
  also have "\<dots> \<longleftrightarrow> (\<exists>ls k. name_at p i ls k n \<and> k \<le> 32 \<and> labels_ok ls \<and> name = join_labels ls)"
    by (force simp: decodes_to_def labels_ok_def length_join_labels)
  finally show ?thesis .
next
  case False
  then show ?thesis using name_at.cases [of p i] by (auto simp: dns_decode_name_def)
qed

text \<open>C5: A name is decoded exactly when it can be read at the offset: a sequence of labels, each of one to
  63 printable characters without dot and backslash, that is continued through at most 32 pointers to
  strictly smaller offsets and whose uncompressed form has at most 255 bytes. The text is the labels
  separated by dots, and the offset returned is the one behind the name, or behind its first pointer.
  The loop ends on every packet.\<close>

theorem decode_name_iff:
  "dns_decode_name p i 256 = Some (name, n) \<longleftrightarrow>
     (\<exists>ls k. name_at p i ls k n \<and> k \<le> 32 \<and> labels_ok ls \<and> name = join_labels ls)"
  by (rule decode_name_spec)

section \<open>Encoding\<close>

lemma presentation_char_iff: "dns_presentation_char c \<longleftrightarrow> dns_label_char c \<and> c \<noteq> ascii_dot"
  by (auto simp: dns_presentation_char_def dns_label_char_def)

lemma join_onto_concat: "out \<noteq> [] \<Longrightarrow> join_onto out ls = out @ concat (map (Cons ascii_dot) ls)"
  by (induction out ls rule: join_onto.induct) auto

lemma join_labels_Cons:
  "l \<noteq> [] \<Longrightarrow> join_labels (l # ls) = l @ concat (map (Cons ascii_dot) ls)"
  by (simp add: join_onto_concat)

lemma join_labels_Cons2:
  "l \<noteq> [] \<Longrightarrow> m \<noteq> [] \<Longrightarrow> join_labels (l # m # ls) = l @ ascii_dot # join_labels (m # ls)"
  by (simp add: join_onto_concat)

text \<open>The inner loop stops at the first dot or at the end of the string.\<close>

lemma label_end_takeWhile:
  assumes "0 \<notin> set rest" and "length pre + length (takeWhile (\<lambda>c. c \<noteq> ascii_dot) rest) \<le> 255"
  shows "dns_label_end (pre @ rest) (length pre) =
    (if list_all dns_label_char (takeWhile (\<lambda>c. c \<noteq> ascii_dot) rest)
     then Some (length pre + length (takeWhile (\<lambda>c. c \<noteq> ascii_dot) rest)) else None)"
  using assms
proof (induction rest arbitrary: pre)
  case Nil
  then show ?case by (subst dns_label_end.simps) (simp add: char_at_def)
next
  case (Cons c rest)
  have c: "char_at (pre @ c # rest) (length pre) = c" by (simp add: char_at_def)
  have "dns_label_end ((pre @ [c]) @ rest) (length (pre @ [c])) =
      (if list_all dns_label_char (takeWhile (\<lambda>c. c \<noteq> ascii_dot) rest)
       then Some (length (pre @ [c]) + length (takeWhile (\<lambda>c. c \<noteq> ascii_dot) rest)) else None)" if "c \<noteq> ascii_dot"
    using Cons.prems that by (intro Cons.IH) auto
  with Cons.prems c show ?case by (subst dns_label_end.simps) auto
qed

text \<open>The outer loop: the input position and the output position stay equal.\<close>

definition encodes_to :: "nat \<Rightarrow> cstring \<Rightarrow> bytes \<Rightarrow> bytes \<Rightarrow> bool" where
  "encodes_to cap rest out w =
    (\<exists>ls. ls \<noteq> [] \<and> list_all label_ok ls \<and> w = out @ wire_labels ls \<and> length w < 255 \<and> length w \<le> cap \<and>
       (rest = join_labels ls \<or> rest = join_labels ls @ [ascii_dot]))"

lemma label_ok_no_dot: "label_ok l \<Longrightarrow> ascii_dot \<notin> set l"
  by (auto simp: label_ok_def list_all_iff presentation_char_iff)

lemma takeWhile_label:
  assumes "label_ok l" and "rest = l \<or> rest = l @ ascii_dot # t"
  shows "takeWhile (\<lambda>c. c \<noteq> ascii_dot) rest = l" "dropWhile (\<lambda>c. c \<noteq> ascii_dot) rest = drop (length l) rest"
proof -
  have "\<forall>c \<in> set l. c \<noteq> ascii_dot" using label_ok_no_dot [OF assms(1)] by auto
  then show "takeWhile (\<lambda>c. c \<noteq> ascii_dot) rest = l" "dropWhile (\<lambda>c. c \<noteq> ascii_dot) rest = drop (length l) rest"
    using assms(2) by (auto simp: takeWhile_eq_all_conv dropWhile_append2)
qed

lemma joined_label:
  assumes "list_all label_ok (l # ls)" and "rest = join_labels (l # ls) \<or> rest = join_labels (l # ls) @ [ascii_dot]"
  shows "takeWhile (\<lambda>c. c \<noteq> ascii_dot) rest = l"
    "dropWhile (\<lambda>c. c \<noteq> ascii_dot) rest =
       (if ls = [] then (if rest = l then [] else [ascii_dot])
        else ascii_dot # (if rest = join_labels (l # ls) then join_labels ls else join_labels ls @ [ascii_dot]))"
proof -
  have l: "l \<noteq> []" "label_ok l" using assms(1) by (auto simp: label_ok_def)
  have "rest = l \<or> (\<exists>t. rest = l @ ascii_dot # t)"
    using assms(2) l(1) by (cases ls) (auto simp: join_onto_concat)
  then show t: "takeWhile (\<lambda>c. c \<noteq> ascii_dot) rest = l" using takeWhile_label(1) [OF l(2)] by blast
  define d where "d = dropWhile (\<lambda>c. c \<noteq> ascii_dot) rest"
  have d: "rest = l @ d" unfolding d_def by (metis t takeWhile_dropWhile_id)
  have join: "ls \<noteq> [] \<Longrightarrow> join_labels (l # ls) = l @ ascii_dot # join_labels ls"
    using assms(1) l(1) join_labels_Cons2 by (cases ls) (auto simp: label_ok_def)
  show "dropWhile (\<lambda>c. c \<noteq> ascii_dot) rest =
       (if ls = [] then (if rest = l then [] else [ascii_dot])
        else ascii_dot # (if rest = join_labels (l # ls) then join_labels ls else join_labels ls @ [ascii_dot]))"
    using assms(2) d join unfolding d_def [symmetric] by (cases "ls = []") auto
qed

lemma encodes_to_step:
  fixes rest
  defines "l \<equiv> takeWhile (\<lambda>c. c \<noteq> ascii_dot) rest" and "t \<equiv> dropWhile (\<lambda>c. c \<noteq> ascii_dot) rest"
  shows "encodes_to cap rest out w \<longleftrightarrow>
    label_ok l \<and> length out + 1 + length l < 255 \<and> length out + 1 + length l \<le> cap \<and>
    (if t = [] \<or> tl t = [] then w = out @ of_nat (length l) # l
     else encodes_to cap (tl t) (out @ of_nat (length l) # l) w)" (is "?a \<longleftrightarrow> ?b")
proof
  assume ?a
  then obtain ls where a: "ls \<noteq> []" "list_all label_ok ls" "w = out @ wire_labels ls" "length w < 255" "length w \<le> cap"
    "rest = join_labels ls \<or> rest = join_labels ls @ [ascii_dot]" by (auto simp: encodes_to_def)
  then obtain l' ls' where ls: "ls = l' # ls'" by (cases ls) auto
  note j = joined_label [OF a(2) [unfolded ls] a(6) [unfolded ls]]
  have l': "l = l'" unfolding l_def by (rule j(1))
  have t: "t = (if ls' = [] then (if rest = l then [] else [ascii_dot])
        else ascii_dot # (if rest = join_labels (l # ls') then join_labels ls' else join_labels ls' @ [ascii_dot]))"
    unfolding t_def using j(2) l' by simp
  show ?b
  proof (cases "ls' = []")
    case True
    with a t ls l' show ?thesis by auto
  next
    case False
    then have "join_labels ls' \<noteq> []" using a(2) ls by (cases ls') (auto simp: join_onto_concat label_ok_def)
    then have "t \<noteq> [] \<and> tl t \<noteq> []" using t False by auto
    moreover have "encodes_to cap (tl t) (out @ of_nat (length l) # l) w"
      unfolding encodes_to_def using a False t ls l' by (intro exI [of _ ls']) auto
    ultimately show ?thesis using a ls l' by auto
  qed
next
  assume b: ?b
  have rest: "rest = l @ t" by (simp add: l_def t_def)
  have dot: "t \<noteq> [] \<Longrightarrow> hd t = ascii_dot" unfolding t_def using hd_dropWhile by blast
  show ?a
  proof (cases "t = [] \<or> tl t = []")
    case True
    then have "rest = l \<or> rest = l @ [ascii_dot]" using rest dot by (cases t) auto
    with b True show ?thesis unfolding encodes_to_def by (intro exI [of _ "[l]"]) auto
  next
    case False
    with b obtain ls where "ls \<noteq> []" "list_all label_ok ls" "w = (out @ of_nat (length l) # l) @ wire_labels ls"
      "length w < 255" "length w \<le> cap" "tl t = join_labels ls \<or> tl t = join_labels ls @ [ascii_dot]"
      by (auto simp: encodes_to_def)
    moreover have "rest = l @ ascii_dot # tl t" using rest dot False by (cases t) auto
    moreover have "join_labels (l # ls) = l @ ascii_dot # join_labels ls"
      using b calculation(1,2) join_labels_Cons2 by (cases ls) (auto simp: label_ok_def)
    ultimately show ?thesis unfolding encodes_to_def using b by (intro exI [of _ "l # ls"]) auto
  qed
qed
lemma label_end_long:
  assumes "0 \<notin> set rest" and "length pre + length (takeWhile (\<lambda>c. c \<noteq> ascii_dot) rest) > 255"
    and "dns_label_end (pre @ rest) (length pre) = Some j"
  shows "j > 255"
  using assms
proof (induction rest arbitrary: pre)
  case Nil
  then show ?case by (subst (asm) dns_label_end.simps) simp
next
  case (Cons c rest)
  have c: "char_at (pre @ c # rest) (length pre) = c" by (simp add: char_at_def)
  show ?case
  proof (cases "length pre > 255 \<or> c = ascii_dot")
    case True
    with Cons.prems c show ?thesis by (subst (asm) dns_label_end.simps) auto
  next
    case False
    with Cons.prems c have "dns_label_end ((pre @ [c]) @ rest) (length (pre @ [c])) = Some j"
      by (subst (asm) dns_label_end.simps) (auto split: if_splits)
    moreover have "length (pre @ [c]) + length (takeWhile (\<lambda>c. c \<noteq> ascii_dot) rest) > 255"
      using Cons.prems False by auto
    ultimately show ?thesis using Cons.IH [of "pre @ [c]"] Cons.prems(1) by simp
  qed
qed

lemma encode_labels_reject:
  fixes rest
  defines "l \<equiv> takeWhile (\<lambda>c. c \<noteq> ascii_dot) rest"
  assumes "0 \<notin> set rest" and "length pre = length out"
    and "\<not> (label_ok l \<and> length out + 1 + length l < 255 \<and> length out + 1 + length l \<le> cap)"
  shows "dns_encode_labels (pre @ rest) cap (length pre) out = None"
proof (cases "dns_label_end (pre @ rest) (length pre)")
  case None
  then show ?thesis by (subst dns_encode_labels.simps) simp
next
  case (Some j)
  show ?thesis
  proof (cases "length pre + length l > 255")
    case True
    then have "j > 255" using label_end_long assms(2) Some unfolding l_def by blast
    with Some show ?thesis by (subst dns_encode_labels.simps) (simp add: Let_def)
  next
    case False
    then have "j = length pre + length l" "list_all dns_label_char l"
      using label_end_takeWhile [of rest pre] assms(2) Some unfolding l_def by (auto split: if_splits)
    moreover from this have "list_all dns_presentation_char l"
      unfolding l_def by (auto simp: list_all_iff presentation_char_iff dest: set_takeWhileD)
    ultimately show ?thesis
      using Some assms(3,4) by (subst dns_encode_labels.simps) (auto simp: Let_def label_ok_def)
  qed
qed

lemma encode_labels_accept:
  fixes rest
  defines "l \<equiv> takeWhile (\<lambda>c. c \<noteq> ascii_dot) rest" and "t \<equiv> dropWhile (\<lambda>c. c \<noteq> ascii_dot) rest"
  assumes "0 \<notin> set rest" and "length pre = length out"
    and "label_ok l" "length out + 1 + length l < 255" "length out + 1 + length l \<le> cap"
  shows "dns_encode_labels (pre @ rest) cap (length pre) out =
    (if t = [] \<or> tl t = [] then Some (out @ of_nat (length l) # l)
     else dns_encode_labels (pre @ rest) cap (length pre + length l + 1) (out @ of_nat (length l) # l))"
proof -
  have rest: "rest = l @ t" by (simp add: l_def t_def)
  have "list_all dns_label_char l" using assms(5) by (auto simp: label_ok_def list_all_iff presentation_char_iff)
  then have le: "dns_label_end (pre @ rest) (length pre) = Some (length pre + length l)"
    using label_end_takeWhile [of rest pre] assms(3,4,6) unfolding l_def by simp
  have nz: "0 \<notin> set t" using assms(3) rest by simp
  have "char_at (pre @ rest) (length pre + length l) = 0 \<longleftrightarrow> t = []"
    using nz by (cases t) (auto simp: char_at_def rest nth_append)
  moreover have "t \<noteq> [] \<Longrightarrow> char_at (pre @ rest) (length pre + length l + 1) = 0 \<longleftrightarrow> tl t = []"
    using nz by (cases t; cases "tl t") (auto simp: char_at_def rest nth_append)
  moreover have "take (length l) (drop (length pre) (pre @ rest)) = l" by (simp add: rest)
  ultimately show ?thesis
    using le assms(4-7) by (subst dns_encode_labels.simps) (auto simp: Let_def label_ok_def)
qed

lemma encode_labels_iff:
  assumes "0 \<notin> set rest" and "length pre = length out"
  shows "dns_encode_labels (pre @ rest) cap (length pre) out = Some w \<longleftrightarrow> encodes_to cap rest out w"
  using assms
proof (induction rest arbitrary: pre out rule: length_induct)
  case (1 rest)
  let ?l = "takeWhile (\<lambda>c. c \<noteq> ascii_dot) rest" and ?t = "dropWhile (\<lambda>c. c \<noteq> ascii_dot) rest"
  show ?case
  proof (cases "label_ok ?l \<and> length out + 1 + length ?l < 255 \<and> length out + 1 + length ?l \<le> cap")
    case False
    with encode_labels_reject [OF "1.prems" False] show ?thesis unfolding encodes_to_step [of cap rest] by auto
  next
    case True
    note eq = encode_labels_accept [OF "1.prems", of cap]
    show ?thesis
    proof (cases "?t = [] \<or> tl ?t = []")
      case stop: True
      with True eq show ?thesis unfolding encodes_to_step [of cap rest] by auto
    next
      case False
      have split: "pre @ rest = (pre @ ?l @ [hd ?t]) @ tl ?t" using False by simp
      have len: "length pre + length ?l + 1 = length (pre @ ?l @ [hd ?t])" by simp
      have "length rest = length ?l + length ?t" by (metis length_append takeWhile_dropWhile_id)
      then have "length (tl ?t) < length rest" using False by (cases ?t) auto
      moreover have "0 \<notin> set (tl ?t)" using "1.prems"(1) by (metis False list.set_sel(2) set_dropWhileD)
      ultimately have "dns_encode_labels ((pre @ ?l @ [hd ?t]) @ tl ?t) cap (length (pre @ ?l @ [hd ?t]))
          (out @ of_nat (length ?l) # ?l) = Some w \<longleftrightarrow> encodes_to cap (tl ?t) (out @ of_nat (length ?l) # ?l) w"
        by (intro "1.IH" [rule_format]) (simp_all add: "1.prems"(2))
      with True False eq show ?thesis
        unfolding encodes_to_step [of cap rest] split [symmetric] len [symmetric]
        by (simp del: dropWhile_eq_Nil_conv)
    qed
  qed
qed

lemma encode_name_spec:
  assumes "0 \<notin> set name"
  shows "dns_encode_name name cap = Some w \<longleftrightarrow>
    (\<exists>ls. ls \<noteq> [] \<and> labels_ok ls \<and> w = wire_name ls \<and> length w \<le> cap \<and>
       (name = join_labels ls \<or> name = join_labels ls @ [ascii_dot]))"
proof (cases "name = []")
  case True
  then have "name \<noteq> join_labels ls" if "ls \<noteq> []" "labels_ok ls" for ls
    using that by (cases ls) (auto simp: join_onto_concat labels_ok_def label_ok_def)
  with True show ?thesis by (auto simp: dns_encode_name_def char_at_def)
next
  case False
  then have "char_at name 0 \<noteq> 0" using assms by (cases name) (auto simp: char_at_def)
  then have enc: "dns_encode_name name cap = Some w \<longleftrightarrow>
      (\<exists>v. encodes_to cap name [] v \<and> length v < cap \<and> length v < 255 \<and> w = v @ [0])"
    using encode_labels_iff [of name "[]" "[]" cap, symmetric] assms
    by (auto simp: dns_encode_name_def split: option.splits)
  show ?thesis
  proof
    assume "dns_encode_name name cap = Some w"
    then obtain ls where "ls \<noteq> []" "list_all label_ok ls" "w = wire_labels ls @ [0]" "length w \<le> cap" "length w \<le> 255"
      "name = join_labels ls \<or> name = join_labels ls @ [ascii_dot]"
      unfolding enc encodes_to_def by auto
    then show "\<exists>ls. ls \<noteq> [] \<and> labels_ok ls \<and> w = wire_name ls \<and> length w \<le> cap \<and>
        (name = join_labels ls \<or> name = join_labels ls @ [ascii_dot])"
      by (intro exI [of _ ls]) (simp add: labels_ok_def wire_name_def)
  next
    assume "\<exists>ls. ls \<noteq> [] \<and> labels_ok ls \<and> w = wire_name ls \<and> length w \<le> cap \<and>
        (name = join_labels ls \<or> name = join_labels ls @ [ascii_dot])"
    then obtain ls where ls: "ls \<noteq> []" "labels_ok ls" "w = wire_name ls" "length w \<le> cap"
      "name = join_labels ls \<or> name = join_labels ls @ [ascii_dot]" by blast
    then have "encodes_to cap name [] (wire_labels ls)"
      unfolding encodes_to_def by (intro exI [of _ ls]) (simp add: labels_ok_def)
    with ls show "dns_encode_name name cap = Some w"
      unfolding enc by (intro exI [of _ "wire_labels ls"]) (simp add: labels_ok_def wire_name_def)
  qed
qed

lemma name_at_wire:
  assumes "list_all label_ok ls"
  shows "name_at (pre @ wire_name ls @ post) (length pre) ls 0 (length pre + length (wire_name ls))"
  using assms
proof (induction ls arbitrary: pre)
  case Nil
  then show ?case using name_root [of "length pre" "pre @ 0 # post"] by (simp add: wire_name_def nth_append)
next
  case (Cons l ls)
  let ?b = "of_nat (length l) :: u8" and ?p = "pre @ wire_name (l # ls) @ post"
  have l: "l \<noteq> []" "length l < 64" using Cons.prems by (auto simp: label_ok_def)
  then have b: "unat ?b = length l" by (simp add: unat_of_nat)
  have p: "?p = (pre @ ?b # l) @ wire_name ls @ post" by (simp add: wire_name_def)
  have i: "?p ! length pre = ?b" by (simp add: wire_name_def nth_append)
  have "name_at ?p (length pre + 1 + unat (?p ! length pre)) ls 0 (length (pre @ ?b # l) + length (wire_name ls))"
  proof -
    have "length pre + 1 + unat (?p ! length pre) = length (pre @ ?b # l)" unfolding i b by simp
    with Cons.IH [of "pre @ ?b # l"] Cons.prems p show ?thesis by simp
  qed
  then have "name_at ?p (length pre) (take (unat (?p ! length pre)) (drop (length pre + 1) ?p) # ls) 0
      (length (pre @ ?b # l) + length (wire_name ls))"
    using l i b by - (rule name_label, simp_all)
  moreover have "take (unat (?p ! length pre)) (drop (length pre + 1) ?p) = l"
    unfolding i b by (simp add: wire_name_def)
  ultimately show ?case by (simp add: wire_name_def add.assoc)
qed

lemma decode_wire_name:
  assumes "labels_ok ls"
  shows "dns_decode_name (pre @ wire_name ls @ post) (length pre) 256 =
    Some (join_labels ls, length pre + length (wire_name ls))"
  unfolding decode_name_spec using name_at_wire [of ls pre post] assms by (auto simp: labels_ok_def)

lemma joined_no_nul: "list_all label_ok ls \<Longrightarrow> 0 \<notin> set (join_labels ls)"
proof -
  assume "list_all label_ok ls"
  moreover have "\<not> dns_presentation_char 0" by (simp add: dns_presentation_char_def)
  ultimately have "\<forall>l \<in> set ls. l \<noteq> [] \<and> 0 \<notin> set l" by (auto simp: label_ok_def list_all_iff)
  then show "0 \<notin> set (join_labels ls)" by (cases ls) (auto simp: join_onto_concat)
qed

lemma strip_dot_joined:
  assumes "list_all label_ok ls" and "ls \<noteq> []"
  shows "strip_dot (join_labels ls) = join_labels ls" "strip_dot (join_labels ls @ [ascii_dot]) = join_labels ls"
proof -
  obtain l ms where ls: "ls = ms @ [l]" using assms(2) by (cases ls rule: rev_cases) auto
  have l: "l \<noteq> []" "ascii_dot \<notin> set l" using assms(1) ls label_ok_no_dot by (auto simp: label_ok_def)
  have "\<exists>xs. join_labels ls = xs @ l"
  proof (cases ms)
    case (Cons m ks)
    then have "m \<noteq> []" using assms(1) ls by (simp add: label_ok_def)
    with Cons ls show ?thesis by (auto simp: join_onto_concat)
  qed (simp add: ls)
  then have "last (join_labels ls) \<in> set l" using l(1) by (auto simp: last_append)
  with l(2) show "strip_dot (join_labels ls) = join_labels ls" by (auto simp: strip_dot_def)
  show "strip_dot (join_labels ls @ [ascii_dot]) = join_labels ls" by (simp add: strip_dot_def)
qed

text \<open>C17: Encoding is inverse to decoding. A name that is encoded and placed anywhere in a packet is
  decoded to the same name without a final dot, and the offset returned is the end of its encoding.
  A name that was decoded, through whatever pointers, can be encoded again and decodes to itself.\<close>

theorem encode_decode_name:
  "(0 \<notin> set name \<and> dns_encode_name name cap = Some w \<longrightarrow> length w \<le> min cap 255 \<and>
     dns_decode_name (pre @ w @ post) (length pre) 256 = Some (strip_dot name, length pre + length w)) \<and>
   (dns_decode_name p i 256 = Some (decoded, n) \<and> decoded \<noteq> [] \<longrightarrow>
     (\<exists>w. dns_encode_name decoded 255 = Some w \<and> dns_decode_name w 0 256 = Some (decoded, length w)))"
proof (intro conjI impI)
  assume a: "0 \<notin> set name \<and> dns_encode_name name cap = Some w"
  then obtain ls where "ls \<noteq> []" and ok: "labels_ok ls" and w: "w = wire_name ls" "length w \<le> cap"
    and "name = join_labels ls \<or> name = join_labels ls @ [ascii_dot]" using encode_name_spec by metis
  then have "strip_dot name = join_labels ls" using strip_dot_joined [of ls] by (auto simp: labels_ok_def)
  with decode_wire_name [OF ok] w
  show "dns_decode_name (pre @ w @ post) (length pre) 256 = Some (strip_dot name, length pre + length w)" by simp
  show "length w \<le> min cap 255" using ok w by (simp add: labels_ok_def)
next
  assume a: "dns_decode_name p i 256 = Some (decoded, n) \<and> decoded \<noteq> []"
  then obtain ls where ok: "labels_ok ls" and j: "decoded = join_labels ls" unfolding decode_name_spec by blast
  have ne: "ls \<noteq> []" using a j by auto
  have nz: "0 \<notin> set decoded" using ok j joined_no_nul by (simp add: labels_ok_def)
  have "dns_encode_name decoded 255 = Some (wire_name ls)"
    unfolding encode_name_spec [OF nz] using ok j ne unfolding labels_ok_def by blast
  moreover have "dns_decode_name (wire_name ls) 0 256 = Some (decoded, length (wire_name ls))"
    using decode_wire_name [OF ok, of "[]" "[]"] j by simp
  ultimately show "\<exists>w. dns_encode_name decoded 255 = Some w \<and> dns_decode_name w 0 256 = Some (decoded, length w)"
    by blast
qed

theorem encode_decode_name_witness:
  "dns_decode_name ([7] @ [1, 0x61, 1, 0x62, 0] @ [9]) 1 256 = Some ([0x61, 0x2e, 0x62], 6) \<and>
   (\<exists>w. dns_encode_name [0x61, 0x2e, 0x62] 255 = Some w \<and>
      dns_decode_name w 0 256 = Some ([0x61, 0x2e, 0x62], length w))"
proof -
  have e: "0 \<notin> set [0x61, 0x2e, 0x62, 0x2e :: u8] \<and>
      dns_encode_name [0x61, 0x2e, 0x62, 0x2e] 255 = Some [1, 0x61, 1, 0x62, 0]" by code_simp
  have d: "dns_decode_name [1, 0x62, 0, 1, 0x61, 0xc0, 0] 3 256 = Some ([0x61, 0x2e, 0x62], 7) \<and>
      [0x61, 0x2e, 0x62 :: u8] \<noteq> []" by code_simp
  show ?thesis
    using encode_decode_name [of "[0x61, 0x2e, 0x62, 0x2e]" 255 "[1, 0x61, 1, 0x62, 0]" "[7]" "[9]"
        "[1, 0x62, 0, 1, 0x61, 0xc0, 0]" 3 "[0x61, 0x2e, 0x62]" 7] e d
    by (simp add: strip_dot_def)
qed
section \<open>UTF-8\<close>

text \<open>The encoding of a Unicode scalar value.\<close>

definition scalar_value :: "nat \<Rightarrow> bool" where
  "scalar_value v = (v < 0xd800 \<or> (0xdfff < v \<and> v \<le> 0x10ffff))"

definition utf8_encode :: "nat \<Rightarrow> bytes" where
  "utf8_encode v =
     (if v < 0x80 then [of_nat v]
      else if v < 0x800 then [of_nat (0xc0 + v div 64), of_nat (0x80 + v mod 64)]
      else if v < 0x10000
      then [of_nat (0xe0 + v div 4096), of_nat (0x80 + v div 64 mod 64), of_nat (0x80 + v mod 64)]
      else [of_nat (0xf0 + v div 262144), of_nat (0x80 + v div 4096 mod 64),
            of_nat (0x80 + v div 64 mod 64), of_nat (0x80 + v mod 64)])"

lemma byte_high_bits: "c AND 0xc0 = 0x80 \<longleftrightarrow> unat c div 64 = 2" for c :: u8
proof -
  have "(0xc0 :: u8) = NOT (mask 6)" by (simp add: mask_numeral)
  then have "c AND 0xc0 = push_bit 6 (drop_bit 6 c)" by (auto simp: bit_eq_iff bit_simps)
  moreover have "unat (push_bit 6 (drop_bit 6 c)) = 64 * (unat c div 64)"
    using unsigned_less [of c, where 'a = nat] by (simp add: push_bit_eq_mult drop_bit_eq_div unat_word_ariths unat_div)
  ultimately show ?thesis by (simp add: word_unat_eq_iff)
qed

lemma unat_and_mask:
  "unat (c AND 0x3f) = unat c mod 64" "unat (c AND 0x1f) = unat c mod 32"
  "unat (c AND 0x0f) = unat c mod 16" "unat (c AND 0x07) = unat c mod 8" for c :: u8
proof -
  have "unat (c AND mask n) = unat c mod 2 ^ n" for n
    by (metis take_bit_eq_mask unsigned_take_bit_eq take_bit_eq_mod)
  from this [of 6] this [of 5] this [of 4] this [of 3] show
    "unat (c AND 0x3f) = unat c mod 64" "unat (c AND 0x1f) = unat c mod 32"
    "unat (c AND 0x0f) = unat c mod 16" "unat (c AND 0x07) = unat c mod 8"
    by (simp_all add: mask_numeral)
qed

text \<open>The check over natural numbers.\<close>

fun continue_nat :: "nat \<Rightarrow> nat \<Rightarrow> bytes \<Rightarrow> nat option" where
  "continue_nat 0 v text = Some v"
| "continue_nat (Suc n) v [] = None"
| "continue_nat (Suc n) v (c # text) =
     (if unat c div 64 = 2 then continue_nat n (64 * v + unat c mod 64) text else None)"

lemma continue_bits:
  fixes c :: u8
  assumes "unat w < 2 ^ 26"
  shows "unat (push_bit 6 w OR ucast (c AND 0x3f) :: u32) = 64 * unat w + unat c mod 64"
proof -
  let ?c = "ucast (c AND 0x3f) :: u32"
  have u: "unat ?c = unat c mod 64" unfolding unat_and_mask(1) [of c, symmetric] by (rule unat_ucast_widen) simp
  then have "take_bit 6 ?c = ?c" by (simp add: word_unat_eq_iff unat_mod take_bit_eq_mod)
  then have "push_bit 6 w OR ?c = push_bit 6 w + ?c"
    by (intro disjunctive_add [symmetric]) (metis bit_push_bit_iff bit_take_bit_iff not_le)
  moreover have "64 * unat w + unat c mod 64 < 2 ^ 32" using assms mod_less_divisor [of 64 "unat c"] by simp
  ultimately show ?thesis using assms u by (simp add: push_bit_eq_mult unat_word_ariths mult.commute)
qed

lemma continue_unat:
  assumes "n \<le> 5" and "unat w < 2 ^ (32 - 6 * n)"
  shows "map_option unat (dns_utf8_continue n w bs) = continue_nat n (unat w) bs"
  using assms
proof (induction n arbitrary: w bs)
  case (Suc n)
  have "(2 :: nat) ^ (32 - 6 * Suc n) \<le> 2 ^ 26" by (rule power_increasing) simp_all
  then have w: "unat w < 2 ^ 26" using Suc.prems(2) by linarith
  have "32 - 6 * n = 6 + (32 - 6 * Suc n)" using Suc.prems(1) by simp
  then have p: "(2 :: nat) ^ (32 - 6 * n) = 64 * 2 ^ (32 - 6 * Suc n)" by (simp only: power_add) simp
  show ?case
  proof (cases bs)
    case (Cons c rest)
    have "64 * unat w + unat c mod 64 < 2 ^ (32 - 6 * n)"
      using Suc.prems(2) mod_less_divisor [of 64 "unat c"] unfolding p by linarith
    with Cons w Suc show ?thesis by (simp add: byte_high_bits continue_bits)
  qed simp
qed simp

definition lead_nat :: "nat \<Rightarrow> (nat \<times> nat \<times> nat) option" where
  "lead_nat u = (if 0xc2 \<le> u \<and> u \<le> 0xdf then Some (u mod 32, 1, 0x80)
     else if 0xe0 \<le> u \<and> u \<le> 0xef then Some (u mod 16, 2, 0x800)
     else if 0xf0 \<le> u \<and> u \<le> 0xf4 then Some (u mod 8, 3, 0x10000) else None)"

lemma lead_unat:
  "lead_nat (unat f) = map_option (\<lambda>(w, n, m). (unat w, n, unat m)) (dns_utf8_lead f)"
proof -
  have "unat (ucast x :: u32) = unat x" for x :: u8 by (rule unat_ucast_widen) simp
  then show ?thesis by (simp add: lead_nat_def dns_utf8_lead_def word_le_nat_alt unat_and_mask)
qed

lemma utf8_valid_nat:
  "dns_utf8_valid (f # text) =
    (if unat f < 128 then dns_utf8_valid text
     else case lead_nat (unat f) of None \<Rightarrow> False
       | Some (v, n, m) \<Rightarrow>
           (case continue_nat n v text of None \<Rightarrow> False
            | Some u \<Rightarrow> n \<le> length text \<and> m \<le> u \<and> scalar_value u \<and> dns_utf8_valid (drop n text)))"
proof (cases "dns_utf8_lead f")
  case None
  then show ?thesis by (simp add: lead_unat word_less_nat_alt)
next
  case (Some r)
  obtain w n m where r: "r = (w, n, m)" by (cases r)
  have "n \<le> 3" "unat w < 2 ^ 5"
    using Some lead_unat [of f] unfolding r by (auto simp: lead_nat_def split: if_splits)
  moreover from this have "(2 :: nat) ^ 5 \<le> 2 ^ (32 - 6 * n)" by (intro power_increasing) auto
  ultimately have c: "continue_nat n (unat w) text = map_option unat (dns_utf8_continue n w text)"
    by (subst continue_unat) auto
  show ?thesis
    unfolding lead_unat Some r using c
    by (auto simp: Some r word_less_nat_alt word_le_nat_alt scalar_value_def not_le not_less split: option.splits)
qed
declare dns_utf8_valid.simps(2) [simp del]

lemma unat_byte: "n < 256 \<Longrightarrow> unat (of_nat n :: u8) = n"
  by (simp add: unat_of_nat)

lemma digits: "c < 64 \<Longrightarrow> (64 * a + c) div 64 = a" "c < 64 \<Longrightarrow> (64 * a + c) mod 64 = c" for a c :: nat
  by (simp_all add: div_nat_eqI)

lemma continuation_byte:
  assumes "b < 64"
  shows "unat (of_nat (0x80 + b) :: u8) div 64 = 2" "unat (of_nat (0x80 + b) :: u8) mod 64 = b"
proof -
  have "unat (of_nat (0x80 + b) :: u8) = 64 * 2 + b" using assms by (simp add: unat_byte del: of_nat_add)
  with digits [OF assms, of 2] show "unat (of_nat (0x80 + b) :: u8) div 64 = 2"
    "unat (of_nat (0x80 + b) :: u8) mod 64 = b" by (simp_all only:)
qed

lemma div_64_64: "v div 4096 = v div 64 div 64" "v div 262144 = v div 64 div 64 div 64" for v :: nat
  by (simp_all add: div_mult2_eq [symmetric])

lemma utf8_encode_digits:
  assumes "b < 64" "c < 64" "d < 64"
  shows "0x80 \<le> 64 * w + b \<Longrightarrow> w < 32 \<Longrightarrow>
      utf8_encode (64 * w + b) = [of_nat (0xc0 + w), of_nat (0x80 + b)]"
    "0x800 \<le> 64 * (64 * w + b) + c \<Longrightarrow> w < 16 \<Longrightarrow>
      utf8_encode (64 * (64 * w + b) + c) = [of_nat (0xe0 + w), of_nat (0x80 + b), of_nat (0x80 + c)]"
    "0x10000 \<le> 64 * (64 * (64 * w + b) + c) + d \<Longrightarrow>
      utf8_encode (64 * (64 * (64 * w + b) + c) + d) =
        [of_nat (0xf0 + w), of_nat (0x80 + b), of_nat (0x80 + c), of_nat (0x80 + d)]"
proof -
  have "64 * w + b < 0x800" if "w < 32" using that assms by linarith
  then show "utf8_encode (64 * w + b) = [of_nat (0xc0 + w), of_nat (0x80 + b)]" if "0x80 \<le> 64 * w + b" "w < 32"
    using that assms unfolding utf8_encode_def by (simp only: digits) simp
  have "64 * (64 * w + b) + c < 0x10000" if "w < 16" using that assms by simp
  then show "utf8_encode (64 * (64 * w + b) + c) = [of_nat (0xe0 + w), of_nat (0x80 + b), of_nat (0x80 + c)]"
    if "0x800 \<le> 64 * (64 * w + b) + c" "w < 16"
    using that assms unfolding utf8_encode_def div_64_64 by (simp only: digits) simp
  show "utf8_encode (64 * (64 * (64 * w + b) + c) + d) =
        [of_nat (0xf0 + w), of_nat (0x80 + b), of_nat (0x80 + c), of_nat (0x80 + d)]"
    if "0x10000 \<le> 64 * (64 * (64 * w + b) + c) + d"
    using that assms unfolding utf8_encode_def div_64_64 by (simp only: digits) simp
qed

text \<open>A scalar value outside ASCII has two, three or four digits to the base 64, of which the first is
  small.\<close>

lemma scalar_digits:
  assumes "scalar_value v" and "0x80 \<le> v"
  obtains (two) w b where "v = 64 * w + b" "b < 64" "2 \<le> w" "w < 32"
  | (three) w b c where "v = 64 * (64 * w + b) + c" "b < 64" "c < 64" "w < 16" "0x800 \<le> v"
  | (four) w b c d where "v = 64 * (64 * (64 * w + b) + c) + d" "b < 64" "c < 64" "d < 64" "w < 5" "0x10000 \<le> v"
proof -
  have v: "v \<le> 0x10ffff" using assms(1) by (auto simp: scalar_value_def)
  consider "v < 0x800" | "0x800 \<le> v" "v < 0x10000" | "0x10000 \<le> v" by linarith
  then show thesis
  proof cases
    case 1
    then show ?thesis using assms(2) by (intro two [of "v div 64" "v mod 64"]) auto
  next
    case 2
    then show ?thesis by (intro three [of "v div 64 div 64" "v div 64 mod 64" "v mod 64"]) auto
  next
    case 3
    then show ?thesis
      using v by (intro four [of "v div 64 div 64 div 64" "v div 64 div 64 mod 64" "v div 64 mod 64" "v mod 64"]) auto
  qed
qed

lemma lead_byte:
  "2 \<le> w \<Longrightarrow> w < 32 \<Longrightarrow> lead_nat (unat (of_nat (0xc0 + w) :: u8)) = Some (w, 1, 0x80)"
  "w < 16 \<Longrightarrow> lead_nat (unat (of_nat (0xe0 + w) :: u8)) = Some (w, 2, 0x800)"
  "w < 5 \<Longrightarrow> lead_nat (unat (of_nat (0xf0 + w) :: u8)) = Some (w, 3, 0x10000)"
proof -
  have m: "(b + w) mod k = w" if "w < k" "k dvd b" for b k using that by (intro mod_nat_eqI) auto
  show "2 \<le> w \<Longrightarrow> w < 32 \<Longrightarrow> lead_nat (unat (of_nat (0xc0 + w) :: u8)) = Some (w, 1, 0x80)"
    "w < 16 \<Longrightarrow> lead_nat (unat (of_nat (0xe0 + w) :: u8)) = Some (w, 2, 0x800)"
    "w < 5 \<Longrightarrow> lead_nat (unat (of_nat (0xf0 + w) :: u8)) = Some (w, 3, 0x10000)"
    using m [of 32 "0xc0"] m [of 16 "0xe0"] m [of 8 "0xf0"]
    by (simp_all add: unat_byte lead_nat_def del: of_nat_add)
qed

lemma high_byte: "128 \<le> n \<Longrightarrow> n < 256 \<Longrightarrow> \<not> unat (of_nat n :: u8) < 128"
  by (simp add: unat_byte)

lemma continue_more:
  "continue_nat 2 w (b # c # t) = (if unat b div 64 = 2 \<and> unat c div 64 = 2
     then Some (64 * (64 * w + unat b mod 64) + unat c mod 64) else None)"
  "continue_nat 3 w (b # c # d # t) = (if unat b div 64 = 2 \<and> unat c div 64 = 2 \<and> unat d div 64 = 2
     then Some (64 * (64 * (64 * w + unat b mod 64) + unat c mod 64) + unat d mod 64) else None)"
  by (simp_all add: numeral_2_eq_2 numeral_3_eq_3)

lemma utf8_encode_valid:
  assumes "scalar_value v"
  shows "dns_utf8_valid (utf8_encode v @ rest) = dns_utf8_valid rest"
proof (cases "v < 0x80")
  case True
  then show ?thesis by (simp add: utf8_encode_def utf8_valid_nat unat_byte)
next
  case False
  then have "0x80 \<le> v" by simp
  with assms show ?thesis
  proof (cases rule: scalar_digits)
    case (two w b)
    then show ?thesis
      using assms \<open>0x80 \<le> v\<close> lead_byte(1) [of w] continuation_byte [of b] utf8_encode_digits(1) [of b 0 0 w] high_byte [of "0xc0 + w"]
      by (simp add: utf8_valid_nat del: of_nat_add)
  next
    case (three w b c)
    then show ?thesis
      using assms lead_byte(2) [of w] continuation_byte [of b] continuation_byte [of c]
        utf8_encode_digits(2) [of b c 0 w] high_byte [of "0xe0 + w"]
      by (simp add: utf8_valid_nat continue_more del: of_nat_add)
  next
    case (four w b c d)
    then show ?thesis
      using assms lead_byte(3) [of w] continuation_byte [of b] continuation_byte [of c] continuation_byte [of d]
        utf8_encode_digits(3) [of b c d w] high_byte [of "0xf0 + w"]
      by (simp add: utf8_valid_nat continue_more del: of_nat_add)
  qed
qed

lemma continuation_of: "unat c div 64 = 2 \<Longrightarrow> of_nat (0x80 + unat c mod 64) = c" for c :: u8
proof -
  assume "unat c div 64 = 2"
  then have "unat c = 0x80 + unat c mod 64" using div_mult_mod_eq [of "unat c" 64] by simp
  then have "of_nat (0x80 + unat c mod 64) = (of_nat (unat c) :: u8)" by (rule arg_cong [OF sym])
  then show ?thesis by simp
qed

lemma lead_of: "of_nat (k + a) = f" if "unat f = k + a" for f :: u8
  unfolding that [symmetric] by simp

lemma continue_nat_some:
  assumes "continue_nat n v bs = Some u" and "n \<le> length bs"
  shows "n = 1 \<Longrightarrow> \<exists>c rest. bs = c # rest \<and> unat c div 64 = 2 \<and> u = 64 * v + unat c mod 64"
    "n = 2 \<Longrightarrow> \<exists>b c rest. bs = b # c # rest \<and> unat b div 64 = 2 \<and> unat c div 64 = 2 \<and>
       u = 64 * (64 * v + unat b mod 64) + unat c mod 64"
    "n = 3 \<Longrightarrow> \<exists>a b c rest. bs = a # b # c # rest \<and> unat a div 64 = 2 \<and> unat b div 64 = 2 \<and> unat c div 64 = 2 \<and>
       u = 64 * (64 * (64 * v + unat a mod 64) + unat b mod 64) + unat c mod 64"
  using assms
  by (auto simp: numeral_2_eq_2 numeral_3_eq_3 Suc_le_length_iff split: if_splits)

lemma lead_nat_some:
  assumes "lead_nat u = Some (w, n, m)"
  shows "u = 0xc0 + w \<and> w < 32 \<and> n = 1 \<and> m = 0x80 \<or> u = 0xe0 + w \<and> w < 16 \<and> n = 2 \<and> m = 0x800 \<or>
    u = 0xf0 + w \<and> w < 5 \<and> n = 3 \<and> m = 0x10000"
proof -
  have "u mod k = u - b" if "b \<le> u" "u < b + k" "k dvd b" for b k
    using that by (intro mod_nat_eqI) auto
  from this [of "0xc0" 32] this [of "0xe0" 16] this [of "0xf0" 8] assms show ?thesis
    by (auto simp: lead_nat_def split: if_splits)
qed

lemma utf8_first:
  assumes "dns_utf8_valid (f # bs)"
  shows "\<exists>v rest. scalar_value v \<and> f # bs = utf8_encode v @ rest \<and> dns_utf8_valid rest"
proof (cases "unat f < 128")
  case True
  then have "f # bs = utf8_encode (unat f) @ bs" by (simp add: utf8_encode_def)
  moreover have "dns_utf8_valid bs" "scalar_value (unat f)"
    using True assms by (simp_all add: utf8_valid_nat scalar_value_def)
  ultimately show ?thesis by blast
next
  case False
  then obtain w n m v where l: "lead_nat (unat f) = Some (w, n, m)" and c: "continue_nat n w bs = Some v" "n \<le> length bs"
    and v: "m \<le> v" "scalar_value v" "dns_utf8_valid (drop n bs)"
    using assms by (auto simp: utf8_valid_nat split: option.splits)
  have "f # take n bs = utf8_encode v"
  proof -
    consider (two) "unat f = 0xc0 + w" "w < 32" "n = 1" "m = 0x80"
      | (three) "unat f = 0xe0 + w" "w < 16" "n = 2" "m = 0x800"
      | (four) "unat f = 0xf0 + w" "w < 5" "n = 3" "m = 0x10000" using lead_nat_some [OF l] by blast
    then show ?thesis
    proof cases
      case two
      then obtain c rest where "bs = c # rest" "unat c div 64 = 2" "v = 64 * w + unat c mod 64"
        using continue_nat_some(1) [OF c] by auto
      with two v show ?thesis
        using utf8_encode_digits(1) [of "unat c mod 64" 0 0 w] continuation_of [of c] lead_of [OF two(1)]
        by (simp del: of_nat_add)
    next
      case three
      then obtain b c rest where "bs = b # c # rest" "unat b div 64 = 2" "unat c div 64 = 2"
        "v = 64 * (64 * w + unat b mod 64) + unat c mod 64"
        using continue_nat_some(2) [OF c] by auto
      with three v show ?thesis
        using utf8_encode_digits(2) [of "unat b mod 64" "unat c mod 64" 0 w]
          continuation_of [of b] continuation_of [of c] lead_of [OF three(1)]
        by (simp del: of_nat_add)
    next
      case four
      then obtain b c d rest where q: "bs = b # c # d # rest" "unat b div 64 = 2" "unat c div 64 = 2" "unat d div 64 = 2"
        "v = 64 * (64 * (64 * w + unat b mod 64) + unat c mod 64) + unat d mod 64"
        using continue_nat_some(3) [OF c] by auto
      have "utf8_encode v = [of_nat (0xf0 + w), of_nat (0x80 + unat b mod 64), of_nat (0x80 + unat c mod 64),
          of_nat (0x80 + unat d mod 64)]"
        using v(1) four(4) unfolding q(5) by (intro utf8_encode_digits(3)) simp_all
      then show ?thesis unfolding q(1) four(3) continuation_of [OF q(2)] continuation_of [OF q(3)]
          continuation_of [OF q(4)] lead_of [OF four(1)] by simp
    qed
  qed
  then have "f # bs = utf8_encode v @ drop n bs" by (metis append_Cons append_take_drop_id)
  with v show ?thesis by blast
qed

text \<open>C19: The check accepts exactly the concatenations of encodings of Unicode scalar values, so overlong
  forms, surrogates, values above \<open>0x10ffff\<close> and truncated sequences are refused.\<close>

theorem utf8_valid_iff:
  "dns_utf8_valid bs \<longleftrightarrow> (\<exists>vs. list_all scalar_value vs \<and> bs = concat (map utf8_encode vs))"
proof
  show "\<exists>vs. list_all scalar_value vs \<and> bs = concat (map utf8_encode vs)" if "dns_utf8_valid bs"
    using that
  proof (induction bs rule: length_induct)
    case (1 bs)
    show ?case
    proof (cases bs)
      case (Cons f fs)
      obtain v rest where v: "scalar_value v" "bs = utf8_encode v @ rest" "dns_utf8_valid rest"
        using utf8_first "1.prems" Cons by blast
      have "utf8_encode v \<noteq> []" by (simp add: utf8_encode_def)
      then have "length rest < length bs" using v(2) by simp
      then obtain vs where "list_all scalar_value vs" "rest = concat (map utf8_encode vs)"
        using "1.IH" v(3) by blast
      with v show ?thesis by (intro exI [of _ "v # vs"]) simp
    qed (intro exI [of _ "[]"], simp)
  qed
  show "dns_utf8_valid bs" if "\<exists>vs. list_all scalar_value vs \<and> bs = concat (map utf8_encode vs)"
  proof -
    have "dns_utf8_valid (concat (map utf8_encode vs))" if "list_all scalar_value vs" for vs
      using that by (induction vs) (auto simp: utf8_encode_valid)
    with that show ?thesis by blast
  qed
qed

end
