(* ===== verification/Dns_Response_Spec.thy ===== *)
theory Dns_Response_Spec
  imports Dns_Wire_Spec
begin

text \<open>
  The response parser. The answer section is a list of records, the parser follows the aliases of the
  query name through it, and what it publishes are exactly the records of the last name of that
  path. A response that is not accepted leaves no trace, and the chain of names that is kept across
  responses never holds a name twice.
\<close>

section \<open>The answer section as a list of records\<close>

fun dns_records :: "bytes \<Rightarrow> nat \<Rightarrow> nat \<Rightarrow> (dns_record list \<times> nat) option" where
  "dns_records p 0 i = Some ([], i)"
| "dns_records p (Suc n) i =
     (case dns_read_record p i of
        None \<Rightarrow> None
      | Some rr \<Rightarrow> map_option (\<lambda>(rrs, e). (rr # rrs, e)) (dns_records p n (rr_data_end rr)))"

fun scan_records ::
    "bytes \<Rightarrow> u16 \<Rightarrow> cstring \<Rightarrow> u32 \<Rightarrow> dns_record list \<Rightarrow> dns_scan \<Rightarrow> dns_scan option" where
  "scan_records p ty name ttl [] scan = Some scan"
| "scan_records p ty name ttl (rr # rrs) scan =
     Option.bind (dns_scan_record p ty name ttl rr scan) (scan_records p ty name ttl rrs)"

lemma scan_answers_records:
  "dns_scan_answers p e ty name ttl n i scan = Some (scan', i') \<longleftrightarrow>
     (\<exists>rrs. dns_records (take e p) n i = Some (rrs, i') \<and> scan_records p ty name ttl rrs scan = Some scan')"
proof (induction n arbitrary: i scan)
  case (Suc n)
  show ?case
    by (cases "dns_read_record (take e p) i")
      (auto simp: Suc bind_eq_Some_conv split: option.splits)
qed auto

text \<open>The records of a type that belong to a name.\<close>

definition owned :: "cstring \<Rightarrow> u16 \<Rightarrow> dns_record list \<Rightarrow> dns_record list" where
  "owned name ty rrs = filter (\<lambda>rr. dns_names_equal (rr_name rr) name \<and> rr_type rr = ty) rrs"

lemma owned_simps [simp]:
  "owned name ty [] = []"
  "owned name ty (rr # rrs) =
     (if dns_names_equal (rr_name rr) name \<and> rr_type rr = ty then rr # owned name ty rrs else owned name ty rrs)"
  by (simp_all add: owned_def)

text \<open>What a matching record of the wanted type does to the scan.\<close>

definition take_record :: "bytes \<Rightarrow> u16 \<Rightarrow> u32 \<Rightarrow> dns_record \<Rightarrow> dns_scan \<Rightarrow> dns_scan option" where
  "take_record p ty ttl rr scan =
     Option.bind (dns_scan_data p ty rr (scan\<lparr>sc_data_seen := True\<rparr>))
       (\<lambda>(scan, name). dns_publish_data ty (if rr_ttl rr < ttl then rr_ttl rr else ttl) name scan)"

fun take_records :: "bytes \<Rightarrow> u16 \<Rightarrow> u32 \<Rightarrow> dns_record list \<Rightarrow> dns_scan \<Rightarrow> dns_scan option" where
  "take_records p ty ttl [] scan = Some scan"
| "take_records p ty ttl (rr # rrs) scan =
     Option.bind (take_record p ty ttl rr scan) (take_records p ty ttl rrs)"

lemma store_address_flags:
  "dns_store_address k p rr scan = Some scan' \<Longrightarrow>
     sc_cname_seen scan' = sc_cname_seen scan \<and> sc_data_seen scan' = sc_data_seen scan"
  by (auto simp: dns_store_address_def Let_def split: if_splits)

lemma scan_data_flags:
  "dns_scan_data p ty rr scan = Some (scan', name) \<Longrightarrow>
     sc_cname_seen scan' = sc_cname_seen scan \<and> sc_data_seen scan' = sc_data_seen scan"
  by (auto simp: dns_scan_data_def dest: store_address_flags split: if_splits option.splits)

lemma publish_flags:
  "dns_publish_data ty ttl name scan = Some scan' \<Longrightarrow>
     sc_cname_seen scan' = sc_cname_seen scan \<and> sc_data_seen scan' = sc_data_seen scan"
  by (auto simp: dns_publish_data_def Let_def split: if_splits)

lemma take_record_flags:
  "take_record p ty ttl rr scan = Some scan' \<Longrightarrow> sc_cname_seen scan' = sc_cname_seen scan \<and> sc_data_seen scan'"
  by (auto simp: take_record_def bind_eq_Some_conv dest!: scan_data_flags publish_flags)

lemma scan_record_cases:
  assumes "dns_scan_record p ty name ttl rr scan = Some scan'"
  obtains (other) "\<not> (dns_names_equal (rr_name rr) name \<and> (rr_type rr = 5 \<or> rr_type rr = ty))" "scan' = scan"
  | (cname) "dns_names_equal (rr_name rr) name" "rr_type rr = 5" "rr_class rr = 1" "dns_scan_cname p rr scan = Some scan'"
  | (data) "dns_names_equal (rr_name rr) name" "rr_type rr = ty" "rr_type rr \<noteq> 5" "rr_class rr = 1"
      "\<not> sc_cname_seen scan" "take_record p ty ttl rr scan = Some scan'"
  using assms
  by (auto simp: dns_scan_record_def take_record_def bind_eq_Some_conv split: if_splits option.splits)

lemma scan_cname_some:
  assumes "dns_scan_cname p rr scan = Some scan'"
  shows "\<not> sc_cname_seen scan \<and> \<not> sc_data_seen scan \<and> sc_cname_seen scan' \<and>
    (\<exists>target. dns_decode p (rr_data_position rr) = Some (target, rr_data_end rr) \<and> char_at target 0 \<noteq> 0 \<and>
       dns_copy_name 256 target = Some (sc_cname_target scan') \<and>
       scan' = scan\<lparr>sc_cname_target := sc_cname_target scan', sc_cname_seen := True, sc_cname_ttl := rr_ttl rr\<rparr>)"
  using assms by (auto simp: dns_scan_cname_def split: if_splits option.splits)
lemma copy_name_iff: "dns_copy_name cap s = (if length s < cap then Some s else None)"
  by (induction cap s rule: dns_copy_name.induct) auto

text \<open>A scan that ends without an alias took the records of the wanted type, in order.\<close>

lemma scan_without_cname:
  assumes "scan_records p ty name ttl rrs scan = Some scan'" and "\<not> sc_cname_seen scan'"
  shows "\<not> sc_cname_seen scan \<and> owned name 5 rrs = [] \<and> (\<forall>rr \<in> set (owned name ty rrs). rr_class rr = 1) \<and>
    take_records p ty ttl (owned name ty rrs) scan = Some scan'"
  using assms
proof (induction rrs arbitrary: scan)
  case (Cons rr rrs)
  obtain mid where m: "dns_scan_record p ty name ttl rr scan = Some mid"
    and rest: "scan_records p ty name ttl rrs mid = Some scan'"
    using Cons.prems(1) by (auto simp: bind_eq_Some_conv)
  note IH = Cons.IH [OF rest Cons.prems(2)]
  from m show ?case
  proof (cases rule: scan_record_cases)
    case other
    with IH show ?thesis by auto
  next
    case cname
    with IH scan_cname_some show ?thesis by blast
  next
    case data
    with IH take_record_flags show ?thesis by auto
  qed
qed simp

text \<open>A scan that saw an alias saw one alias and no record of the wanted type.\<close>

lemma scan_after_cname:
  assumes "scan_records p ty name ttl rrs scan = Some scan'" and "sc_cname_seen scan"
  shows "owned name 5 rrs = [] \<and> owned name ty rrs = [] \<and> scan' = scan"
  using assms
proof (induction rrs)
  case (Cons rr rrs)
  obtain mid where m: "dns_scan_record p ty name ttl rr scan = Some mid"
    and rest: "scan_records p ty name ttl rrs mid = Some scan'"
    using Cons.prems(1) by (auto simp: bind_eq_Some_conv)
  from m show ?case
  proof (cases rule: scan_record_cases)
    case other
    with Cons rest show ?thesis by auto
  next
    case cname
    with Cons.prems(2) scan_cname_some show ?thesis by blast
  next
    case data
    with Cons.prems(2) show ?thesis by simp
  qed
qed simp

lemma scan_data_stays:
  assumes "scan_records p ty name ttl rrs scan = Some scan'" and "sc_data_seen scan" and "\<not> sc_cname_seen scan"
  shows "\<not> sc_cname_seen scan'"
  using assms
proof (induction rrs arbitrary: scan)
  case (Cons rr rrs)
  obtain mid where m: "dns_scan_record p ty name ttl rr scan = Some mid"
    and rest: "scan_records p ty name ttl rrs mid = Some scan'"
    using Cons.prems(1) by (auto simp: bind_eq_Some_conv)
  from m have "sc_data_seen mid \<and> \<not> sc_cname_seen mid"
    using Cons.prems(2,3) scan_cname_some take_record_flags by (cases rule: scan_record_cases) blast+
  with Cons.IH [OF rest] show ?case by simp
qed simp

definition alias_of :: "bytes \<Rightarrow> u16 \<Rightarrow> dns_record list \<Rightarrow> cstring \<Rightarrow> cstring \<Rightarrow> u32 \<Rightarrow> bool" where
  "alias_of p ty rrs name target ttl =
    (\<exists>rr. owned name 5 rrs = [rr] \<and> owned name ty rrs = [] \<and> rr_class rr = 1 \<and> rr_ttl rr = ttl \<and>
       dns_decode p (rr_data_position rr) = Some (target, rr_data_end rr) \<and> target \<noteq> [])"

lemma decoded_name_ok:
  assumes "dns_decode p i = Some (name, n)"
  shows "0 \<notin> set name \<and> length name < 255 \<and> (char_at name 0 = 0 \<longleftrightarrow> name = [])"
proof -
  obtain ls where ls: "labels_ok ls" "name = join_labels ls"
    using assms by (auto simp: decode_name_spec)
  then have nz: "0 \<notin> set name" using joined_no_nul by (simp add: labels_ok_def)
  moreover have "length name < 255" using ls length_join_labels [of ls] by (auto simp: labels_ok_def)
  moreover have "char_at name 0 = 0 \<longleftrightarrow> name = []" using nz by (cases name) (auto simp: char_at_def)
  ultimately show ?thesis by simp
qed

lemma scan_with_cname:
  assumes "scan_records p ty name ttl rrs scan = Some scan'" and "sc_cname_seen scan'"
    and "\<not> sc_cname_seen scan" and "\<not> sc_data_seen scan" and "ty \<noteq> 5"
  shows "alias_of p ty rrs name (sc_cname_target scan') (sc_cname_ttl scan') \<and>
    sc_answer_set scan' = sc_answer_set scan \<and> sc_result_found scan' = sc_result_found scan \<and> \<not> sc_data_seen scan'"
  using assms
proof (induction rrs)
  case (Cons rr rrs)
  obtain mid where m: "dns_scan_record p ty name ttl rr scan = Some mid"
    and rest: "scan_records p ty name ttl rrs mid = Some scan'"
    using Cons.prems(1) by (auto simp: bind_eq_Some_conv)
  from m show ?case
  proof (cases rule: scan_record_cases)
    case other
    with Cons rest show ?thesis by (auto simp: alias_of_def)
  next
    case cname
    note s = scan_cname_some [OF cname(4)]
    then obtain target where t: "dns_decode p (rr_data_position rr) = Some (target, rr_data_end rr)"
      "char_at target 0 \<noteq> 0" "dns_copy_name 256 target = Some (sc_cname_target mid)"
      "mid = scan\<lparr>sc_cname_target := sc_cname_target mid, sc_cname_seen := True, sc_cname_ttl := rr_ttl rr\<rparr>" by blast
    have a: "owned name 5 rrs = []" "owned name ty rrs = []" "scan' = mid" using scan_after_cname [OF rest] s by auto
    have "sc_cname_target mid = target" "target \<noteq> []"
      using t(2,3) decoded_name_ok [OF t(1)] by (auto simp: copy_name_iff split: if_splits)
    moreover have "sc_cname_ttl mid = rr_ttl rr" "sc_answer_set mid = sc_answer_set scan"
      "sc_result_found mid = sc_result_found scan" "sc_data_seen mid = sc_data_seen scan"
      by (subst t(4), simp)+
    ultimately show ?thesis
      using a t(1) cname Cons.prems(4,5) by (simp add: alias_of_def)
  next
    case data
    with Cons.prems(3) scan_data_stays [OF rest] take_record_flags [OF data(6)] Cons.prems(2) show ?thesis by auto
  qed
qed simp
section \<open>What is published\<close>

definition addresses_of :: "dns_answer_set \<Rightarrow> bytes list" where
  "addresses_of answers = take (unat (as_address_count answers)) (as_addresses answers)"

definition answers_wf :: "dns_answer_set \<Rightarrow> bool" where
  "answers_wf answers = (length (as_addresses answers) = 8 \<and>
     (\<forall>i < 8. unat (as_address_count answers) \<le> i \<longrightarrow> as_addresses answers ! i = zero_bytes 16))"

text \<open>An address as it stands in the array of 16 bytes.\<close>

definition padded :: "bytes \<Rightarrow> bytes" where
  "padded data = data @ zero_bytes (16 - length data)"

lemma smaller_ttl: "(if a < b then a else b) = min a b" for a b :: u32
  by (auto simp: min_def dest: less_imp_le)

lemma store_address_some:
  assumes "dns_store_address k p rr scan = Some scan'" and "answers_wf (sc_answer_set scan)"
  shows "unat (as_address_count (sc_answer_set scan)) < 8"
    "unat (as_address_count (sc_answer_set scan')) = Suc (unat (as_address_count (sc_answer_set scan)))"
    "answers_wf (sc_answer_set scan')"
    "addresses_of (sc_answer_set scan') = addresses_of (sc_answer_set scan) @ [padded (rr_data p rr)]"
    "an_ttl (as_primary (sc_answer_set scan')) = an_ttl (as_primary (sc_answer_set scan))"
    "sc_result_found scan' = sc_result_found scan"
proof -
  let ?a = "sc_answer_set scan"
  let ?n = "unat (as_address_count ?a)" and ?data = "take k (drop (rr_data_position rr) p)"
  have n: "?n < 8" and k: "rr_data_end rr - rr_data_position rr = k"
    and count: "as_address_count (sc_answer_set scan') = as_address_count ?a + 1"
    and addr: "as_addresses (sc_answer_set scan') = (as_addresses ?a)[?n := byte_copy (as_addresses ?a ! ?n) 0 ?data]"
    and "an_ttl (as_primary (sc_answer_set scan')) = an_ttl (as_primary ?a)"
      "sc_result_found scan' = sc_result_found scan"
    using assms(1) by (auto simp: dns_store_address_def Let_def split: if_splits)
  then show "?n < 8" "an_ttl (as_primary (sc_answer_set scan')) = an_ttl (as_primary ?a)"
      "sc_result_found scan' = sc_result_found scan" by simp_all
  show suc: "unat (as_address_count (sc_answer_set scan')) = Suc ?n"
    using n by (simp add: count unat_word_ariths)
  have len: "length (as_addresses ?a) = 8" and "as_addresses ?a ! ?n = zero_bytes 16"
    using assms(2) n by (simp_all add: answers_wf_def)
  then have new: "as_addresses (sc_answer_set scan') = (as_addresses ?a)[?n := padded (rr_data p rr)]"
    using k by (simp add: addr byte_copy_def padded_def rr_data_def)
  show "answers_wf (sc_answer_set scan')"
    using assms(2) unfolding answers_wf_def new suc by auto
  show "addresses_of (sc_answer_set scan') = addresses_of ?a @ [padded (rr_data p rr)]"
    unfolding addresses_of_def new suc using n len by (simp add: take_Suc_conv_app_nth)
qed

definition ttl_after :: "u32 \<Rightarrow> dns_record \<Rightarrow> dns_scan \<Rightarrow> u32" where
  "ttl_after ttl rr scan = (if sc_result_found scan
     then min (an_ttl (as_primary (sc_answer_set scan))) (min (rr_ttl rr) ttl) else min (rr_ttl rr) ttl)"

lemma take_record_address:
  assumes "take_record p ty ttl rr scan = Some scan'" and "ty = 1 \<or> ty = 28" and "answers_wf (sc_answer_set scan)"
  shows "answers_wf (sc_answer_set scan')"
    "addresses_of (sc_answer_set scan') = addresses_of (sc_answer_set scan) @ [padded (rr_data p rr)]"
    "unat (as_address_count (sc_answer_set scan')) = Suc (unat (as_address_count (sc_answer_set scan)))"
    "unat (as_address_count (sc_answer_set scan')) \<le> 8"
    "sc_result_found scan'"
    "an_ttl (as_primary (sc_answer_set scan')) = ttl_after ttl rr scan"
proof -
  obtain mid k name where mid: "dns_store_address k p rr (scan\<lparr>sc_data_seen := True\<rparr>) = Some mid"
    and pub: "dns_publish_data ty (if rr_ttl rr < ttl then rr_ttl rr else ttl) name mid = Some scan'"
    using assms(1,2) by (auto simp: take_record_def dns_scan_data_def bind_eq_Some_conv split: if_splits)
  note s = store_address_some [OF mid, simplified, OF assms(3)]
  have "as_address_count (sc_answer_set scan') = as_address_count (sc_answer_set mid)"
    "as_addresses (sc_answer_set scan') = as_addresses (sc_answer_set mid)" "sc_result_found scan'"
    "an_ttl (as_primary (sc_answer_set scan')) = ttl_after ttl rr scan"
    using pub assms(2) s(5,6) unfolding smaller_ttl
    by (auto simp: dns_publish_data_def Let_def ttl_after_def min_def split: if_splits)
  with s show "answers_wf (sc_answer_set scan')"
    "addresses_of (sc_answer_set scan') = addresses_of (sc_answer_set scan) @ [padded (rr_data p rr)]"
    "unat (as_address_count (sc_answer_set scan')) = Suc (unat (as_address_count (sc_answer_set scan)))"
    "unat (as_address_count (sc_answer_set scan')) \<le> 8" "sc_result_found scan'"
    "an_ttl (as_primary (sc_answer_set scan')) = ttl_after ttl rr scan"
    by (simp_all add: answers_wf_def addresses_of_def)
qed

lemma take_record_pointer:
  assumes "take_record p 12 ttl rr scan = Some scan'"
  shows "\<exists>name. dns_decode p (rr_data_position rr) = Some (name, rr_data_end rr) \<and> name \<noteq> [] \<and>
      an_name (as_primary (sc_answer_set scan')) =
        (if sc_result_found scan then an_name (as_primary (sc_answer_set scan)) else name)"
    "sc_result_found scan'"
    "an_ttl (as_primary (sc_answer_set scan')) = ttl_after ttl rr scan"
proof -
  obtain name where d: "dns_decode p (rr_data_position rr) = Some (name, rr_data_end rr)" "char_at name 0 \<noteq> 0"
    and pub: "dns_publish_data 12 (min (rr_ttl rr) ttl) name (scan\<lparr>sc_data_seen := True\<rparr>) = Some scan'"
    using assms unfolding take_record_def smaller_ttl
    by (auto simp: dns_scan_data_def bind_eq_Some_conv split: if_splits option.splits)
  note ok = decoded_name_ok [OF d(1)]
  have "sc_result_found scan'" "an_ttl (as_primary (sc_answer_set scan')) = ttl_after ttl rr scan"
    "an_name (as_primary (sc_answer_set scan')) = (if sc_result_found scan then an_name (as_primary (sc_answer_set scan)) else name)"
    using pub ok by (auto simp: dns_publish_data_def Let_def ttl_after_def min_def copy_name_iff split: if_splits)
  with d ok show "\<exists>name. dns_decode p (rr_data_position rr) = Some (name, rr_data_end rr) \<and> name \<noteq> [] \<and>
      an_name (as_primary (sc_answer_set scan')) =
        (if sc_result_found scan then an_name (as_primary (sc_answer_set scan)) else name)"
    "sc_result_found scan'" "an_ttl (as_primary (sc_answer_set scan')) = ttl_after ttl rr scan" by auto
qed
definition scan_wf :: "u16 \<Rightarrow> dns_scan \<Rightarrow> bool" where
  "scan_wf ty scan = (ty = 12 \<or> (ty = 1 \<or> ty = 28) \<and> answers_wf (sc_answer_set scan))"

lemma foldr_min_le: "foldr min xs t \<le> (t :: u32)"
  by (induction xs) (auto simp: min_le_iff_disj)

lemma take_record_found:
  assumes "take_record p ty ttl rr scan = Some scan'" and "scan_wf ty scan"
  shows "sc_result_found scan'" "an_ttl (as_primary (sc_answer_set scan')) = ttl_after ttl rr scan"
  using take_record_address(5,6) [OF assms(1)] take_record_pointer(2,3) [of p ttl rr scan scan'] assms
  by (auto simp: scan_wf_def)

lemma take_record_wf:
  assumes "take_record p ty ttl rr scan = Some scan'" and "scan_wf ty scan"
  shows "scan_wf ty scan'"
  using assms take_record_address(1) [OF assms(1)] by (auto simp: scan_wf_def)

text \<open>Taking several records: whether one was found, the smallest lifetime, and the addresses.\<close>

lemma take_records_ttl:
  assumes "take_records p ty ttl rrs scan = Some scan'" and "scan_wf ty scan"
  shows "sc_result_found scan' = (sc_result_found scan \<or> rrs \<noteq> []) \<and> scan_wf ty scan' \<and>
    (rrs \<noteq> [] \<longrightarrow> an_ttl (as_primary (sc_answer_set scan')) =
       (if sc_result_found scan then min (an_ttl (as_primary (sc_answer_set scan))) (foldr min (map rr_ttl rrs) ttl)
        else foldr min (map rr_ttl rrs) ttl))"
  using assms
proof (induction rrs arbitrary: scan)
  case (Cons rr rrs)
  obtain mid where mid: "take_record p ty ttl rr scan = Some mid" and rest: "take_records p ty ttl rrs mid = Some scan'"
    using Cons.prems(1) by (auto simp: bind_eq_Some_conv)
  note found = take_record_found [OF mid Cons.prems(2)] and wf = take_record_wf [OF mid Cons.prems(2)]
  note IH = Cons.IH [OF rest wf]
  have le: "foldr min (map rr_ttl rrs) ttl \<le> ttl" by (rule foldr_min_le)
  show ?case
  proof (cases "rrs = []")
    case True
    with IH rest found show ?thesis by (simp add: ttl_after_def)
  next
    case False
    with IH found le show ?thesis by (auto simp: ttl_after_def min.assoc min.absorb2 min.left_commute)
  qed
qed simp

lemma take_records_addresses:
  assumes "take_records p ty ttl rrs scan = Some scan'" and "ty = 1 \<or> ty = 28" and "answers_wf (sc_answer_set scan)"
  shows "addresses_of (sc_answer_set scan') = addresses_of (sc_answer_set scan) @ map (\<lambda>rr. padded (rr_data p rr)) rrs \<and>
    unat (as_address_count (sc_answer_set scan')) = unat (as_address_count (sc_answer_set scan)) + length rrs \<and>
    (rrs \<noteq> [] \<longrightarrow> unat (as_address_count (sc_answer_set scan')) \<le> 8)"
  using assms
proof (induction rrs arbitrary: scan)
  case (Cons rr rrs)
  obtain mid where mid: "take_record p ty ttl rr scan = Some mid" and rest: "take_records p ty ttl rrs mid = Some scan'"
    using Cons.prems(1) by (auto simp: bind_eq_Some_conv)
  note one = take_record_address [OF mid Cons.prems(2,3)]
  have "rrs = [] \<Longrightarrow> scan' = mid" using rest by simp
  with one Cons.IH [OF rest Cons.prems(2) one(1)] show ?case by auto
qed simp

lemma take_records_pointer:
  assumes "take_records p 12 ttl (rr # rrs) scan = Some scan'" and "\<not> sc_result_found scan"
  shows "dns_decode p (rr_data_position rr) = Some (an_name (as_primary (sc_answer_set scan')), rr_data_end rr)"
proof -
  have keep: "an_name (as_primary (sc_answer_set scan')) = an_name (as_primary (sc_answer_set mid))"
    if "take_records p 12 ttl rrs mid = Some scan'" "sc_result_found mid" for mid rrs
    using that
  proof (induction rrs arbitrary: mid)
    case (Cons rr rrs)
    then obtain next_scan where n: "take_record p 12 ttl rr mid = Some next_scan"
      "take_records p 12 ttl rrs next_scan = Some scan'" by (auto simp: bind_eq_Some_conv)
    from Cons.IH [OF n(2)] take_record_pointer [OF n(1)] Cons.prems(2) show ?case by auto
  qed simp
  obtain mid where mid: "take_record p 12 ttl rr scan = Some mid" and rest: "take_records p 12 ttl rrs mid = Some scan'"
    using assms(1) by (auto simp: bind_eq_Some_conv)
  from keep [OF rest] take_record_pointer [OF mid] assms(2) show ?thesis by auto
qed
section \<open>The chain of names\<close>

abbreviation chain_names :: "dns_cname_chain \<Rightarrow> cstring list" where
  "chain_names chain \<equiv> take (unat (cc_hop_count chain) + 1) (cc_names chain)"

definition name_ok :: "cstring \<Rightarrow> bool" where
  "name_ok name = (name \<noteq> [] \<and> 0 \<notin> set name \<and> length name \<le> 255)"

text \<open>The names of a chain are proper strings, and no two of them are the same name.\<close>

definition chain_inv :: "dns_cname_chain \<Rightarrow> bool" where
  "chain_inv chain = (length (cc_names chain) = 9 \<and> unat (cc_hop_count chain) \<le> 8 \<and>
     list_all name_ok (chain_names chain) \<and> distinct (map dns_canonical (chain_names chain)))"

lemma chain_init_inv:
  assumes "dns_cname_chain_init name = Some chain" and "0 \<notin> set name"
  shows "chain_inv chain \<and> chain_names chain = [name] \<and> cc_minimum_ttl chain = UINT32_MAX"
proof -
  have "(replicate 9 [])[0 := name] = name # replicate 8 []" by (simp add: numeral_eq_Suc)
  then show ?thesis
    using assms by (auto simp: dns_cname_chain_init_def dns_empty_chain_def copy_name_iff chain_inv_def name_ok_def
      char_at_def split: if_splits)
qed

lemma name_ok_char: "name_ok name \<Longrightarrow> char_at name 0 \<noteq> 0"
  by (cases name) (auto simp: name_ok_def char_at_def)

lemma chain_current:
  assumes "chain_inv chain"
  shows "dns_cname_chain_current chain = Some (last (chain_names chain))"
proof -
  let ?n = "unat (cc_hop_count chain)"
  have len: "length (cc_names chain) = 9" "?n \<le> 8" and ok: "list_all name_ok (chain_names chain)"
    using assms by (simp_all add: chain_inv_def)
  have nth: "cc_names chain ! i \<in> set (chain_names chain)" if "i \<le> ?n" for i
    using that len by (auto simp: in_set_conv_nth intro!: exI [of _ i])
  have "char_at (cc_names chain ! i) 0 \<noteq> 0" if "i \<le> ?n" for i
    using nth [OF that] ok name_ok_char by (auto simp: list_all_iff)
  then have "char_at (cc_names chain ! 0) 0 \<noteq> 0" "char_at (cc_names chain ! ?n) 0 \<noteq> 0" by simp_all
  moreover have "\<not> list_ex (\<lambda>name. length name = 0 \<or> length name > 255) (chain_names chain)"
    using ok by (auto simp: list_ex_iff list_all_iff name_ok_def)
  moreover have "last (chain_names chain) = cc_names chain ! ?n" using len by (simp add: take_Suc_conv_app_nth)
  ultimately show ?thesis using len by (simp add: dns_cname_chain_current_def)
qed

lemma chain_follow_iff:
  assumes "chain_inv chain" and "name_ok target"
  shows "dns_cname_chain_follow chain target =
    (if dns_canonical target \<in> set (map dns_canonical (chain_names chain)) then (RIN_DNS_WIRE_CNAME_CHAIN_LOOP, chain)
     else if unat (cc_hop_count chain) \<ge> 8 then (RIN_DNS_WIRE_CNAME_CHAIN_LIMIT, chain)
     else (0, chain\<lparr>cc_names := (cc_names chain)[unat (cc_hop_count chain) + 1 := target],
        cc_hop_count := cc_hop_count chain + 1\<rparr>))"
proof -
  have "list_ex (dns_names_equal target) (chain_names chain) \<longleftrightarrow>
      dns_canonical target \<in> set (map dns_canonical (chain_names chain))"
    using assms names_equal_iff by (auto simp: chain_inv_def list_ex_iff list_all_iff name_ok_def)
  then show ?thesis
    using chain_current [OF assms(1)] name_ok_char [OF assms(2)] assms(2)
    by (simp add: dns_cname_chain_follow_def copy_name_iff name_ok_def)
qed

lemma chain_follow_inv:
  assumes "chain_inv chain" and "name_ok target" and "dns_cname_chain_follow chain target = (0, chain')"
  shows "chain_inv chain' \<and> chain_names chain' = chain_names chain @ [target] \<and> cc_minimum_ttl chain' = cc_minimum_ttl chain"
proof -
  let ?n = "unat (cc_hop_count chain)"
  have fresh: "dns_canonical target \<notin> set (map dns_canonical (chain_names chain))" and n: "?n < 8"
    and c': "chain' = chain\<lparr>cc_names := (cc_names chain)[?n + 1 := target], cc_hop_count := cc_hop_count chain + 1\<rparr>"
    using assms(3) unfolding chain_follow_iff [OF assms(1,2)] by (auto split: if_splits)
  have len: "length (cc_names chain) = 9" using assms(1) by (simp add: chain_inv_def)
  have "unat (cc_hop_count chain + 1) = ?n + 1" using n by (simp add: unat_word_ariths)
  then have names: "chain_names chain' = chain_names chain @ [target]" and hop: "unat (cc_hop_count chain') = ?n + 1"
    using n len by (simp_all add: c' take_Suc_conv_app_nth)
  have "length (cc_names chain') = 9" "cc_minimum_ttl chain' = cc_minimum_ttl chain" using len by (simp_all add: c')
  moreover have "list_all name_ok (chain_names chain @ [target])" "distinct (map dns_canonical (chain_names chain @ [target]))"
    using assms(1,2) fresh by (simp_all add: chain_inv_def)
  ultimately show ?thesis using n hop names unfolding chain_inv_def by simp
qed

section \<open>Following the aliases\<close>

text \<open>The names visited, with the lifetimes of the aliases.\<close>

fun alias_path :: "bytes \<Rightarrow> u16 \<Rightarrow> dns_record list \<Rightarrow> cstring \<Rightarrow> (cstring \<times> u32) list \<Rightarrow> bool" where
  "alias_path p ty rrs name [] = True"
| "alias_path p ty rrs name ((target, ttl) # path) =
     (alias_of p ty rrs name target ttl \<and> alias_path p ty rrs target path)"

lemma start_scan_simps [simp]:
  "\<not> sc_cname_seen (dns_start_scan res)" "\<not> sc_data_seen (dns_start_scan res)"
  "sc_answer_set (dns_start_scan res) = rs_answer_set res" "sc_result_found (dns_start_scan res) = rs_result_found res"
  by (simp_all add: dns_start_scan_def)

lemma alias_target_ok: "alias_of p ty rrs name target ttl \<Longrightarrow> name_ok target"
  using decoded_name_ok by (fastforce simp: alias_of_def name_ok_def)

lemma chain_inv_ttl [simp]: "chain_inv (chain\<lparr>cc_minimum_ttl := t\<rparr>) = chain_inv chain"
  by (simp add: chain_inv_def)

lemma next_name_some:
  assumes "dns_next_name scan res = Inr res'" and "chain_inv (rs_chain res)" and "name_ok (sc_cname_target scan)"
  shows "chain_inv (rs_chain res')" "chain_names (rs_chain res') = chain_names (rs_chain res) @ [sc_cname_target scan]"
    "cc_minimum_ttl (rs_chain res') = min (sc_cname_ttl scan) (cc_minimum_ttl (rs_chain res))"
    "rs_current_name res' = sc_cname_target scan" "rs_cname_hops res' = rs_cname_hops res + 1"
    "rs_answer_set res' = sc_answer_set scan" "rs_result_found res' = sc_result_found scan"
proof -
  obtain chain' where f: "dns_cname_chain_follow (rs_chain res) (sc_cname_target scan) = (0, chain')"
    and r: "res' = \<lparr>rs_chain = (if sc_cname_ttl scan < cc_minimum_ttl chain'
        then chain'\<lparr>cc_minimum_ttl := sc_cname_ttl scan\<rparr> else chain'), rs_current_name = sc_cname_target scan,
        rs_cname_hops = rs_cname_hops res + 1, rs_answer_set = sc_answer_set scan, rs_result_found = sc_result_found scan\<rparr>"
    using assms(1) by (auto simp: dns_next_name_def copy_name_iff split: prod.splits if_splits)
  note c = chain_follow_inv [OF assms(2,3) f]
  then show "chain_inv (rs_chain res')" "chain_names (rs_chain res') = chain_names (rs_chain res) @ [sc_cname_target scan]"
    by (simp_all add: r)
  show "cc_minimum_ttl (rs_chain res') = min (sc_cname_ttl scan) (cc_minimum_ttl (rs_chain res))"
    using c by (simp add: r smaller_ttl [symmetric])
  show "rs_current_name res' = sc_cname_target scan" "rs_cname_hops res' = rs_cname_hops res + 1"
    "rs_answer_set res' = sc_answer_set scan" "rs_result_found res' = sc_result_found scan" by (simp_all add: r)
qed

definition followed :: "bytes \<Rightarrow> u16 \<Rightarrow> dns_record list \<Rightarrow> dns_resolution \<Rightarrow> (cstring \<times> u32) list \<Rightarrow> dns_resolution \<Rightarrow> bool" where
  "followed p ty rrs res path res' =
    (alias_path p ty rrs (rs_current_name res) path \<and>
     rs_current_name res' = last (rs_current_name res # map fst path) \<and>
     rs_cname_hops res' = rs_cname_hops res + length path \<and>
     chain_inv (rs_chain res') \<and> chain_names (rs_chain res') = chain_names (rs_chain res) @ map fst path \<and>
     cc_minimum_ttl (rs_chain res') = foldr min (map snd path) (cc_minimum_ttl (rs_chain res)) \<and>
     owned (rs_current_name res') 5 rrs = [] \<and>
     (\<forall>rr \<in> set (owned (rs_current_name res') ty rrs). rr_class rr = 1) \<and>
     (\<exists>scan scan'. sc_answer_set scan = rs_answer_set res \<and> sc_result_found scan = rs_result_found res \<and>
        take_records p ty (cc_minimum_ttl (rs_chain res')) (owned (rs_current_name res') ty rrs) scan = Some scan' \<and>
        rs_answer_set res' = sc_answer_set scan' \<and> rs_result_found res' = sc_result_found scan'))"

lemma foldr_min_shift: "foldr min xs (min a t) = min a (foldr min xs t)" for t :: u32
  by (induction xs) (simp_all add: min.left_commute)

lemma follow_chain_some:
  assumes "dns_follow_chain p s e n ty res = Inr res'" and "chain_inv (rs_chain res)" and "ty \<noteq> 5"
  shows "\<exists>rrs path. dns_records (take e p) n s = Some (rrs, e) \<and> followed p ty rrs res path res'"
  using assms
proof (induction p s e n ty res rule: dns_follow_chain.induct)
  case (1 p s e n ty res)
  obtain scan where sa: "dns_scan_answers p e ty (rs_current_name res) (cc_minimum_ttl (rs_chain res)) n s
      (dns_start_scan res) = Some (scan, e)"
    using "1.prems"(1) by (subst (asm) dns_follow_chain.simps) (auto split: option.splits prod.splits if_splits)
  then obtain rrs where rrs: "dns_records (take e p) n s = Some (rrs, e)"
    and scan: "scan_records p ty (rs_current_name res) (cc_minimum_ttl (rs_chain res)) rrs (dns_start_scan res) = Some scan"
    unfolding scan_answers_records by blast
  show ?case
  proof (cases "sc_cname_seen scan")
    case False
    then have res': "res' = res\<lparr>rs_answer_set := sc_answer_set scan, rs_result_found := sc_result_found scan\<rparr>"
      using "1.prems"(1) sa by (subst (asm) dns_follow_chain.simps) simp
    have "followed p ty rrs res [] res'"
      using scan_without_cname [OF scan False] "1.prems"(2)
      unfolding followed_def res' by (auto intro: exI [of _ "dns_start_scan res"])
    with rrs show ?thesis by blast
  next
    case True
    then obtain mid where mid: "dns_next_name scan res = Inr mid" and rest: "dns_follow_chain p s e n ty mid = Inr res'"
      using "1.prems"(1) sa by (subst (asm) dns_follow_chain.simps) (auto split: sum.splits)
    note al = scan_with_cname [OF scan True start_scan_simps(1,2) "1.prems"(3), simplified]
    then have ok: "name_ok (sc_cname_target scan)" using alias_target_ok by blast
    note nx = next_name_some [OF mid "1.prems"(2) ok]
    obtain path where f: "followed p ty rrs mid path res'"
      using "1.IH" [OF sa refl _ True mid rest nx(1) "1.prems"(3)] rrs by auto
    have "followed p ty rrs res ((sc_cname_target scan, sc_cname_ttl scan) # path) res'"
      using f al nx unfolding followed_def by (cases "path = []") (auto simp: foldr_min_shift)
    with rrs show ?thesis by blast
  qed
qed
section \<open>A whole response\<close>

lemma edns_option_answer:
  "dns_edns_option code data scan = Some scan' \<Longrightarrow>
   an_name (es_answer scan') = an_name (es_answer scan) \<and> an_ttl (es_answer scan') = an_ttl (es_answer scan) \<and>
   an_address (es_answer scan') = an_address (es_answer scan)"
  by (auto simp: dns_edns_option_def Let_def split: if_splits)

lemma edns_walk_answer:
  "dns_edns_walk data scan = Some scan' \<Longrightarrow>
   an_name (es_answer scan') = an_name (es_answer scan) \<and> an_ttl (es_answer scan') = an_ttl (es_answer scan) \<and>
   an_address (es_answer scan') = an_address (es_answer scan)"
proof (induction data scan rule: dns_edns_walk.induct)
  case (1 data scan)
  show ?case
  proof (cases "data = []")
    case True with "1.prems" show ?thesis by (simp add: dns_edns_walk.simps)
  next
    case False
    let ?n = "unat (load_be16 (drop 2 data))"
    obtain mid where g: "\<not> (es_option_count scan + 1 > 32 \<or> length data < 4)" "\<not> ?n > length data - 4"
      and m: "dns_edns_option (load_be16 data) (take ?n (drop 4 data)) (scan\<lparr>es_option_count := es_option_count scan + 1\<rparr>) = Some mid"
      and w: "dns_edns_walk (drop (4 + ?n) data) mid = Some scan'"
      using "1.prems" False unfolding dns_edns_walk.simps [of data scan] by (auto simp: Let_def split: if_splits option.splits)
    show ?thesis using "1.IH" [OF False g(1) refl g(2) m w] edns_option_answer [OF m] by simp
  qed
qed

lemma edns_options_answer:
  assumes "dns_edns_options_valid data a = Some a'"
  shows "an_name a' = an_name a \<and> an_ttl a' = an_ttl a \<and> an_address a' = an_address a"
proof -
  let ?scan = "\<lparr>es_option_count = 0, es_saw_cookie = False, es_saw_ecs = False, es_saw_padding = False, es_answer = a\<rparr>"
  show ?thesis
  proof (cases "dns_edns_walk data ?scan")
    case None
    with assms show ?thesis by (simp add: dns_edns_options_valid_def)
  next
    case (Some scan)
    have "an_name a' = an_name (es_answer scan)" "an_ttl a' = an_ttl (es_answer scan)"
      "an_address a' = an_address (es_answer scan)"
      using assms [symmetric] by (simp_all add: dns_edns_options_valid_def Some)
    with edns_walk_answer [OF Some] show ?thesis by simp
  qed
qed

lemma additional_record_answer:
  assumes "dns_additional_record p rr a = Some a'"
  shows "an_name a' = an_name a \<and> an_ttl a' = an_ttl a \<and> an_address a' = an_address a"
proof (cases "rr_type rr = 41")
  case True
  then obtain b where b: "dns_edns_options_valid (rr_data p rr) a = Some b"
    and "an_name a' = an_name b" "an_ttl a' = an_ttl b" "an_address a' = an_address b"
    using assms unfolding dns_additional_record_def map_option_case
    by (cases "dns_edns_options_valid (rr_data p rr) a") (force split: if_split_asm)+
  with edns_options_answer [OF b] show ?thesis by simp
qed (use assms in \<open>simp add: dns_additional_record_def\<close>)

lemma additional_answer:
  "dns_additional p n i a = Some (j, a') \<Longrightarrow> an_name a' = an_name a \<and> an_ttl a' = an_ttl a \<and> an_address a' = an_address a"
  by (induction p n i a rule: dns_additional.induct)
    (auto dest!: additional_record_answer split: option.splits)

definition first_resolution :: "cstring \<Rightarrow> dns_cname_chain \<Rightarrow> dns_resolution" where
  "first_resolution name chain = \<lparr>rs_chain = chain, rs_current_name = name, rs_cname_hops = 0,
     rs_answer_set = dns_clear_answer_set, rs_result_found = False\<rparr>"

lemma parse_sections_some:
  assumes "dns_parse_sections p name ty chain cap rcode = Inr (st, referral, chain', answers)"
    and "chain_inv chain" and "dns_type_supported ty"
  shows "\<exists>start stop rrs path res a. dns_question p name ty = Some start \<and>
    dns_records (take stop p) (unat (load_be16 (drop 6 p))) start = Some (rrs, stop) \<and>
    followed p ty rrs (first_resolution name chain) path res \<and> chain' = rs_chain res \<and>
    answers = (rs_answer_set res)\<lparr>as_primary := a\<rparr> \<and>
    an_name a = an_name (as_primary (rs_answer_set res)) \<and> an_ttl a = an_ttl (as_primary (rs_answer_set res)) \<and>
    an_address a = an_address (as_primary (rs_answer_set res)) \<and>
    dns_verdict rcode (unat (load_be16 (drop 6 p))) cap res = Some (st, referral)"
proof -
  have ty: "ty \<noteq> 5" using assms(3) by (auto simp: dns_type_supported_def)
  obtain cur start stop res pos where q: "dns_copy_name 256 name = Some cur" "dns_question p name ty = Some start"
    and f: "dns_follow_chain p start stop (unat (load_be16 (drop 6 p))) ty (first_resolution cur chain) = Inr res"
    and a: "dns_additional p (unat (load_be16 (drop 10 p))) pos (as_primary (rs_answer_set res)) =
      Some (length p, as_primary answers)"
    and v: "dns_verdict rcode (unat (load_be16 (drop 6 p))) cap res = Some (st, referral)" and c: "chain' = rs_chain res"
    and w: "answers = (rs_answer_set res)\<lparr>as_primary := as_primary answers\<rparr>"
    using assms(1) unfolding dns_parse_sections_def first_resolution_def
    by (auto simp: Let_def split: if_splits option.splits sum.splits prod.splits bind_splits)
  have cur: "cur = name" using q(1) by (auto simp: copy_name_iff split: if_splits)
  have "chain_inv (rs_chain (first_resolution cur chain))" using assms(2) by (simp add: first_resolution_def)
  from follow_chain_some [OF f this ty] q(2) c w v additional_answer [OF a] show ?thesis unfolding cur by blast
qed

lemma chain_follow_status:
  "fst (dns_cname_chain_follow chain target) \<le> 0"
  by (auto simp: dns_cname_chain_follow_def split: option.splits)

lemma follow_chain_failure: "dns_follow_chain p s e n ty res = Inl failure \<Longrightarrow> failure \<in> {-1, -5, -6}"
proof (induction p s e n ty res rule: dns_follow_chain.induct)
  case (1 p s e n ty res)
  have nx: "failure \<in> {-1, -5, -6}" if "dns_next_name scan res = Inl failure" for scan
    using that by (auto simp: dns_next_name_def split: if_splits prod.splits option.splits)
  from "1.prems" "1.IH" nx show ?case
    unfolding dns_follow_chain.simps [of p s e n ty res]
    by (auto split: option.split_asm prod.split_asm if_split_asm sum.split_asm)
qed

lemma verdict_status:
  "dns_verdict rcode n cap res = Some (st, referral) \<Longrightarrow> st \<in> {0, 1, 2, 3} \<and> (st = 0 \<longleftrightarrow> rs_result_found res) \<and>
   (st \<noteq> 1 \<and> st \<noteq> 2 \<longrightarrow> referral = []) \<and>
   (st = 1 \<longrightarrow> referral = rs_current_name res \<and> rs_cname_hops res \<noteq> 0)"
  by (auto simp: dns_verdict_def copy_name_iff split: if_splits)

text \<open>A response is either refused, and then nothing is published, or its sections were read.\<close>

lemma parse_chain_cases:
  assumes "dns_parse_response_answers_chain p qid name ty chain cap = (st, chain', answers, referral)"
  shows "st \<in> {-1, -5, -6, 4} \<and> chain' = chain \<and> answers = dns_clear_answer_set \<and> referral = [] \<or>
    dns_parse_sections p name ty chain cap (load_be16 (drop 2 p) AND 0x000f) = Inr (st, referral, chain', answers) \<and>
    st \<in> {0, 1, 2, 3} \<and> dns_type_supported ty \<and> load_be16 p = qid \<and> load_be16 (drop 2 p) AND 0x8000 \<noteq> 0 \<and>
    load_be16 (drop 2 p) AND 0x0200 = 0"
proof -
  let ?s = "dns_parse_sections p name ty chain cap (load_be16 (drop 2 p) AND 0x000f)"
  have neg: "failure \<in> {-1, -5, -6}" if "?s = Inl failure" for failure
    using that follow_chain_failure unfolding dns_parse_sections_def
    by (fastforce simp: Let_def split: if_splits option.splits sum.splits prod.splits)
  have pos: "st \<in> {0, 1, 2, 3}" if "?s = Inr (st, r, c, a)" for st r c a
    using that verdict_status unfolding dns_parse_sections_def
    by (fastforce simp: Let_def split: if_splits option.splits sum.splits prod.splits)
  show ?thesis
    using assms neg pos unfolding dns_parse_response_answers_chain_def Let_def
    by (auto split: if_split_asm option.split_asm sum.split_asm prod.split_asm)
qed
lemma clear_answers [simp]:
  "answers_wf dns_clear_answer_set" "addresses_of dns_clear_answer_set = []" "as_address_count dns_clear_answer_set = 0"
  by (simp_all add: answers_wf_def addresses_of_def dns_clear_answer_set_def)

lemma followed_answers:
  assumes "followed p ty rrs (first_resolution name chain) path res" and "dns_type_supported ty"
  defines "hits \<equiv> owned (rs_current_name res) ty rrs"
  shows "rs_result_found res = (hits \<noteq> [])" "hits = [] \<Longrightarrow> rs_answer_set res = dns_clear_answer_set"
    "hits \<noteq> [] \<Longrightarrow> an_ttl (as_primary (rs_answer_set res)) = foldr min (map rr_ttl hits) (cc_minimum_ttl (rs_chain res))"
    "ty \<noteq> 12 \<Longrightarrow> addresses_of (rs_answer_set res) = map (\<lambda>rr. padded (rr_data p rr)) hits \<and> length hits \<le> 8"
    "ty = 12 \<Longrightarrow> hits \<noteq> [] \<Longrightarrow>
      dns_decode p (rr_data_position (hd hits)) = Some (an_name (as_primary (rs_answer_set res)), rr_data_end (hd hits))"
proof -
  obtain scan scan' where s: "sc_answer_set scan = dns_clear_answer_set" "\<not> sc_result_found scan"
    and t: "take_records p ty (cc_minimum_ttl (rs_chain res)) hits scan = Some scan'"
    and r: "rs_answer_set res = sc_answer_set scan'" "rs_result_found res = sc_result_found scan'"
    using assms(1) by (auto simp: followed_def first_resolution_def hits_def)
  have wf: "scan_wf ty scan" using s assms(2) by (auto simp: scan_wf_def dns_type_supported_def)
  from take_records_ttl [OF t wf] show "rs_result_found res = (hits \<noteq> [])"
    "hits \<noteq> [] \<Longrightarrow> an_ttl (as_primary (rs_answer_set res)) = foldr min (map rr_ttl hits) (cc_minimum_ttl (rs_chain res))"
    by (simp_all add: r s)
  show "hits = [] \<Longrightarrow> rs_answer_set res = dns_clear_answer_set" using t s by (auto simp: r)
  show "addresses_of (rs_answer_set res) = map (\<lambda>rr. padded (rr_data p rr)) hits \<and> length hits \<le> 8" if "ty \<noteq> 12"
  proof -
    have "ty = 1 \<or> ty = 28" using that assms(2) by (auto simp: dns_type_supported_def)
    from take_records_addresses [OF t this] s show ?thesis by (cases "hits = []") (simp_all add: r)
  qed
  show "dns_decode p (rr_data_position (hd hits)) = Some (an_name (as_primary (rs_answer_set res)), rr_data_end (hd hits))"
    if "ty = 12" "hits \<noteq> []"
    using take_records_pointer [of p _ "hd hits" "tl hits" scan scan'] t s that by (simp add: r)
qed

text \<open>The question a response echoes.\<close>

definition asked :: "bytes \<Rightarrow> cstring \<Rightarrow> u16 \<Rightarrow> nat \<Rightarrow> bool" where
  "asked p name ty start = (\<exists>q i. dns_decode p 12 = Some (q, i) \<and> dns_names_equal q name \<and> start = i + 4 \<and>
     start \<le> length p \<and> load_be16 (drop i p) = ty \<and> load_be16 (drop (i + 2) p) = 1)"

lemma question_asked: "dns_question p name ty = Some start \<Longrightarrow> asked p name ty start"
  by (auto simp: dns_question_def asked_def split: option.splits prod.splits if_splits)

text \<open>The answers at a final name: it has no alias, the addresses are the data of its records of the wanted
  type in order, a PTR answer is the name in the first of them, and the lifetime is the smallest one.\<close>

definition answered :: "bytes \<Rightarrow> u16 \<Rightarrow> dns_record list \<Rightarrow> cstring \<Rightarrow> u32 \<Rightarrow> dns_answer_set \<Rightarrow> bool" where
  "answered p ty rrs final ttl answers =
    (let hits = owned final ty rrs
     in owned final 5 rrs = [] \<and> hits \<noteq> [] \<and> (\<forall>rr \<in> set hits. rr_class rr = 1) \<and>
        (ty \<noteq> 12 \<longrightarrow> addresses_of answers = map (\<lambda>rr. padded (rr_data p rr)) hits \<and> length hits \<le> 8) \<and>
        (ty = 12 \<longrightarrow> dns_decode p (rr_data_position (hd hits)) =
           Some (an_name (as_primary answers), rr_data_end (hd hits))) \<and>
        an_ttl (as_primary answers) = foldr min (map rr_ttl hits) ttl)"

lemma followed_answered:
  assumes "followed p ty rrs (first_resolution name chain) path res" and "dns_type_supported ty" and "rs_result_found res"
    and "answers = (rs_answer_set res)\<lparr>as_primary := a\<rparr>" and "an_name a = an_name (as_primary (rs_answer_set res))"
    and "an_ttl a = an_ttl (as_primary (rs_answer_set res))"
  shows "answered p ty rrs (rs_current_name res) (cc_minimum_ttl (rs_chain res)) answers"
proof -
  have "addresses_of answers = addresses_of (rs_answer_set res)" by (simp add: assms(4) addresses_of_def)
  moreover have "owned (rs_current_name res) 5 rrs = []" "\<forall>rr \<in> set (owned (rs_current_name res) ty rrs). rr_class rr = 1"
    using assms(1) unfolding followed_def by blast+
  ultimately show ?thesis
    using followed_answers [OF assms(1,2)] assms(3-6) unfolding answered_def Let_def by (cases "ty = 12") auto
qed

text \<open>C3: When the response parser of \<open>dns_wire.h\<close> returns success, the packet is a response with the
  transaction id and the question that were asked, its answer section parses into records up to its end,
  and the answer comes from following the aliases: each alias on the path is the only CNAME record of its
  owner, which has no record of the wanted type, the final name has no CNAME record and at least one record
  of the wanted type, the addresses are the data of exactly these records in order (at most eight), a PTR
  answer is the name in the first of them, the lifetime is the smallest of the records' and the aliases'
  lifetimes, and the chain has grown by the path.\<close>

theorem parse_response_success:
  assumes "dns_parse_response_answers_chain p qid name ty chain cap = (0, chain', answers, referral)"
    and "chain_inv chain"
  shows "load_be16 p = qid \<and> load_be16 (drop 2 p) AND 0x8000 \<noteq> 0 \<and>
    (\<exists>start stop rrs path. asked p name ty start \<and>
      dns_records (take stop p) (unat (load_be16 (drop 6 p))) start = Some (rrs, stop) \<and>
      alias_path p ty rrs name path \<and>
      answered p ty rrs (last (name # map fst path)) (cc_minimum_ttl chain') answers \<and>
      cc_minimum_ttl chain' = foldr min (map snd path) (cc_minimum_ttl chain) \<and>
      chain_names chain' = chain_names chain @ map fst path \<and> referral = [])"
proof -
  have s: "dns_parse_sections p name ty chain cap (load_be16 (drop 2 p) AND 0x000f) = Inr (0, referral, chain', answers)"
    and ty: "dns_type_supported ty" and h: "load_be16 p = qid" "load_be16 (drop 2 p) AND 0x8000 \<noteq> 0"
    using parse_chain_cases [OF assms(1)] by auto
  from parse_sections_some [OF s assms(2) ty] obtain start stop rrs path res a where
    q: "dns_question p name ty = Some start"
    and rrs: "dns_records (take stop p) (unat (load_be16 (drop 6 p))) start = Some (rrs, stop)"
    and f: "followed p ty rrs (first_resolution name chain) path res" and c: "chain' = rs_chain res"
    and a: "answers = (rs_answer_set res)\<lparr>as_primary := a\<rparr>"
    "an_name a = an_name (as_primary (rs_answer_set res))" "an_ttl a = an_ttl (as_primary (rs_answer_set res))"
    and v: "dns_verdict (load_be16 (drop 2 p) AND 0x000f) (unat (load_be16 (drop 6 p))) cap res = Some (0, referral)"
    by blast
  have path: "rs_current_name res = last (name # map fst path)" "alias_path p ty rrs name path"
    "chain_names chain' = chain_names chain @ map fst path"
    "cc_minimum_ttl chain' = foldr min (map snd path) (cc_minimum_ttl chain)"
    using f unfolding followed_def c first_resolution_def dns_resolution.simps by blast+
  have "rs_result_found res" "referral = []" using verdict_status [OF v] by simp_all
  with followed_answered [OF f ty _ a] h question_asked [OF q] rrs path(2-4) show ?thesis
    unfolding path(1) c by blast
qed

text \<open>C15: The response parser publishes all or nothing: its status is one of eight values; a refused response
  (-1, an alias loop -5, the alias limit -6 or NOTIMP 4) leaves the chain as it was, clears the answer set
  and the referral; and no status but success comes with an address, a name or a lifetime.\<close>

theorem parse_response_all_or_nothing:
  assumes "dns_parse_response_answers_chain p qid name ty chain cap = (st, chain', answers, referral)"
    and "chain_inv chain"
  shows "st \<in> {-6, -5, -1, 0, 1, 2, 3, 4} \<and>
    (st \<notin> {0, 1, 2, 3} \<longrightarrow> chain' = chain \<and> answers = dns_clear_answer_set \<and> referral = []) \<and>
    (st \<noteq> 0 \<longrightarrow> as_address_count answers = 0 \<and> as_addresses answers = as_addresses dns_clear_answer_set \<and>
       an_name (as_primary answers) = [] \<and> an_ttl (as_primary answers) = 0)"
proof (cases "st \<in> {-1, -5, -6, 4}")
  case True
  then show ?thesis using parse_chain_cases [OF assms(1)] by (auto simp: dns_clear_answer_set_def dns_clear_answer_def)
next
  case False
  then have s: "dns_parse_sections p name ty chain cap (load_be16 (drop 2 p) AND 0x000f) = Inr (st, referral, chain', answers)"
    and ty: "dns_type_supported ty" and st: "st \<in> {0, 1, 2, 3}"
    using parse_chain_cases [OF assms(1)] by auto
  from parse_sections_some [OF s assms(2) ty] obtain rrs path res a where
    f: "followed p ty rrs (first_resolution name chain) path res"
    and a: "answers = (rs_answer_set res)\<lparr>as_primary := a\<rparr>"
    "an_name a = an_name (as_primary (rs_answer_set res))" "an_ttl a = an_ttl (as_primary (rs_answer_set res))"
    and v: "dns_verdict (load_be16 (drop 2 p) AND 0x000f) (unat (load_be16 (drop 6 p))) cap res = Some (st, referral)"
    by blast
  have "rs_answer_set res = dns_clear_answer_set" if "st \<noteq> 0"
    using followed_answers(1,2) [OF f ty] verdict_status [OF v] that by simp
  then show ?thesis using st a by (auto simp: dns_clear_answer_set_def dns_clear_answer_def)
qed

text \<open>The chains a resolver can hold: one made for the name it was asked for, then handed to the parser with any
  number of responses, whatever they contain.\<close>

inductive chain_reached :: "cstring \<Rightarrow> dns_cname_chain \<Rightarrow> bool" for asked_name :: cstring where
  start: "dns_cname_chain_init asked_name = Some chain \<Longrightarrow> chain_reached asked_name chain"
| response: "chain_reached asked_name chain \<Longrightarrow>
    dns_parse_response_answers_chain p qid name ty chain cap = (st, chain', answers, referral) \<Longrightarrow>
    chain_reached asked_name chain'"

lemma parse_response_chain:
  assumes "dns_parse_response_answers_chain p qid name ty chain cap = (st, chain', answers, referral)"
    and "chain_inv chain"
  shows "chain_inv chain' \<and> (\<exists>path. chain_names chain' = chain_names chain @ map fst path \<and>
      cc_minimum_ttl chain' = foldr min (map snd path) (cc_minimum_ttl chain) \<and>
      (st = 1 \<longrightarrow> path \<noteq> [] \<and> referral = last (map fst path)))"
proof (cases "st \<in> {-1, -5, -6, 4}")
  case True
  then have "chain' = chain" "st \<noteq> 1" using parse_chain_cases [OF assms(1)] by auto
  with assms(2) show ?thesis by - (rule conjI, simp, rule exI [of _ "[]"], simp)
next
  case False
  then have s: "dns_parse_sections p name ty chain cap (load_be16 (drop 2 p) AND 0x000f) = Inr (st, referral, chain', answers)"
    and ty: "dns_type_supported ty"
    using parse_chain_cases [OF assms(1)] by auto
  from parse_sections_some [OF s assms(2) ty] obtain rrs path res where
    f: "followed p ty rrs (first_resolution name chain) path res" and c: "chain' = rs_chain res"
    and v: "dns_verdict (load_be16 (drop 2 p) AND 0x000f) (unat (load_be16 (drop 6 p))) cap res = Some (st, referral)"
    by blast
  have "chain_inv chain'" "chain_names chain' = chain_names chain @ map fst path"
    "cc_minimum_ttl chain' = foldr min (map snd path) (cc_minimum_ttl chain)"
    and n: "rs_current_name res = last (name # map fst path)" "rs_cname_hops res = 0 + length path"
    using f unfolding followed_def c first_resolution_def dns_resolution.simps by blast+
  moreover have "path \<noteq> [] \<and> referral = last (map fst path)" if "st = 1"
    using verdict_status [OF v] n that by (auto split: if_splits)
  ultimately show ?thesis by blast
qed

lemma reached_inv:
  assumes "chain_reached asked_name chain" and "0 \<notin> set asked_name"
  shows "chain_inv chain \<and> hd (chain_names chain) = asked_name"
  using assms
proof (induction rule: chain_reached.induct)
  case (start chain)
  then show ?case using chain_init_inv [of asked_name chain] by simp
next
  case (response chain p qid name ty cap st chain' answers referral)
  then have inv: "chain_inv chain" and hd: "hd (chain_names chain) = asked_name" by simp_all
  from inv have "chain_names chain \<noteq> []" by (auto simp: chain_inv_def)
  with parse_response_chain [OF response.hyps(2) inv] hd show ?case by (metis hd_append2)
qed

text \<open>C14: Whatever responses a resolver receives, its alias chain starts with the name asked for, holds at most
  eight aliases, none of which is the asked name or another alias under the case-insensitive comparison
  (so no loop is followed), its current name is the last of them, and its lifetime never grows; a response
  that ends in a referral leaves the chain at exactly the referred name, so the follow-up query is for it.\<close>

theorem alias_chain_bounded:
  assumes "chain_reached asked_name chain" and "0 \<notin> set asked_name"
    and "dns_parse_response_answers_chain p qid name ty chain cap = (st, chain', answers, referral)"
  shows "hd (chain_names chain') = asked_name \<and> length (chain_names chain') \<le> 9 \<and>
    distinct (map dns_canonical (chain_names chain')) \<and>
    dns_cname_chain_current chain' = Some (last (chain_names chain')) \<and>
    cc_minimum_ttl chain' \<le> cc_minimum_ttl chain \<and>
    (st = 1 \<longrightarrow> dns_cname_chain_current chain' = Some referral)"
proof -
  have inv: "chain_inv chain" using reached_inv [OF assms(1,2)] by simp
  have "chain_reached asked_name chain'" using assms(1,3) by (rule chain_reached.response)
  then have r: "chain_inv chain'" "hd (chain_names chain') = asked_name" using reached_inv assms(2) by auto
  have "length (chain_names chain') \<le> 9" "distinct (map dns_canonical (chain_names chain'))"
    using r(1) by (auto simp: chain_inv_def)
  moreover obtain path where p: "chain_names chain' = chain_names chain @ map fst path"
    "cc_minimum_ttl chain' = foldr min (map snd path) (cc_minimum_ttl chain)"
    "st = 1 \<longrightarrow> path \<noteq> [] \<and> referral = last (map fst path)"
    using parse_response_chain [OF assms(3) inv] by blast
  moreover have "cc_minimum_ttl chain' \<le> cc_minimum_ttl chain" unfolding p(2) by (rule foldr_min_le)
  moreover have "st = 1 \<longrightarrow> last (chain_names chain') = referral" unfolding p(1) using p(3) by auto
  ultimately show ?thesis using chain_current [OF r(1)] r(2) by metis
qed

text \<open>A response to a query for the A record of \<open>a.b\<close>: an alias to \<open>c.b\<close> and the address of \<open>c.b\<close>.\<close>

definition sample_name :: cstring where
  "sample_name = [0x61, 0x2e, 0x62]"

definition sample_response :: bytes where
  "sample_response = [0x12, 0x34, 0x81, 0x80, 0, 1, 0, 2, 0, 0, 0, 0, 1, 0x61, 1, 0x62, 0, 0, 1, 0, 1,
     0xc0, 12, 0, 5, 0, 1, 0, 0, 0, 60, 0, 4, 1, 0x63, 0xc0, 14,
     0xc0, 33, 0, 1, 0, 1, 0, 0, 1, 0x2c, 0, 4, 10, 0, 0, 1]"

definition sample_chain :: dns_cname_chain where
  "sample_chain = dns_empty_chain\<lparr>cc_names := sample_name # replicate 8 [], cc_minimum_ttl := UINT32_MAX\<rparr>"

lemma sample_chain_init: "dns_cname_chain_init sample_name = Some sample_chain"
  by code_simp

lemma sample_chain_inv: "chain_inv sample_chain"
  using chain_init_inv [OF sample_chain_init] by (simp add: sample_name_def)

definition sample_chain_after :: dns_cname_chain where
  "sample_chain_after = \<lparr>cc_hop_count = 1, cc_minimum_ttl = 60, cc_names = [sample_name, [0x63, 0x2e, 0x62]] @ replicate 7 []\<rparr>"

definition sample_answers :: dns_answer_set where
  "sample_answers = \<lparr>as_primary = dns_clear_answer\<lparr>an_type := 1, an_ttl := 60, an_address := [10, 0, 0, 1] @ zero_bytes 12\<rparr>,
     as_address_count = 1, as_addresses = ([10, 0, 0, 1] @ zero_bytes 12) # replicate 7 (zero_bytes 16)\<rparr>"

lemma sample_parse:
  "dns_parse_response_answers_chain sample_response 0x1234 sample_name 1 sample_chain 0 = (0, sample_chain_after, sample_answers, [])"
  by code_simp

theorem parse_response_success_witness:
  "\<exists>start stop rrs path.
     dns_parse_response_answers_chain sample_response 0x1234 sample_name 1 sample_chain 0 = (0, sample_chain_after, sample_answers, []) \<and>
     asked sample_response sample_name 1 start \<and>
     dns_records (take stop sample_response) 2 start = Some (rrs, stop) \<and>
     alias_path sample_response 1 rrs sample_name path \<and>
     answered sample_response 1 rrs (last (sample_name # map fst path)) 60 sample_answers \<and>
     addresses_of sample_answers = [[10, 0, 0, 1] @ zero_bytes 12]"
proof -
  have n: "unat (load_be16 (drop 6 sample_response)) = 2" by code_simp
  have "cc_minimum_ttl sample_chain_after = 60" "addresses_of sample_answers = [[10, 0, 0, 1] @ zero_bytes 12]"
    by (simp_all add: sample_chain_after_def sample_answers_def addresses_of_def)
  with parse_response_success [OF sample_parse sample_chain_inv] sample_parse n show ?thesis by metis
qed

text \<open>The same response under another transaction id.\<close>

lemma sample_refused:
  "dns_parse_response_answers_chain sample_response 0x1235 sample_name 1 sample_chain 0 =
    (-1, sample_chain, dns_clear_answer_set, [])"
  by code_simp

theorem parse_response_all_or_nothing_witness:
  "dns_parse_response_answers_chain sample_response 0x1235 sample_name 1 sample_chain 0 =
    (-1, sample_chain, dns_clear_answer_set, []) \<and> an_ttl (as_primary dns_clear_answer_set) = 0"
  using parse_response_all_or_nothing [OF sample_refused sample_chain_inv] sample_refused by simp

text \<open>The same query answered with the alias alone: a referral to \<open>c.b\<close>.\<close>

definition sample_referral :: bytes where
  "sample_referral = [0x12, 0x34, 0x81, 0x80, 0, 1, 0, 1, 0, 0, 0, 0, 1, 0x61, 1, 0x62, 0, 0, 1, 0, 1,
     0xc0, 12, 0, 5, 0, 1, 0, 0, 0, 60, 0, 4, 1, 0x63, 0xc0, 14]"

lemma sample_referred:
  "dns_parse_response_answers_chain sample_referral 0x1234 sample_name 1 sample_chain 256 =
    (1, sample_chain_after, dns_clear_answer_set, [0x63, 0x2e, 0x62])"
  by code_simp

theorem alias_chain_bounded_witness:
  "\<exists>chain'. dns_parse_response_answers_chain sample_referral 0x1234 sample_name 1 sample_chain 256 =
     (1, chain', dns_clear_answer_set, [0x63, 0x2e, 0x62]) \<and>
     hd (chain_names chain') = sample_name \<and> dns_cname_chain_current chain' = Some [0x63, 0x2e, 0x62]"
proof -
  have "chain_reached sample_name sample_chain" using sample_chain_init by (rule chain_reached.start)
  moreover have "0 \<notin> set sample_name" by (simp add: sample_name_def)
  ultimately show ?thesis using alias_chain_bounded [OF _ _ sample_referred] sample_referred by blast
qed
section \<open>The fixed arrays of an answer\<close>

definition answers_typed :: "dns_answer_set \<Rightarrow> bool" where
  "answers_typed answers = (length (as_addresses answers) = 8 \<and> list_all (\<lambda>a. length a = 16) (as_addresses answers) \<and>
     unat (as_address_count answers) \<le> 8 \<and> length (an_address (as_primary answers)) = 16 \<and>
     0 \<notin> set (an_name (as_primary answers)) \<and> length (an_name (as_primary answers)) \<le> 255)"

lemma store_address_typed:
  assumes "dns_store_address k p rr scan = Some scan'" and "answers_typed (sc_answer_set scan)" and "k \<le> 16"
  shows "answers_typed (sc_answer_set scan')"
proof -
  let ?as = "sc_answer_set scan" and ?data = "take k (drop (rr_data_position rr) p)"
  let ?n = "unat (as_address_count ?as)"
  let ?new = "?as\<lparr>as_addresses := (as_addresses ?as)[?n := byte_copy (as_addresses ?as ! ?n) 0 ?data],
    as_address_count := as_address_count ?as + 1\<rparr>"
  have n: "?n < 8" and t: "length (as_addresses ?as) = 8" "list_all (\<lambda>a. length a = 16) (as_addresses ?as)"
    "length (an_address (as_primary ?as)) = 16"
    using assms(1,2) by (auto simp: dns_store_address_def answers_typed_def Let_def split: if_splits)
  have copy: "length (byte_copy a 0 ?data) = 16" if "length a = 16" for a
    using that assms(3) by (simp add: length_byte_copy)
  have "as_addresses ?as ! ?n \<in> set (as_addresses ?as)" using n t(1) by simp
  then have "list_all (\<lambda>a. length a = 16) ((as_addresses ?as)[?n := byte_copy (as_addresses ?as ! ?n) 0 ?data])"
    using t(2) copy by (auto simp: list_all_iff dest!: set_update_subset_insert [THEN subsetD])
  moreover have "unat (as_address_count ?as + 1) \<le> 8" using n by (simp add: unat_word_ariths)
  ultimately have "answers_typed ?new" using t(1,3) assms(2) by (simp add: answers_typed_def)
  moreover have "sc_answer_set scan' = (if sc_result_found scan then ?new else ?new\<lparr>as_primary := (as_primary ?as)\<lparr>
      an_address := byte_copy (an_address (as_primary ?as)) 0 ?data\<rparr>\<rparr>)"
    using assms(1) by (auto simp: dns_store_address_def Let_def split: if_split_asm)
  ultimately show ?thesis using copy [OF t(3)] by (cases "sc_result_found scan") (simp_all add: answers_typed_def)
qed

lemma take_record_typed:
  assumes "take_record p ty ttl rr scan = Some scan'" and "answers_typed (sc_answer_set scan)"
  shows "answers_typed (sc_answer_set scan')"
proof -
  obtain mid name where m: "dns_scan_data p ty rr (scan\<lparr>sc_data_seen := True\<rparr>) = Some (mid, name)"
    and d: "dns_publish_data ty (if rr_ttl rr < ttl then rr_ttl rr else ttl) name mid = Some scan'"
    using assms(1) by (auto simp: take_record_def split: bind_splits)
  have mid: "answers_typed (sc_answer_set mid)" "0 \<notin> set name" "length name \<le> 255"
    using m assms(2) store_address_typed [of 4 p rr "scan\<lparr>sc_data_seen := True\<rparr>"]
      store_address_typed [of 16 p rr "scan\<lparr>sc_data_seen := True\<rparr>"] decoded_name_ok [of p "rr_data_position rr"]
    by (auto simp: dns_scan_data_def less_imp_le split: if_splits option.splits prod.splits)
  show ?thesis
    using d mid by (auto simp: dns_publish_data_def copy_name_iff answers_typed_def Let_def split: if_splits)
qed

lemma take_records_typed:
  "take_records p ty ttl rrs scan = Some scan' \<Longrightarrow> answers_typed (sc_answer_set scan) \<Longrightarrow> answers_typed (sc_answer_set scan')"
  by (induction rrs arbitrary: scan) (auto dest: take_record_typed split: bind_splits)

lemma clear_answers_typed: "answers_typed dns_clear_answer_set"
  by (simp add: answers_typed_def dns_clear_answer_set_def dns_clear_answer_def list_all_iff)

text \<open>C16: Whatever packet it is given, the response parser keeps to the fixed arrays of its results: eight
  addresses of sixteen bytes, of which at most eight are counted, a primary address of sixteen bytes and
  names that fit their 256 characters with the terminator; the chain keeps its nine entries.\<close>

theorem parse_response_typed:
  assumes "dns_parse_response_answers_chain p qid name ty chain cap = (st, chain', answers, referral)" and "chain_inv chain"
  shows "answers_typed answers \<and> length (cc_names chain') = 9 \<and> list_all (\<lambda>n. length n \<le> 255) (chain_names chain')"
proof
  show "answers_typed answers"
  proof (cases "st \<in> {-1, -5, -6, 4}")
    case True
    then show ?thesis using parse_chain_cases [OF assms(1)] clear_answers_typed by auto
  next
    case False
    then have s: "dns_parse_sections p name ty chain cap (load_be16 (drop 2 p) AND 0x000f) = Inr (st, referral, chain', answers)"
      and ty: "dns_type_supported ty"
      using parse_chain_cases [OF assms(1)] by auto
    from parse_sections_some [OF s assms(2) ty] obtain rrs path res a where
      f: "followed p ty rrs (first_resolution name chain) path res" and a: "answers = (rs_answer_set res)\<lparr>as_primary := a\<rparr>"
      "an_name a = an_name (as_primary (rs_answer_set res))" "an_address a = an_address (as_primary (rs_answer_set res))"
      by blast
    from f obtain scan scan' where "sc_answer_set scan = dns_clear_answer_set" "rs_answer_set res = sc_answer_set scan'"
      "take_records p ty (cc_minimum_ttl (rs_chain res)) (owned (rs_current_name res) ty rrs) scan = Some scan'"
      by (auto simp: followed_def first_resolution_def)
    then have "answers_typed (rs_answer_set res)" using take_records_typed clear_answers_typed by metis
    then show ?thesis by (simp add: a answers_typed_def)
  qed
  have "chain_inv chain'" using parse_response_chain [OF assms] by simp
  then show "length (cc_names chain') = 9 \<and> list_all (\<lambda>n. length n \<le> 255) (chain_names chain')"
    by (simp add: chain_inv_def name_ok_def list_all_iff)
qed

theorem parse_response_typed_witness:
  "dns_parse_response_answers_chain sample_response 0x1234 sample_name 1 sample_chain 0 = (0, sample_chain_after, sample_answers, []) \<and>
   answers_typed sample_answers"
  using parse_response_typed [OF sample_parse sample_chain_inv] sample_parse by simp

end
