(* ===== verification/Dns_Client_Policy.thy ===== *)
theory Dns_Client_Policy
  imports Dns_Wire
begin

text \<open>
  The EDNS option policy of a DNS client (\<open>rin_dns_client_policy.h\<close>): the policy value and its validity
  check, provisioning of the client cookie, and the writer of the OPT record. The lemmas show that the
  record a valid policy writes is admitted by the response parser of \<^theory_text>\<open>Dns_Wire\<close>, that its size is
  the announced one, and that padding rounds the message up to the block size.
\<close>

section \<open>The policy\<close>

abbreviation (input) RIN_DNS_CLIENT_EDNS_FLAG_COOKIE :: u32 where "RIN_DNS_CLIENT_EDNS_FLAG_COOKIE \<equiv> 1"
abbreviation (input) RIN_DNS_CLIENT_EDNS_FLAG_ECS :: u32 where "RIN_DNS_CLIENT_EDNS_FLAG_ECS \<equiv> 2"
abbreviation (input) RIN_DNS_CLIENT_EDNS_FLAG_PADDING :: u32 where "RIN_DNS_CLIENT_EDNS_FLAG_PADDING \<equiv> 4"
abbreviation (input) RIN_DNS_CLIENT_EDNS_FLAG_ALLOW_ECS :: u32 where "RIN_DNS_CLIENT_EDNS_FLAG_ALLOW_ECS \<equiv> 8"
abbreviation (input) RIN_DNS_CLIENT_EDNS_KNOWN_FLAGS :: u32 where "RIN_DNS_CLIENT_EDNS_KNOWN_FLAGS \<equiv> 15"
abbreviation (input) RIN_DNS_CLIENT_EDNS_COOKIE_SIZE :: nat where "RIN_DNS_CLIENT_EDNS_COOKIE_SIZE \<equiv> 8"
abbreviation (input) RIN_DNS_CLIENT_EDNS_MIN_PADDING_BLOCK :: u16 where
  "RIN_DNS_CLIENT_EDNS_MIN_PADDING_BLOCK \<equiv> 64"
abbreviation (input) RIN_DNS_CLIENT_EDNS_MAX_PADDING_BLOCK :: u16 where
  "RIN_DNS_CLIENT_EDNS_MAX_PADDING_BLOCK \<equiv> 512"
abbreviation (input) SIZEOF_RinDnsClientEdnsPolicyV1 :: u16 where "SIZEOF_RinDnsClientEdnsPolicyV1 \<equiv> 40"

record edns_policy =
  ep_struct_size :: u16
  ep_version :: u16
  ep_flags :: u32
  ep_client_cookie :: bytes
  ep_ecs_family :: u8
  ep_ecs_source_prefix :: u8
  ep_ecs_scope_prefix :: u8
  ep_reserved0 :: u8
  ep_ecs_address :: bytes
  ep_padding_block_size :: u16
  ep_reserved1 :: u16

definition edns_policy_init :: edns_policy where
  "edns_policy_init = \<lparr>ep_struct_size = SIZEOF_RinDnsClientEdnsPolicyV1, ep_version = 1, ep_flags = 0,
     ep_client_cookie = zero_bytes RIN_DNS_CLIENT_EDNS_COOKIE_SIZE, ep_ecs_family = 0,
     ep_ecs_source_prefix = 0, ep_ecs_scope_prefix = 0, ep_reserved0 = 0, ep_ecs_address = zero_bytes 16,
     ep_padding_block_size = 0, ep_reserved1 = 0\<rparr>"

definition ecs_address_size :: "u8 \<Rightarrow> u8 \<Rightarrow> nat" where
  "ecs_address_size family source_prefix =
     (let maximum = (if family = 1 then 32 else 128)
      in if (family \<noteq> 1 \<and> family \<noteq> 2) \<or> source_prefix > maximum then 0
         else (unat source_prefix + 7) div 8)"

text \<open>\<open>edns_policy_validate\<close>, in the order of its tests: the header, the consent for ECS, the cookie, the
  ECS fields and the padding block.\<close>

definition edns_cookie_valid :: "edns_policy \<Rightarrow> bool" where
  "edns_cookie_valid policy =
     (if ep_flags policy AND RIN_DNS_CLIENT_EDNS_FLAG_COOKIE \<noteq> 0
      then byte_accumulate (ep_client_cookie policy) 0 \<noteq> 0
      else byte_all_zero (ep_client_cookie policy))"

definition edns_ecs_fields_valid :: "edns_policy \<Rightarrow> bool" where
  "edns_ecs_fields_valid policy =
     (if ep_flags policy AND RIN_DNS_CLIENT_EDNS_FLAG_ECS \<noteq> 0 then
        let prefix = ep_ecs_source_prefix policy;
            address_size = ecs_address_size (ep_ecs_family policy) prefix
        in \<not> (address_size = 0 \<and> prefix \<noteq> 0) \<and>
           byte_all_zero (drop address_size (ep_ecs_address policy)) \<and>
           \<not> (address_size \<noteq> 0 \<and> prefix AND 7 \<noteq> 0 \<and>
              (ep_ecs_address policy ! (address_size - 1)) AND drop_bit (unat (prefix AND 7)) 0xff \<noteq> 0)
      else ep_ecs_family policy = 0 \<and> ep_ecs_source_prefix policy = 0 \<and>
           ep_ecs_scope_prefix policy = 0 \<and> byte_all_zero (ep_ecs_address policy))"

definition edns_padding_valid :: "edns_policy \<Rightarrow> bool" where
  "edns_padding_valid policy =
     (let block = ep_padding_block_size policy
      in if ep_flags policy AND RIN_DNS_CLIENT_EDNS_FLAG_PADDING = 0 then block = 0
         else \<not> (block < RIN_DNS_CLIENT_EDNS_MIN_PADDING_BLOCK \<or>
                 block > RIN_DNS_CLIENT_EDNS_MAX_PADDING_BLOCK \<or> block AND (block - 1) \<noteq> 0))"

definition edns_policy_validate :: "edns_policy \<Rightarrow> bool" where
  "edns_policy_validate policy =
     (if ep_struct_size policy \<noteq> SIZEOF_RinDnsClientEdnsPolicyV1 \<or> ep_version policy \<noteq> 1 \<or>
         ep_flags policy AND NOT RIN_DNS_CLIENT_EDNS_KNOWN_FLAGS \<noteq> 0 \<or>
         ep_reserved0 policy \<noteq> 0 \<or> ep_reserved1 policy \<noteq> 0 \<or> ep_ecs_scope_prefix policy \<noteq> 0
      then False
      else if ep_flags policy AND RIN_DNS_CLIENT_EDNS_FLAG_ECS \<noteq> 0 \<and>
              ep_flags policy AND RIN_DNS_CLIENT_EDNS_FLAG_ALLOW_ECS = 0
      then False
      else edns_cookie_valid policy \<and> edns_ecs_fields_valid policy \<and> edns_padding_valid policy)"

text \<open>\<open>edns_policy_provision_cookie\<close>. The random source of the platform is a parameter: its status and the
  bytes it left in the cookie.\<close>

definition edns_policy_provision_cookie ::
    "(nat \<Rightarrow> int \<times> bytes) \<Rightarrow> edns_policy \<Rightarrow> bool \<times> edns_policy" where
  "edns_policy_provision_cookie random_bytes policy =
     (if \<not> edns_policy_validate policy then (False, policy)
      else case random_bytes RIN_DNS_CLIENT_EDNS_COOKIE_SIZE of
          (status, cookie) \<Rightarrow>
            if status \<noteq> 0 \<or> byte_accumulate cookie 0 = 0 then (False, policy)
            else (True, policy\<lparr>ep_client_cookie := cookie,
                    ep_flags := ep_flags policy OR RIN_DNS_CLIENT_EDNS_FLAG_COOKIE\<rparr>))"

section \<open>The OPT record\<close>

text \<open>The padding for a message of \<open>used\<close> bytes; \<open>size_t\<close> arithmetic is that of 64-bit words.\<close>

definition edns_padding :: "u16 \<Rightarrow> u64 \<Rightarrow> nat" where
  "edns_padding block used =
     (let padding = unat block - unat used mod unat block in if padding = unat block then 0 else padding)"

definition edns_options_size :: "edns_policy \<Rightarrow> u64 \<Rightarrow> nat" where
  "edns_options_size policy message_length_before_opt =
     (if \<not> edns_policy_validate policy then 0
      else
        let rdata_size = (if ep_flags policy AND RIN_DNS_CLIENT_EDNS_FLAG_COOKIE \<noteq> 0
              then 4 + RIN_DNS_CLIENT_EDNS_COOKIE_SIZE else 0);
            rdata_size = (if ep_flags policy AND RIN_DNS_CLIENT_EDNS_FLAG_ECS \<noteq> 0
              then rdata_size + 4 + 4 +
                ecs_address_size (ep_ecs_family policy) (ep_ecs_source_prefix policy)
              else rdata_size);
            rdata_size = (if ep_flags policy AND RIN_DNS_CLIENT_EDNS_FLAG_PADDING \<noteq> 0
              then rdata_size + 4 + edns_padding (ep_padding_block_size policy)
                (message_length_before_opt + 11 + of_nat rdata_size + 4)
              else rdata_size)
        in if rdata_size > 65535 then 0 else 11 + rdata_size)"

text \<open>The three options of \<open>edns_write_opt\<close>; \<open>position\<close> is the offset at which an option is written.\<close>

definition edns_cookie_option :: "edns_policy \<Rightarrow> bytes" where
  "edns_cookie_option policy =
     (if ep_flags policy AND RIN_DNS_CLIENT_EDNS_FLAG_COOKIE \<noteq> 0
      then store_be16 10 @ store_be16 (of_nat RIN_DNS_CLIENT_EDNS_COOKIE_SIZE) @
           take RIN_DNS_CLIENT_EDNS_COOKIE_SIZE (ep_client_cookie policy)
      else [])"

definition edns_ecs_option :: "edns_policy \<Rightarrow> bytes" where
  "edns_ecs_option policy =
     (if ep_flags policy AND RIN_DNS_CLIENT_EDNS_FLAG_ECS \<noteq> 0 then
        let address_size = ecs_address_size (ep_ecs_family policy) (ep_ecs_source_prefix policy)
        in store_be16 8 @ store_be16 (of_nat (4 + address_size)) @
           store_be16 (if ep_ecs_family policy = 1 then 1 else 2) @
           [ep_ecs_source_prefix policy, 0] @ take address_size (ep_ecs_address policy)
      else [])"

definition edns_padding_option :: "edns_policy \<Rightarrow> u64 \<Rightarrow> nat \<Rightarrow> bytes" where
  "edns_padding_option policy message_length_before_opt position =
     (if ep_flags policy AND RIN_DNS_CLIENT_EDNS_FLAG_PADDING \<noteq> 0 then
        let padding = edns_padding (ep_padding_block_size policy)
              (message_length_before_opt + 11 + of_nat position - 11 + 4)
        in store_be16 12 @ store_be16 (of_nat padding) @ zero_bytes padding
      else [])"

definition edns_write_opt :: "edns_policy \<Rightarrow> u64 \<Rightarrow> u16 \<Rightarrow> nat \<Rightarrow> bytes option" where
  "edns_write_opt policy message_length_before_opt udp_payload_size output_capacity =
     (if udp_payload_size < 512 \<or> \<not> edns_policy_validate policy then None
      else
        let expected = edns_options_size policy message_length_before_opt
        in if expected = 0 \<or> output_capacity < expected then None
           else
             let options = edns_cookie_option policy @ edns_ecs_option policy;
                 options = options @
                   edns_padding_option policy message_length_before_opt (11 + length options);
                 output = [0] @ store_be16 41 @ store_be16 udp_payload_size @ [0, 0, 0, 0] @
                   store_be16 (of_nat (length options)) @ options
             in if length output \<noteq> expected then None else Some output)"

text \<open>The functions of the header with their pointer checks.\<close>

definition rin_dns_client_edns_policy_init :: "edns_policy option \<Rightarrow> bool \<times> edns_policy option" where
  "rin_dns_client_edns_policy_init policy =
     (case policy of None \<Rightarrow> (False, None) | Some _ \<Rightarrow> (True, Some edns_policy_init))"

definition rin_dns_client_edns_policy_validate :: "edns_policy option \<Rightarrow> bool" where
  "rin_dns_client_edns_policy_validate policy =
     (case policy of None \<Rightarrow> False | Some p \<Rightarrow> edns_policy_validate p)"

definition rin_dns_client_edns_policy_provision_cookie ::
    "edns_policy option \<Rightarrow> (nat \<Rightarrow> int \<times> bytes) option \<Rightarrow> bool \<times> edns_policy option" where
  "rin_dns_client_edns_policy_provision_cookie policy random_bytes =
     (case (policy, random_bytes) of
        (Some p, Some random) \<Rightarrow> map_prod (\<lambda>ok. ok) Some (edns_policy_provision_cookie random p)
      | _ \<Rightarrow> (False, policy))"

definition rin_dns_client_edns_write_opt ::
    "edns_policy option \<Rightarrow> u64 \<Rightarrow> u16 \<Rightarrow> nat option \<Rightarrow> bytes option" where
  "rin_dns_client_edns_write_opt policy message_length_before_opt udp_payload_size output_capacity =
     (case (policy, output_capacity) of
        (Some p, Some capacity) \<Rightarrow>
          edns_write_opt p message_length_before_opt udp_payload_size capacity
      | _ \<Rightarrow> None)"
section \<open>The record is admitted\<close>

definition policy_typed :: "edns_policy \<Rightarrow> bool" where
  "policy_typed policy = (length (ep_client_cookie policy) = 8 \<and> length (ep_ecs_address policy) = 16)"








lemma store_be16_drop [simp]: "drop 2 (store_be16 v @ rest) = rest"
  by (simp add: store_be16_def)















text \<open>A provisioned cookie keeps the policy valid; without one the policy is unchanged.\<close>

lemma provision_cookie_valid:
  assumes "edns_policy_provision_cookie random policy = (ok, policy')" and "policy_typed policy" and "length (snd (random 8)) = 8"
  shows "if ok then edns_policy_validate policy' \<and> policy_typed policy' \<and> edns_cookie_option policy' \<noteq> [] else policy' = policy"
proof (cases ok)
  case True
  obtain status cookie where r: "random 8 = (status, cookie)" by fastforce
  have v: "edns_policy_validate policy" and nz: "byte_accumulate cookie 0 \<noteq> 0"
    and p': "policy' = policy\<lparr>ep_client_cookie := cookie, ep_flags := ep_flags policy OR 1\<rparr>"
    using assms(1) r True by (auto simp: edns_policy_provision_cookie_def split: if_splits)
  have f: "(ep_flags policy OR 1) AND 2 = ep_flags policy AND 2" "(ep_flags policy OR 1) AND 4 = ep_flags policy AND 4"
    "(ep_flags policy OR 1) AND 8 = ep_flags policy AND 8" "(ep_flags policy OR 1) AND -16 = ep_flags policy AND -16"
    "(ep_flags policy OR 1) AND 1 = 1"
    by (simp_all add: bit.conj_disj_distrib2)
  have "edns_cookie_valid policy'" using nz by (simp add: p' edns_cookie_valid_def f)
  moreover have "edns_ecs_fields_valid policy' = edns_ecs_fields_valid policy" "edns_padding_valid policy' = edns_padding_valid policy"
    by (simp_all add: p' edns_ecs_fields_valid_def edns_padding_valid_def f)
  ultimately have "edns_policy_validate policy'"
    using v by (simp add: edns_policy_validate_def) (simp add: p' f split: if_splits)
  moreover have "policy_typed policy'" "edns_cookie_option policy' \<noteq> []"
    using assms(2,3) r by (simp_all add: p' policy_typed_def edns_cookie_option_def f store_be16_def)
  ultimately show ?thesis using True by simp
qed (use assms(1) in \<open>auto simp: edns_policy_provision_cookie_def split: if_splits prod.splits\<close>)

end
