(* ===== verification/Dns_Transport.thy ===== *)
theory Dns_Transport
  imports Rin_Prelude
begin

text \<open>
  The DNS transport boundary (\<open>dns_transport.hpp\<close>): the endpoint with its validation and canonical form, and
  the session that hands one query at a time to a backend. The backend is not part of the repository: it is a
  parameter, a function that may also call back into the session. Whether memory suffices is a parameter of
  the operations that allocate. The lemmas show which endpoints are accepted, that a built endpoint is in
  canonical form, and that an exchange publishes either a whole response or zeros.
\<close>

section \<open>Endpoints\<close>

abbreviation (input) DnsTransportKind_Udp :: u8 where "DnsTransportKind_Udp \<equiv> 1"
abbreviation (input) DnsTransportKind_Tcp :: u8 where "DnsTransportKind_Tcp \<equiv> 2"
abbreviation (input) DnsTransportKind_Dot :: u8 where "DnsTransportKind_Dot \<equiv> 3"
abbreviation (input) DnsTransportKind_Doh :: u8 where "DnsTransportKind_Doh \<equiv> 4"
abbreviation (input) kMaxAuthorityBytes :: nat where "kMaxAuthorityBytes \<equiv> 253"
abbreviation (input) kMaxLabelBytes :: nat where "kMaxLabelBytes \<equiv> 63"
abbreviation (input) kMaxHttpPathBytes :: nat where "kMaxHttpPathBytes \<equiv> 256"

record dns_endpoint =
  de_kind :: u8
  de_authority :: bytes
  de_port :: u16
  de_network_generation :: u64
  de_namespace_generation :: u64
  de_namespace_id :: bytes
  de_http_path :: bytes

definition default_endpoint :: dns_endpoint where
  "default_endpoint = \<lparr>de_kind = DnsTransportKind_Udp, de_authority = [], de_port = 0, de_network_generation = 0,
     de_namespace_generation = 0, de_namespace_id = zero_bytes 16, de_http_path = []\<rparr>"

definition valid_kind :: "u8 \<Rightarrow> bool" where
  "valid_kind kind = (kind = DnsTransportKind_Udp \<or> kind = DnsTransportKind_Tcp \<or>
     kind = DnsTransportKind_Dot \<or> kind = DnsTransportKind_Doh)"

definition byte_alpha :: "u8 \<Rightarrow> bool" where
  "byte_alpha byte = ((byte \<ge> 0x61 \<and> byte \<le> 0x7a) \<or> (byte \<ge> 0x41 \<and> byte \<le> 0x5a))"

definition byte_digit :: "u8 \<Rightarrow> bool" where
  "byte_digit byte = (byte \<ge> 0x30 \<and> byte \<le> 0x39)"

definition byte_lower :: "u8 \<Rightarrow> u8" where
  "byte_lower byte = (if byte_alpha byte \<and> byte \<ge> 0x41 \<and> byte \<le> 0x5a then byte - 0x41 + 0x61 else byte)"

text \<open>The loop of \<open>validAuthority\<close>; \<open>previous\<close> is the byte before the rest of the text.\<close>

fun authority_scan :: "u8 \<Rightarrow> bytes \<Rightarrow> nat \<Rightarrow> bytes \<Rightarrow> bytes option" where
  "authority_scan previous [] label_length canonical =
     (if label_length \<noteq> 0 then Some canonical else None)"
| "authority_scan previous (byte # rest) label_length canonical =
     (if byte = 0x2e then
        (if label_length = 0 \<or> previous = 0x2d then None
         else authority_scan byte rest 0 (canonical @ [0x2e]))
      else if (\<not> byte_alpha byte \<and> \<not> byte_digit byte \<and> byte \<noteq> 0x2d) \<or> (label_length = 0 \<and> byte = 0x2d) then None
      else if label_length + 1 > kMaxLabelBytes then None
      else if rest = [] \<and> byte = 0x2d then None
      else authority_scan byte rest (label_length + 1) (canonical @ [byte_lower byte]))"

definition valid_authority :: "bytes \<Rightarrow> bytes option" where
  "valid_authority authority =
     (if authority = [] \<or> length authority > kMaxAuthorityBytes then None
      else authority_scan 0 authority 0 [])"

fun has_double_slash :: "bytes \<Rightarrow> bool" where
  "has_double_slash (a # b # rest) = (a = 0x2f \<and> b = 0x2f \<or> has_double_slash (b # rest))"
| "has_double_slash _ = False"

text \<open>The loop over the segments of a path; the length of a segment is a \<open>size_t\<close> difference, which wraps
  around at the leading slash.\<close>

function path_segments_ok :: "bytes \<Rightarrow> nat \<Rightarrow> nat \<Rightarrow> bool" where
  "path_segments_ok path index segment_start =
     (if index > length path then True
      else if index \<noteq> length path \<and> path ! index \<noteq> 0x2f then path_segments_ok path (index + 1) segment_start
      else
        let segment_length = of_nat index - of_nat segment_start :: u64
        in if segment_length = 1 \<and> path ! segment_start = 0x2e \<or>
              segment_length = 2 \<and> path ! segment_start = 0x2e \<and> path ! (segment_start + 1) = 0x2e
           then False
           else path_segments_ok path (index + 1) (index + 1))"
  by pat_completeness auto
termination
  by (relation "measure (\<lambda>(path, index, _). length path + 1 - index)") auto

declare path_segments_ok.simps [simp del]

definition path_byte_ok :: "u8 \<Rightarrow> bool" where
  "path_byte_ok byte = (\<not> (byte \<le> 0x20 \<or> byte \<ge> 0x7f \<or> byte = 0x3f \<or> byte = 0x23 \<or> byte = 0x5c \<or> byte = 0x25))"

definition valid_http_path :: "bytes \<Rightarrow> bool" where
  "valid_http_path path =
     (if path = [] \<or> length path > kMaxHttpPathBytes \<or> hd path \<noteq> 0x2f \<or> has_double_slash path then False
      else path_segments_ok path 0 1 \<and> list_all path_byte_ok path)"

definition default_http_path :: bytes where
  "default_http_path = [0x2f, 0x64, 0x6e, 0x73, 0x2d, 0x71, 0x75, 0x65, 0x72, 0x79]"

definition endpoint_build ::
    "bool \<Rightarrow> u8 \<Rightarrow> bytes \<Rightarrow> u16 \<Rightarrow> u64 \<Rightarrow> u64 \<Rightarrow> bytes \<Rightarrow> bytes \<Rightarrow> dns_endpoint option" where
  "endpoint_build memory kind authority port network_generation namespace_generation namespace_id http_path =
     (if \<not> memory \<or> \<not> valid_kind kind then None
      else case valid_authority authority of
          None \<Rightarrow> None
        | Some canonical_authority \<Rightarrow>
            if port = 0 \<or> network_generation = 0 \<or> network_generation = UINT64_MAX \<or>
               namespace_generation = 0 \<or> namespace_generation = UINT64_MAX \<or> byte_all_zero namespace_id
            then None
            else
              let candidate = \<lparr>de_kind = kind, de_authority = canonical_authority, de_port = port,
                    de_network_generation = network_generation,
                    de_namespace_generation = namespace_generation, de_namespace_id = namespace_id,
                    de_http_path = []\<rparr>
              in if kind = DnsTransportKind_Doh then
                   (let path = (if http_path = [] then default_http_path else http_path)
                    in if \<not> valid_http_path path then None else Some (candidate\<lparr>de_http_path := path\<rparr>))
                 else if http_path \<noteq> [] then None
                 else Some candidate)"

definition endpoint_valid :: "bool \<Rightarrow> dns_endpoint \<Rightarrow> bool" where
  "endpoint_valid memory ep =
     (case endpoint_build memory (de_kind ep) (de_authority ep) (de_port ep) (de_network_generation ep)
             (de_namespace_generation ep) (de_namespace_id ep) (de_http_path ep) of
        None \<Rightarrow> False
      | Some canonical \<Rightarrow>
          de_kind canonical = de_kind ep \<and> de_authority canonical = de_authority ep \<and>
          de_port canonical = de_port ep \<and> de_network_generation canonical = de_network_generation ep \<and>
          de_namespace_generation canonical = de_namespace_generation ep \<and>
          de_namespace_id canonical = de_namespace_id ep \<and> de_http_path canonical = de_http_path ep)"

definition endpoint_encrypted :: "dns_endpoint \<Rightarrow> bool" where
  "endpoint_encrypted ep = (de_kind ep = DnsTransportKind_Dot \<or> de_kind ep = DnsTransportKind_Doh)"

section \<open>Sessions\<close>

abbreviation (input) kMaxQueryBytes :: nat where "kMaxQueryBytes \<equiv> 1232"
abbreviation (input) kMaxResponseBytes :: nat where "kMaxResponseBytes \<equiv> 4096"

text \<open>The type parameter is the backend: the exchange function with its context.\<close>

record 'b dns_session =
  ds_endpoint :: dns_endpoint
  ds_exchange :: "'b option"
  ds_in_flight :: bool
  ds_bound :: bool

definition initial_session :: "'b dns_session" where
  "initial_session = \<lparr>ds_endpoint = default_endpoint, ds_exchange = None, ds_in_flight = False, ds_bound = False\<rparr>"

text \<open>\<open>bind\<close>: \<^const>\<open>None\<close> as the backend is a null function or a null context.\<close>

definition session_bind :: "bool \<Rightarrow> dns_endpoint \<Rightarrow> 'b option \<Rightarrow> 'b dns_session \<Rightarrow> bool \<times> 'b dns_session" where
  "session_bind memory ep backend session =
     (if ds_bound session \<or> backend = None \<or> \<not> endpoint_valid memory ep then (False, session)
      else (True, session\<lparr>ds_endpoint := ep, ds_exchange := backend, ds_bound := True\<rparr>))"

text \<open>\<open>byteRangesOverlap\<close>: a range is an address with a size, \<^const>\<open>None\<close> a null pointer.\<close>

definition byte_ranges_overlap :: "(u64 \<times> u64) option \<Rightarrow> (u64 \<times> u64) option \<Rightarrow> bool" where
  "byte_ranges_overlap left right =
     (case (left, right) of
        (Some (left_begin, left_size), Some (right_begin, right_size)) \<Rightarrow>
          if left_size = 0 \<or> right_size = 0 then False
          else if left_begin > UINT64_MAX - left_size \<or> right_begin > UINT64_MAX - right_size then True
          else left_begin < right_begin + right_size \<and> right_begin < left_begin + left_size
      | _ \<Rightarrow> False)"

text \<open>What one call of the backend does: it throws, or returns a status with the bytes it left in the
  response buffer and the count it reported.\<close>

datatype exchange_outcome = Thrown bytes | Returned int bytes nat

definition range_of :: "(u64 \<times> bytes) option \<Rightarrow> (u64 \<times> u64) option" where
  "range_of buffer = map_option (\<lambda>(address, data). (address, of_nat (length data))) buffer"

definition fail_response :: "(u64 \<times> bytes) option \<Rightarrow> bytes" where
  "fail_response response =
     (case response of None \<Rightarrow> []
      | Some (_, data) \<Rightarrow> if length data \<le> kMaxResponseBytes then zero_bytes (length data) else data)"

definition buffer_data :: "(u64 \<times> bytes) option \<Rightarrow> bytes" where
  "buffer_data buffer = (case buffer of None \<Rightarrow> [] | Some (_, data) \<Rightarrow> data)"

text \<open>\<open>exchange\<close>: a buffer is its address with its bytes, the response length is given by its address. The
  result has the new session, the bytes in the response buffer and the response length if it was written.
  \<open>invoke\<close> runs the backend on the session, which it may use and change.\<close>

definition session_exchange ::
    "('b \<Rightarrow> dns_endpoint \<Rightarrow> bytes \<Rightarrow> nat \<Rightarrow> 'b dns_session \<Rightarrow> exchange_outcome \<times> 'b dns_session) \<Rightarrow>
     (u64 \<times> bytes) option \<Rightarrow> (u64 \<times> bytes) option \<Rightarrow> u64 option \<Rightarrow> 'b dns_session \<Rightarrow>
     bool \<times> 'b dns_session \<times> bytes \<times> nat option" where
  "session_exchange invoke query response response_length session =
     (if ds_in_flight session then (False, session, buffer_data response, None)
      else if byte_ranges_overlap (range_of query) (range_of response) \<or>
              byte_ranges_overlap (range_of query) (map_option (\<lambda>a. (a, 8)) response_length) \<or>
              byte_ranges_overlap (range_of response) (map_option (\<lambda>a. (a, 8)) response_length)
      then (False, session, buffer_data response, None)
      else case (ds_exchange session, query, response, response_length) of
          (Some backend, Some (_, query_data), Some (_, response_data), Some _) \<Rightarrow>
            if \<not> ds_bound session \<or> query_data = [] \<or> length query_data > kMaxQueryBytes \<or>
               response_data = [] \<or> length response_data > kMaxResponseBytes
            then (False, session, fail_response response, Some 0)
            else
              let capacity = length response_data;
                  (outcome, session') = invoke backend (ds_endpoint session) query_data capacity
                    (session\<lparr>ds_in_flight := True\<rparr>);
                  session' = session'\<lparr>ds_in_flight := False\<rparr>
              in (case outcome of
                    Thrown data \<Rightarrow> (False, session', zero_bytes capacity, Some 0)
                  | Returned result data written \<Rightarrow>
                      if result \<noteq> 0 \<or> written = 0 \<or> written > capacity
                      then (False, session', zero_bytes capacity, Some 0)
                      else (True, session', data, Some written))
        | _ \<Rightarrow> (False, session, fail_response response, map_option (\<lambda>_. 0) response_length))"

definition session_reset :: "'b dns_session \<Rightarrow> 'b dns_session" where
  "session_reset session = initial_session"
section \<open>Accepted endpoints\<close>

fun split_on :: "u8 \<Rightarrow> bytes \<Rightarrow> bytes list" where
  "split_on c [] = [[]]"
| "split_on c (b # bs) = (if b = c then [] # split_on c bs else (b # hd (split_on c bs)) # tl (split_on c bs))"

lemma split_on_not_nil [simp]: "split_on c bs \<noteq> []"
  by (cases bs) auto

lemma split_on_list_all: "list_all P (split_on c bs) = (P (hd (split_on c bs)) \<and> list_all P (tl (split_on c bs)))"
  by (cases "split_on c bs") simp_all

definition ldh :: "u8 \<Rightarrow> bool" where
  "ldh b = (byte_alpha b \<or> byte_digit b \<or> b = 0x2d)"

text \<open>A label of a host name: letters, digits and inner hyphens, at most 63 of them.\<close>

definition host_label :: "bytes \<Rightarrow> bool" where
  "host_label l = (l \<noteq> [] \<and> length l \<le> 63 \<and> list_all ldh l \<and> hd l \<noteq> 0x2d \<and> last l \<noteq> 0x2d)"

lemma byte_lower_other [simp]: "byte_lower 0x2e = 0x2e" "byte_lower 0x2d = 0x2d"
  by (simp_all add: byte_lower_def)

lemma authority_scan_iff:
  assumes "length lab = n" "n \<le> 63" "list_all ldh lab" "lab \<noteq> [] \<longrightarrow> hd lab \<noteq> 0x2d \<and> prev = last lab"
    "bs = [] \<longrightarrow> lab \<noteq> [] \<longrightarrow> last lab \<noteq> 0x2d"
  shows "authority_scan prev bs n can =
    (if host_label (lab @ hd (split_on 0x2e bs)) \<and> list_all host_label (tl (split_on 0x2e bs))
     then Some (can @ map byte_lower bs) else None)"
  using assms
proof (induction bs arbitrary: lab prev n can)
  case Nil
  then show ?case by (auto simp: host_label_def)
next
  case (Cons b bs)
  show ?case
  proof (cases "b = 0x2e")
    case True
    have "host_label lab = (n \<noteq> 0 \<and> prev \<noteq> 0x2d)" using Cons.prems by (auto simp: host_label_def)
    moreover have "authority_scan b bs 0 (can @ [0x2e]) = (if list_all host_label (split_on 0x2e bs)
        then Some (can @ 0x2e # map byte_lower bs) else None)"
      using Cons.IH [of "[]" 0 b "can @ [0x2e]"] by (simp add: split_on_list_all)
    ultimately show ?thesis using True by (simp add: split_on_list_all)
  next
    case False
    let ?seg = "lab @ b # hd (split_on 0x2e bs)"
    have ldh: "list_all ldh ?seg \<Longrightarrow> ldh b" by simp
    consider "\<not> ldh b" | "lab = []" "b = 0x2d" | "n + 1 > 63" | "bs = []" "b = 0x2d"
      | "ldh b" "\<not> (lab = [] \<and> b = 0x2d)" "n + 1 \<le> 63" "\<not> (bs = [] \<and> b = 0x2d)" by linarith
    then show ?thesis
    proof cases
      case 5
      then have "authority_scan prev (b # bs) n can = authority_scan b bs (n + 1) (can @ [byte_lower b])"
        using False Cons.prems(1) by (auto simp: ldh_def)
      also have "\<dots> = (if host_label ((lab @ [b]) @ hd (split_on 0x2e bs)) \<and> list_all host_label (tl (split_on 0x2e bs))
          then Some ((can @ [byte_lower b]) @ map byte_lower bs) else None)"
        using Cons.prems 5 by (intro Cons.IH) (auto simp: hd_append)
      finally show ?thesis using False by simp
    qed (use False Cons.prems(1) in \<open>auto simp: host_label_def ldh_def\<close>)
  qed
qed

lemma valid_authority_iff:
  "valid_authority v = (if length v \<le> 253 \<and> list_all host_label (split_on 0x2e v) then Some (map byte_lower v) else None)"
proof (cases "v = []")
  case False
  have "authority_scan 0 v 0 [] = (if list_all host_label (split_on 0x2e v) then Some (map byte_lower v) else None)"
    using authority_scan_iff [of "[]" 0 0 v "[]"] by (simp add: split_on_list_all)
  with False show ?thesis by (simp add: valid_authority_def)
qed (simp add: valid_authority_def host_label_def)

lemma ldh_unat: "ldh b = (unat b \<in> {0x61..0x7a} \<or> unat b \<in> {0x41..0x5a} \<or> unat b \<in> {0x30..0x39} \<or> unat b = 0x2d)"
  by (auto simp: ldh_def byte_alpha_def byte_digit_def word_le_nat_alt unat_eq_nat_uint [symmetric] word_unat_eq_iff)

lemma unat_lower: "unat (byte_lower b) = (if unat b \<in> {0x41..0x5a} then unat b + 0x20 else unat b)"
  by (auto simp: byte_lower_def byte_alpha_def word_le_nat_alt unat_word_ariths unat_sub)

lemma lower_class: "ldh (byte_lower b) = ldh b" "byte_lower b = 0x2e \<longleftrightarrow> b = 0x2e" "byte_lower b = 0x2d \<longleftrightarrow> b = 0x2d"
    "byte_lower (byte_lower b) = byte_lower b"
  by (auto simp: ldh_unat unat_lower word_unat_eq_iff)

lemma split_on_lower: "split_on 0x2e (map byte_lower v) = map (map byte_lower) (split_on 0x2e v)"
  by (induction v) (auto simp: lower_class list.map_sel)

lemma host_label_lower: "host_label (map byte_lower l) = host_label l"
  by (cases "l = []") (simp_all add: host_label_def lower_class list_all_iff hd_map last_map)

lemma valid_authority_lower:
  "valid_authority v = Some c \<Longrightarrow> valid_authority c = Some c"
  by (auto simp: valid_authority_iff split_on_lower host_label_lower list_all_iff lower_class split: if_splits)

definition dots :: "bytes \<Rightarrow> bool" where
  "dots segment = (segment = [0x2e] \<or> segment = [0x2e, 0x2e])"

lemma dots_iff:
  assumes "s + n \<le> length path" "length path < 2 ^ 32"
  shows "dots (take n (drop s path)) =
    (of_nat (s + n) - of_nat s = (1 :: u64) \<and> path ! s = 0x2e \<or>
     of_nat (s + n) - of_nat s = (2 :: u64) \<and> path ! s = 0x2e \<and> path ! (s + 1) = 0x2e)"
proof -
  have "unat (of_nat n :: u64) = n" using assms by (simp add: unat_of_nat)
  then have n: "of_nat (s + n) - of_nat s = (1 :: u64) \<longleftrightarrow> n = 1" "of_nat (s + n) - of_nat s = (2 :: u64) \<longleftrightarrow> n = 2"
    by (simp_all add: word_unat_eq_iff)
  have "take n (drop s path) = [0x2e] \<longleftrightarrow> n = 1 \<and> path ! s = 0x2e"
    using assms(1) by (auto simp: list_eq_iff_nth_eq)
  moreover have "take n (drop s path) = [0x2e, 0x2e] \<longleftrightarrow> n = 2 \<and> path ! s = 0x2e \<and> path ! (s + 1) = 0x2e"
    using assms(1) by (auto simp: list_eq_iff_nth_eq less_2_cases_iff nth_Cons')
  ultimately show ?thesis using n by (auto simp: dots_def)
qed

lemma path_segments_iff:
  assumes "s \<le> i" "i \<le> length path" "length path < 2 ^ 32"
  shows "path_segments_ok path i s =
    (\<not> dots (take (i - s) (drop s path) @ hd (split_on 0x2f (drop i path))) \<and>
     list_all (\<lambda>seg. \<not> dots seg) (tl (split_on 0x2f (drop i path))))"
  using assms
proof (induction "length path - i" arbitrary: i s)
  case 0
  then have i: "i = length path" by simp
  have "path_segments_ok path (Suc i) (Suc i)" by (simp add: i path_segments_ok.simps)
  then show ?case
    using dots_iff [of s "i - s" path] 0 by (simp add: i path_segments_ok.simps [of path "length path" s] Let_def)
next
  case (Suc k)
  then have lt: "i < length path" and d: "drop i path = path ! i # drop (i + 1) path" by (simp_all add: Cons_nth_drop_Suc)
  have app: "take (Suc i - s) (drop s path) = take (i - s) (drop s path) @ [path ! i]"
    using Suc.prems(1) lt by (simp add: Suc_diff_le take_Suc_conv_app_nth)
  show ?case
  proof (cases "path ! i = 0x2f")
    case True
    have "path_segments_ok path (i + 1) (i + 1) = list_all (\<lambda>seg. \<not> dots seg) (split_on 0x2f (drop (i + 1) path))"
      using Suc(1) [of "i + 1" "i + 1"] Suc(2-) lt by (simp add: split_on_list_all)
    then show ?thesis
      using True dots_iff [of s "i - s" path] Suc.prems lt
      by (simp add: path_segments_ok.simps [of path i s] d split_on_list_all Let_def)
  next
    case False
    then have "path_segments_ok path i s = path_segments_ok path (i + 1) s"
      using lt by (simp add: path_segments_ok.simps [of path i s])
    also have "\<dots> = (\<not> dots (take (i + 1 - s) (drop s path) @ hd (split_on 0x2f (drop (i + 1) path))) \<and>
       list_all (\<lambda>seg. \<not> dots seg) (tl (split_on 0x2f (drop (i + 1) path))))"
      using Suc(1) [of "i + 1" s] Suc(2-) lt by simp
    finally show ?thesis using False by (simp add: d app)
  qed
qed

lemma double_slash_iff: "has_double_slash (a # bs) = (a = 0x2f \<and> bs \<noteq> [] \<and> hd bs = 0x2f \<or> has_double_slash bs)"
  by (cases bs) auto

text \<open>A path is accepted when it is a slash followed by segments without empty ones before the last and
  without the relative segments, of characters that need no escape.\<close>

definition http_path_ok :: "bytes \<Rightarrow> bool" where
  "http_path_ok path = (length path \<le> 256 \<and> (\<exists>rest. path = 0x2f # rest \<and>
     list_all (\<lambda>seg. seg \<noteq> []) (butlast (split_on 0x2f rest)) \<and>
     list_all (\<lambda>seg. \<not> dots seg) (split_on 0x2f rest)) \<and> list_all path_byte_ok path)"

lemma no_double_slash: "(\<not> has_double_slash bs) = list_all (\<lambda>seg. seg \<noteq> []) (butlast (tl (split_on 0x2f bs)))"
proof (induction bs)
  case (Cons b bs)
  have "hd (split_on 0x2f bs) = [] \<longleftrightarrow> bs = [] \<or> hd bs = 0x2f" "tl (split_on 0x2f bs) = [] \<Longrightarrow> bs \<noteq> [] \<Longrightarrow> hd bs \<noteq> 0x2f"
    by (cases bs; auto)+
  with Cons show ?case
    by (cases "split_on 0x2f bs") (auto simp: double_slash_iff split: if_splits)
qed simp

lemma valid_http_path_iff: "valid_http_path path = http_path_ok path"
proof (cases "path \<noteq> [] \<and> length path \<le> 256 \<and> hd path = 0x2f")
  case True
  then obtain rest where r: "path = 0x2f # rest" and l: "length path \<le> 256" by (cases path) auto
  have "path_segments_ok path 0 1 = path_segments_ok path 1 1"
    unfolding path_segments_ok.simps [of path 0 1] by (simp add: r)
  also have "\<dots> = list_all (\<lambda>seg. \<not> dots seg) (split_on 0x2f rest)"
    using path_segments_iff [of 1 1 path] l r by (simp add: split_on_list_all)
  finally show ?thesis
    using no_double_slash [of "0x2f # rest"] l unfolding valid_http_path_def http_path_ok_def r by auto
qed (auto simp: valid_http_path_def http_path_ok_def)
definition endpoint_ok :: "dns_endpoint \<Rightarrow> bool" where
  "endpoint_ok ep = (de_kind ep \<in> {1, 2, 3, 4} \<and> length (de_authority ep) \<le> 253 \<and>
     list_all host_label (split_on 0x2e (de_authority ep)) \<and> map byte_lower (de_authority ep) = de_authority ep \<and>
     de_port ep \<noteq> 0 \<and> de_network_generation ep \<notin> {0, UINT64_MAX} \<and> de_namespace_generation ep \<notin> {0, UINT64_MAX} \<and>
     \<not> byte_all_zero (de_namespace_id ep) \<and>
     (if de_kind ep = 4 then http_path_ok (de_http_path ep) else de_http_path ep = []))"

lemma default_path_ok: "http_path_ok default_http_path"
  by (simp add: http_path_ok_def default_http_path_def dots_def path_byte_ok_def)

lemma authority_lower:
  "list_all host_label (split_on 0x2e (map byte_lower v)) = list_all host_label (split_on 0x2e v)"
  by (simp add: split_on_lower list_all_iff host_label_lower)

lemma build_eq:
  "endpoint_build memory kind authority port ng sg nid path =
    (if memory \<and> kind \<in> {1, 2, 3, 4} \<and> length authority \<le> 253 \<and> list_all host_label (split_on 0x2e authority) \<and> port \<noteq> 0 \<and>
        ng \<notin> {0, UINT64_MAX} \<and> sg \<notin> {0, UINT64_MAX} \<and> \<not> byte_all_zero nid \<and>
        (if kind = 4 then path = [] \<or> http_path_ok path else path = [])
     then Some \<lparr>de_kind = kind, de_authority = map byte_lower authority, de_port = port, de_network_generation = ng,
       de_namespace_generation = sg, de_namespace_id = nid,
       de_http_path = (if kind = 4 \<and> path = [] then default_http_path else path)\<rparr>
     else None)"
proof -
  have k: "valid_kind kind = (kind \<in> {1, 2, 3, 4})" by (auto simp: valid_kind_def)
  show ?thesis
    unfolding endpoint_build_def valid_authority_iff valid_http_path_iff Let_def k
    by (cases "kind = 4"; cases "path = []") (simp_all add: default_path_ok)
qed

lemma endpoint_ok_built:
  assumes "endpoint_ok ep"
  shows "endpoint_build True (de_kind ep) (de_authority ep) (de_port ep) (de_network_generation ep)
    (de_namespace_generation ep) (de_namespace_id ep) (de_http_path ep) = Some ep"
proof -
  have "de_http_path ep = (if de_kind ep = 4 \<and> de_http_path ep = [] then default_http_path else de_http_path ep)"
    using assms by (auto simp: endpoint_ok_def http_path_ok_def)
  then show ?thesis using assms unfolding build_eq endpoint_ok_def by (cases ep) auto
qed

lemma built_endpoint_ok:
  assumes "endpoint_build memory kind authority port ng sg nid path = Some ep"
  shows "memory" "endpoint_ok ep"
proof -
  have lower: "map byte_lower (map byte_lower authority) = map byte_lower authority" by (simp add: lower_class)
  show "memory" using assms by (simp add: build_eq split: if_splits)
  show "endpoint_ok ep"
    using assms default_path_ok unfolding build_eq
    by (cases "kind = 4") (auto simp: endpoint_ok_def authority_lower lower simp del: map_map split: if_split_asm)
qed

lemma endpoint_valid_iff: "endpoint_valid memory ep = (memory \<and> endpoint_ok ep)"
proof
  assume "endpoint_valid memory ep"
  then obtain c where c: "endpoint_build memory (de_kind ep) (de_authority ep) (de_port ep) (de_network_generation ep)
      (de_namespace_generation ep) (de_namespace_id ep) (de_http_path ep) = Some c" "c = ep"
    by (auto simp: endpoint_valid_def split: option.splits intro: dns_endpoint.equality)
  show "memory \<and> endpoint_ok ep" using built_endpoint_ok [OF c(1)] c(2) by simp
next
  assume "memory \<and> endpoint_ok ep"
  then show "endpoint_valid memory ep" by (simp add: endpoint_valid_def endpoint_ok_built)
qed

text \<open>C20: \<open>DnsTransportEndpoint::build\<close> succeeds, when memory suffices, exactly on a known transport, a host name
  of valid labels, a port, usable generations and a non-zero namespace, with a clean absolute path for DoH
  (\<open>/dns-query\<close> when none is given) and no path otherwise; the result carries the host name in lower case, and
  \<open>valid\<close> accepts exactly the endpoints that \<open>build\<close> can return.\<close>

theorem endpoint_build_iff:
  "(endpoint_build True kind authority port ng sg nid path = Some ep \<longleftrightarrow>
     ep = \<lparr>de_kind = kind, de_authority = map byte_lower authority, de_port = port, de_network_generation = ng,
       de_namespace_generation = sg, de_namespace_id = nid,
       de_http_path = (if kind = 4 \<and> path = [] then default_http_path else path)\<rparr> \<and>
     kind \<in> {1, 2, 3, 4} \<and> length authority \<le> 253 \<and> list_all host_label (split_on 0x2e authority) \<and> port \<noteq> 0 \<and>
     ng \<notin> {0, UINT64_MAX} \<and> sg \<notin> {0, UINT64_MAX} \<and> \<not> byte_all_zero nid \<and>
     (if kind = 4 then path = [] \<or> http_path_ok path else path = [])) \<and>
   (endpoint_valid True ep \<longleftrightarrow> (\<exists>kind authority port ng sg nid path.
      endpoint_build True kind authority port ng sg nid path = Some ep))"
proof
  show "endpoint_valid True ep \<longleftrightarrow> (\<exists>kind authority port ng sg nid path.
      endpoint_build True kind authority port ng sg nid path = Some ep)"
    unfolding endpoint_valid_iff using endpoint_ok_built built_endpoint_ok(2) by blast
qed (auto simp: build_eq)

section \<open>Exchanges\<close>

lemma exchange_cases:
  assumes "session_exchange invoke query response len session = (ok, session', data, written)"
  obtains (unchanged) "\<not> ok" "session' = session" "data = buffer_data response" "written = None"
  | (refused) "\<not> ds_in_flight session" "\<not> ok" "session' = session" "data = fail_response response"
      "written = map_option (\<lambda>_. 0) len"
  | (called) backend qa q ra r outcome s where "\<not> ds_in_flight session" "ds_exchange session = Some backend" "query = Some (qa, q)"
      "response = Some (ra, r)" "ds_bound session" "q \<noteq> []" "length q \<le> 1232" "r \<noteq> []" "length r \<le> 4096"
      "invoke backend (ds_endpoint session) q (length r) (session\<lparr>ds_in_flight := True\<rparr>) = (outcome, s)"
      "session' = s\<lparr>ds_in_flight := False\<rparr>"
      "(ok, data, written) = (case outcome of Thrown d \<Rightarrow> (False, zero_bytes (length r), Some 0)
         | Returned result d n \<Rightarrow> if result \<noteq> 0 \<or> n = 0 \<or> n > length r then (False, zero_bytes (length r), Some 0)
             else (True, d, Some n))"
proof (cases "ds_in_flight session \<or> byte_ranges_overlap (range_of query) (range_of response) \<or>
      byte_ranges_overlap (range_of query) (map_option (\<lambda>a. (a, 8)) len) \<or>
      byte_ranges_overlap (range_of response) (map_option (\<lambda>a. (a, 8)) len)")
  case True
  then show ?thesis using assms unchanged unfolding session_exchange_def by (auto split: if_splits)
next
  case False
  note go = assms [unfolded session_exchange_def]
  show ?thesis
  proof (cases "\<exists>backend qa q ra r l. ds_exchange session = Some backend \<and> query = Some (qa, q) \<and> response = Some (ra, r) \<and>
      len = Some l \<and> ds_bound session \<and> q \<noteq> [] \<and> length q \<le> 1232 \<and> r \<noteq> [] \<and> length r \<le> 4096")
    case True
    then obtain backend qa q ra r l where c: "ds_exchange session = Some backend" "query = Some (qa, q)" "response = Some (ra, r)"
      "len = Some l" "ds_bound session" "q \<noteq> []" "length q \<le> 1232" "r \<noteq> []" "length r \<le> 4096" by blast
    obtain outcome s where i: "invoke backend (ds_endpoint session) q (length r) (session\<lparr>ds_in_flight := True\<rparr>) = (outcome, s)"
      by fastforce
    show ?thesis
      by (rule called [OF _ c(1-3,5-9) i]) (use go False c i in \<open>auto simp: Let_def split: exchange_outcome.splits if_splits\<close>)
  next
    case no: False
    show ?thesis
      by (rule refused) (use go False no in \<open>auto simp: not_less split: option.splits prod.splits if_splits\<close>)
  qed
qed

text \<open>C21: \<open>DnsTransportSession::exchange\<close> publishes all or nothing. It succeeds only when the backend was called on
  the bound endpoint with the whole query and returned zero, and then the response is the backend's, with a
  length between one and the capacity; a failure that touched the caller's buffers left zeros and length zero;
  a call made while another is in flight touches nothing; and no call leaves the session in flight.\<close>

theorem exchange_all_or_nothing:
  assumes "session_exchange invoke query response len session = (ok, session', data, written)"
  shows "(ds_in_flight session \<longrightarrow> \<not> ok \<and> session' = session \<and> data = buffer_data response \<and> written = None) \<and>
    (\<not> ds_in_flight session \<longrightarrow> \<not> ds_in_flight session') \<and>
    (\<not> ok \<longrightarrow> (data = buffer_data response \<and> written = None) \<or>
       written \<in> {None, Some 0} \<and> (length (buffer_data response) \<le> 4096 \<longrightarrow> data = zero_bytes (length (buffer_data response)))) \<and>
    (ok \<longrightarrow> (\<exists>backend qa q ra r n. ds_bound session \<and> ds_exchange session = Some backend \<and> query = Some (qa, q) \<and>
       1 \<le> length q \<and> length q \<le> 1232 \<and> response = Some (ra, r) \<and> length r \<le> 4096 \<and>
       fst (invoke backend (ds_endpoint session) q (length r) (session\<lparr>ds_in_flight := True\<rparr>)) = Returned 0 data n \<and>
       written = Some n \<and> 1 \<le> n \<and> n \<le> length r))"
  using assms
proof (cases rule: exchange_cases)
  case refused
  then show ?thesis by (auto simp: fail_response_def buffer_data_def zero_bytes_def split: option.splits)
next
  case (called backend qa q ra r outcome s)
  then show ?thesis
    by (cases outcome) (auto simp: buffer_data_def Suc_le_eq split: if_splits)
qed simp

text \<open>A session that is bound has a backend and an endpoint that passed validation. Every operation keeps it
  so when the backend does, which it does when it re-enters the session through these operations.\<close>

definition session_ok :: "'b dns_session \<Rightarrow> bool" where
  "session_ok session = (ds_bound session \<longrightarrow> endpoint_ok (ds_endpoint session) \<and> ds_exchange session \<noteq> None)"

lemma session_ok_flag [simp]: "session_ok (session\<lparr>ds_in_flight := b\<rparr>) = session_ok session"
  by (simp add: session_ok_def)

lemma session_ok_initial: "session_ok initial_session" "session_ok (session_reset session)"
  by (simp_all add: session_ok_def session_reset_def initial_session_def)

lemma session_ok_bind: "session_bind memory ep backend session = (ok, session') \<Longrightarrow> session_ok session \<Longrightarrow> session_ok session'"
  by (auto simp: session_bind_def session_ok_def endpoint_valid_iff split: if_splits)

lemma session_ok_exchange:
  assumes "session_exchange invoke query response len session = (ok, session', data, written)" and "session_ok session"
    and "\<And>backend ep q n s. session_ok s \<Longrightarrow> session_ok (snd (invoke backend ep q n s))"
  shows "session_ok session'"
  using assms(1)
proof (cases rule: exchange_cases)
  case (called backend qa q ra r outcome s)
  then show ?thesis using assms(3) [of "session\<lparr>ds_in_flight := True\<rparr>" backend "ds_endpoint session" q "length r"] assms(2) by simp
qed (use assms(2) in simp_all)

text \<open>A bound session over UDP with a backend that answers with one byte.\<close>

definition sample_session :: "unit dns_session" where
  "sample_session = initial_session\<lparr>ds_exchange := Some (), ds_bound := True\<rparr>"

definition sample_backend :: "unit \<Rightarrow> dns_endpoint \<Rightarrow> bytes \<Rightarrow> nat \<Rightarrow> unit dns_session \<Rightarrow> exchange_outcome \<times> unit dns_session" where
  "sample_backend backend ep q n session = (Returned 0 [7, 0] 1, session)"

theorem exchange_all_or_nothing_witness:
  "\<exists>session'. session_exchange sample_backend (Some (0x1000, [1])) (Some (0x2000, [0, 0])) (Some 0x3000) sample_session =
     (True, session', [7, 0], Some 1) \<and> \<not> ds_in_flight session'"
proof -
  have r: "session_exchange sample_backend (Some (0x1000, [1])) (Some (0x2000, [0, 0])) (Some 0x3000) sample_session =
      (True, sample_session, [7, 0], Some 1)" by code_simp
  have "\<not> ds_in_flight sample_session" by (simp add: sample_session_def initial_session_def)
  with exchange_all_or_nothing [OF r] r show ?thesis by blast
qed

end
