(* ===== verification/Piece_Table.thy ===== *)
theory Piece_Table
  imports Rin_Prelude
begin

text \<open>
  The piece table for text documents (class \<open>PieceTable\<close> of \<open>piece_table.hpp\<close>): an immutable original
  buffer, an append-only buffer of insertions, a list of pieces that names ranges of the two, and an index
  of line starts. Sizes and offsets are natural numbers: under the invariant all of them are below
  \<open>2 * kMaxBytes\<close>, and every position given by the caller is compared with the size before it is used. Whether
  an operation runs out of memory is a parameter of it.
\<close>

section \<open>The table and its operations\<close>

abbreviation (input) kMaxBytes :: nat where "kMaxBytes \<equiv> 8 * 1024 * 1024"
abbreviation (input) kMaxPieces :: nat where "kMaxPieces \<equiv> 65536"

datatype piece_source = Original | Added

record piece =
  pc_source :: piece_source
  pc_offset :: nat
  pc_length :: nat

record piece_table =
  pt_original :: bytes
  pt_added :: bytes
  pt_pieces :: "piece list"
  pt_line_starts :: "nat list"
  pt_size :: nat
  pt_secure_storage :: bool

text \<open>Where an operation runs out of memory: nowhere, while it copies text, or while it builds the new index.\<close>

datatype allocation = Alloc_ok | Alloc_text_fails | Alloc_index_fails

definition empty_table :: piece_table where
  "empty_table = \<lparr>pt_original = [], pt_added = [], pt_pieces = [], pt_line_starts = [0], pt_size = 0,
     pt_secure_storage = False\<rparr>"

definition piece_text :: "bytes \<Rightarrow> bytes \<Rightarrow> piece \<Rightarrow> bytes" where
  "piece_text original added piece =
     (case pc_source piece of Original \<Rightarrow> original | Added \<Rightarrow> added)"

definition adjacent :: "piece \<Rightarrow> piece \<Rightarrow> bool" where
  "adjacent left right =
     (pc_source left = pc_source right \<and> pc_offset left + pc_length left = pc_offset right)"

text \<open>The loop of \<open>coalesce\<close>; the list of merged pieces has its last element first.\<close>

fun coalesce_onto :: "piece list \<Rightarrow> piece list \<Rightarrow> piece list" where
  "coalesce_onto merged [] = rev merged"
| "coalesce_onto [] (piece # pieces) = coalesce_onto [piece] pieces"
| "coalesce_onto (back # merged) (piece # pieces) =
     (if adjacent back piece
      then coalesce_onto (back\<lparr>pc_length := pc_length back + pc_length piece\<rparr> # merged) pieces
      else coalesce_onto (piece # back # merged) pieces)"

definition coalesce :: "piece list \<Rightarrow> piece list" where
  "coalesce pieces = (if length pieces < 2 then pieces else coalesce_onto [] pieces)"

text \<open>\<open>rebuildLineIndex\<close>: the loop over the bytes of one piece, and over the pieces; the result has the line
  starts found and the position in the document.\<close>

fun line_starts_of_bytes :: "bytes \<Rightarrow> nat \<Rightarrow> nat list \<Rightarrow> nat \<times> nat list" where
  "line_starts_of_bytes [] position starts = (position, starts)"
| "line_starts_of_bytes (byte # rest) position starts =
     line_starts_of_bytes rest (position + 1) (if byte = 0x0a then starts @ [position + 1] else starts)"

fun line_starts_of_pieces :: "bytes \<Rightarrow> bytes \<Rightarrow> piece list \<Rightarrow> nat \<times> nat list \<Rightarrow> nat list" where
  "line_starts_of_pieces original added [] (position, starts) = starts"
| "line_starts_of_pieces original added (piece # pieces) (position, starts) =
     line_starts_of_pieces original added pieces
       (line_starts_of_bytes
          (take (pc_length piece) (drop (pc_offset piece) (piece_text original added piece)))
          position starts)"

definition rebuild_line_index :: "bytes \<Rightarrow> bytes \<Rightarrow> piece list \<Rightarrow> nat list" where
  "rebuild_line_index original added pieces = line_starts_of_pieces original added pieces (0, [0])"

definition set_original :: "allocation \<Rightarrow> bytes \<Rightarrow> piece_table \<Rightarrow> bool \<times> piece_table" where
  "set_original alloc original table =
     (if length original > kMaxBytes then (False, table)
      else if alloc \<noteq> Alloc_ok then (False, table)
      else
        let next_pieces = (if original \<noteq> []
              then [\<lparr>pc_source = Original, pc_offset = 0, pc_length = length original\<rparr>] else [])
        in (True, table\<lparr>pt_original := original, pt_added := [], pt_pieces := next_pieces,
              pt_line_starts := rebuild_line_index original [] next_pieces,
              pt_size := length original\<rparr>))"

definition clear_table :: "piece_table \<Rightarrow> piece_table" where
  "clear_table table = table\<lparr>pt_original := [], pt_added := [], pt_pieces := [], pt_size := 0,
     pt_line_starts := [0]\<rparr>"

definition secure_clear :: "piece_table \<Rightarrow> piece_table" where
  "secure_clear table = table\<lparr>pt_original := [], pt_added := [], pt_pieces := [],
     pt_line_starts := (if pt_line_starts table = [] then [0] else take 1 ((pt_line_starts table)[0 := 0])),
     pt_size := 0\<rparr>"

definition disable_secure_storage :: "piece_table \<Rightarrow> piece_table" where
  "disable_secure_storage table = (secure_clear table)\<lparr>pt_secure_storage := False\<rparr>"

text \<open>\<open>reserveSecureAppend\<close>: \<open>capacity\<close> is the capacity of the insertion buffer before the call; reserving
  gives at least the capacity asked for.\<close>

definition reserve_secure_append :: "nat \<Rightarrow> allocation \<Rightarrow> piece_table \<Rightarrow> bool \<times> piece_table" where
  "reserve_secure_append capacity alloc table =
     (if capacity \<ge> kMaxBytes then (True, table\<lparr>pt_secure_storage := True\<rparr>)
      else if pt_added table \<noteq> [] then (False, table)
      else (alloc = Alloc_ok, table\<lparr>pt_secure_storage := True\<rparr>))"

text \<open>\<open>cloneForSecureMode\<close> into another table.\<close>

definition clone_for_secure_mode :: "allocation \<Rightarrow> piece_table \<Rightarrow> piece_table \<Rightarrow> bool \<times> piece_table" where
  "clone_for_secure_mode alloc table target =
     (let cleared = (secure_clear target)\<lparr>pt_secure_storage := True\<rparr>
      in if alloc = Alloc_ok
         then (True, cleared\<lparr>pt_original := pt_original table, pt_added := pt_added table,
                 pt_pieces := pt_pieces table, pt_line_starts := pt_line_starts table,
                 pt_size := pt_size table\<rparr>)
         else (False, (secure_clear cleared)\<lparr>pt_secure_storage := True\<rparr>))"

definition truncate_added :: "nat \<Rightarrow> piece_table \<Rightarrow> piece_table" where
  "truncate_added new_size table =
     (if new_size > length (pt_added table) then table
      else table\<lparr>pt_added := take new_size (pt_added table)\<rparr>)"

text \<open>The loop of \<open>insert\<close>, from the position \<open>cursor\<close> of the document on; the flag \<open>placed\<close> is the choice
  between the two lists.\<close>

fun insert_pieces :: "nat \<Rightarrow> piece \<Rightarrow> nat \<Rightarrow> piece list \<Rightarrow> piece list" where
  "insert_pieces position inserted cursor [] = [inserted]"
| "insert_pieces position inserted cursor (piece # pieces) =
     (if position \<le> cursor + pc_length piece then
        let local_offset = position - cursor
        in if local_offset = 0 then inserted # piece # pieces
           else if local_offset = pc_length piece then piece # inserted # pieces
           else piece\<lparr>pc_length := local_offset\<rparr> # inserted #
                piece\<lparr>pc_offset := pc_offset piece + local_offset,
                      pc_length := pc_length piece - local_offset\<rparr> # pieces
      else piece # insert_pieces position inserted (cursor + pc_length piece) pieces)"

definition insert_text :: "allocation \<Rightarrow> nat \<Rightarrow> bytes \<Rightarrow> piece_table \<Rightarrow> bool \<times> piece_table" where
  "insert_text alloc position value table =
     (if position > pt_size table \<or> value = [] \<or> length value > kMaxBytes - pt_size table \<or>
         length (pt_added table) > kMaxBytes - length value
      then (False, table)
      else if length (pt_pieces table) \<ge> kMaxPieces \<and> position \<noteq> pt_size table then (False, table)
      else
        let added_offset = length (pt_added table);
            inserted = \<lparr>pc_source = Added, pc_offset = added_offset, pc_length = length value\<rparr>;
            next_pieces = insert_pieces position inserted 0 (pt_pieces table);
            appended = table\<lparr>pt_added := pt_added table @ value\<rparr>
        in if alloc = Alloc_text_fails then (False, truncate_added added_offset table)
           else if length next_pieces > kMaxPieces \<or> alloc = Alloc_index_fails
           then (False, truncate_added added_offset appended)
           else
             let next_pieces = coalesce next_pieces
             in (True, appended\<lparr>pt_pieces := next_pieces,
                   pt_line_starts := rebuild_line_index (pt_original appended) (pt_added appended) next_pieces,
                   pt_size := pt_size table + length value\<rparr>))"

fun erase_pieces :: "nat \<Rightarrow> nat \<Rightarrow> nat \<Rightarrow> piece list \<Rightarrow> piece list" where
  "erase_pieces position stop cursor [] = []"
| "erase_pieces position stop cursor (piece # pieces) =
     (let piece_end = cursor + pc_length piece
      in (if piece_end \<le> position \<or> cursor \<ge> stop then [piece]
          else (if cursor < position then [piece\<lparr>pc_length := position - cursor\<rparr>] else []) @
               (if piece_end > stop
                then [piece\<lparr>pc_offset := pc_offset piece + (stop - cursor), pc_length := piece_end - stop\<rparr>]
                else [])) @
         erase_pieces position stop piece_end pieces)"

definition erase_text :: "allocation \<Rightarrow> nat \<Rightarrow> nat \<Rightarrow> piece_table \<Rightarrow> bool \<times> piece_table" where
  "erase_text alloc position count table =
     (if position > pt_size table \<or> count > pt_size table - position then (False, table)
      else if count = 0 then (True, table)
      else if alloc \<noteq> Alloc_ok then (False, table)
      else
        let next_pieces = coalesce (erase_pieces position (position + count) 0 (pt_pieces table))
        in (True, table\<lparr>pt_pieces := next_pieces,
              pt_line_starts := rebuild_line_index (pt_original table) (pt_added table) next_pieces,
              pt_size := pt_size table - count\<rparr>))"

fun read_pieces :: "piece_table \<Rightarrow> nat \<Rightarrow> nat \<Rightarrow> nat \<Rightarrow> piece list \<Rightarrow> bytes" where
  "read_pieces table position stop cursor [] = []"
| "read_pieces table position stop cursor (piece # pieces) =
     (let piece_end = cursor + pc_length piece
      in if piece_end \<le> position then read_pieces table position stop piece_end pieces
         else if cursor \<ge> stop then []
         else
           let begin_offset = (if position > cursor then position - cursor else 0);
               stop_offset = (if stop < piece_end then stop - cursor else pc_length piece)
           in take (stop_offset - begin_offset) (drop (pc_offset piece + begin_offset)
                (piece_text (pt_original table) (pt_added table) piece)) @
              read_pieces table position stop piece_end pieces)"

definition read_text :: "allocation \<Rightarrow> nat \<Rightarrow> nat \<Rightarrow> piece_table \<Rightarrow> bool \<times> bytes" where
  "read_text alloc position count table =
     (if position > pt_size table \<or> count > pt_size table - position \<or> count > kMaxBytes then (False, [])
      else if alloc \<noteq> Alloc_ok then (False, [])
      else if count = 0 then (True, [])
      else
        let output = read_pieces table position (position + count) 0 (pt_pieces table)
        in (length output = count, output))"

definition line_range :: "nat \<Rightarrow> piece_table \<Rightarrow> (nat \<times> nat) option" where
  "line_range line table =
     (if line \<ge> length (pt_line_starts table) then None
      else
        let position = pt_line_starts table ! line;
            next_start = (if line + 1 < length (pt_line_starts table)
              then pt_line_starts table ! (line + 1) - 1 else pt_size table)
        in if next_start < position then None else Some (position, next_start - position))"

definition line_count :: "piece_table \<Rightarrow> nat" where
  "line_count table = length (pt_line_starts table)"

definition materialize :: "allocation \<Rightarrow> piece_table \<Rightarrow> bytes" where
  "materialize alloc table =
     (case read_text alloc 0 (pt_size table) table of (True, output) \<Rightarrow> output | (False, _) \<Rightarrow> [])"

end
