(* ===== verification/Piece_Table_Spec.thy ===== *)
theory Piece_Table_Spec
  imports Piece_Table
begin

text \<open>
  The piece table as a document of bytes: the contents of a table, its invariant, the effect of every
  operation on the contents, the lines that the line index finds, and the number of pieces.
\<close>

section \<open>Contents and invariant\<close>

definition piece_bytes :: "bytes \<Rightarrow> bytes \<Rightarrow> piece \<Rightarrow> bytes" where
  "piece_bytes original added pc = take (pc_length pc) (drop (pc_offset pc) (piece_text original added pc))"

definition pieces_bytes :: "bytes \<Rightarrow> bytes \<Rightarrow> piece list \<Rightarrow> bytes" where
  "pieces_bytes original added pcs = concat (map (piece_bytes original added) pcs)"

definition piece_ok :: "bytes \<Rightarrow> bytes \<Rightarrow> piece \<Rightarrow> bool" where
  "piece_ok original added pc =
     (0 < pc_length pc \<and> pc_offset pc + pc_length pc \<le> length (piece_text original added pc))"

definition contents :: "piece_table \<Rightarrow> bytes" where
  "contents table = pieces_bytes (pt_original table) (pt_added table) (pt_pieces table)"

text \<open>The start of the document and every position behind a newline.\<close>

fun newlines :: "nat \<Rightarrow> bytes \<Rightarrow> nat list" where
  "newlines i [] = []"
| "newlines i (b # bs) = (if b = 0x0a then (i + 1) # newlines (i + 1) bs else newlines (i + 1) bs)"

definition coalesced :: "piece list \<Rightarrow> bool" where
  "coalesced pcs = successively (\<lambda>l r. \<not> adjacent l r) pcs"

definition table_inv :: "piece_table \<Rightarrow> bool" where
  "table_inv table =
     (list_all (piece_ok (pt_original table) (pt_added table)) (pt_pieces table) \<and> coalesced (pt_pieces table) \<and>
      pt_size table = length (contents table) \<and> pt_size table \<le> 8388608 \<and>
      length (pt_original table) \<le> 8388608 \<and> length (pt_added table) \<le> 8388608 \<and>
      pt_line_starts table = 0 # newlines 0 (contents table))"

lemma pieces_bytes_simps [simp]:
  "pieces_bytes org add [] = []"
  "pieces_bytes org add (pc # pcs) = piece_bytes org add pc @ pieces_bytes org add pcs"
  "pieces_bytes org add (pcs @ pcs') = pieces_bytes org add pcs @ pieces_bytes org add pcs'"
  by (simp_all add: pieces_bytes_def)

lemma piece_text_update [simp]:
  "piece_text org add (pc\<lparr>pc_length := n\<rparr>) = piece_text org add pc"
  "piece_text org add (pc\<lparr>pc_offset := n\<rparr>) = piece_text org add pc"
  by (simp_all add: piece_text_def)

lemma length_piece_bytes: "piece_ok org add pc \<Longrightarrow> length (piece_bytes org add pc) = pc_length pc"
  by (auto simp: piece_ok_def piece_bytes_def)

section \<open>Merging pieces\<close>

lemma merge_adjacent:
  assumes "adjacent l r" "piece_ok org add l" "piece_ok org add r"
  shows "piece_ok org add (l\<lparr>pc_length := pc_length l + pc_length r\<rparr>)"
    "piece_bytes org add (l\<lparr>pc_length := pc_length l + pc_length r\<rparr>) = piece_bytes org add l @ piece_bytes org add r"
proof -
  have t: "piece_text org add r = piece_text org add l" "pc_offset r = pc_offset l + pc_length l"
    using assms(1) by (simp_all add: adjacent_def piece_text_def)
  show "piece_ok org add (l\<lparr>pc_length := pc_length l + pc_length r\<rparr>)" using assms(2,3) t by (simp add: piece_ok_def)
  show "piece_bytes org add (l\<lparr>pc_length := pc_length l + pc_length r\<rparr>) = piece_bytes org add l @ piece_bytes org add r"
    by (simp add: piece_bytes_def t take_add add.commute)
qed

lemma coalesce_onto_bytes:
  "list_all (piece_ok org add) (merged @ pcs) \<Longrightarrow>
   list_all (piece_ok org add) (coalesce_onto merged pcs) \<and>
   pieces_bytes org add (coalesce_onto merged pcs) = pieces_bytes org add (rev merged @ pcs)"
  by (induction merged pcs rule: coalesce_onto.induct) (auto simp: merge_adjacent)

lemma adjacent_length [simp]: "adjacent l (r\<lparr>pc_length := n\<rparr>) = adjacent l r"
  by (simp add: adjacent_def)

lemma coalesce_onto_coalesced: "coalesced (rev merged) \<Longrightarrow> coalesced (coalesce_onto merged pcs)"
  by (induction merged pcs rule: coalesce_onto.induct) (auto simp: coalesced_def successively_append_iff)

lemma coalesce_correct:
  assumes "list_all (piece_ok org add) pcs"
  shows "list_all (piece_ok org add) (coalesce pcs)" "pieces_bytes org add (coalesce pcs) = pieces_bytes org add pcs"
    "coalesced (coalesce pcs)"
proof -
  show "list_all (piece_ok org add) (coalesce pcs)" "pieces_bytes org add (coalesce pcs) = pieces_bytes org add pcs"
    using coalesce_onto_bytes [of org add "[]" pcs] assms by (auto simp: coalesce_def)
  show "coalesced (coalesce pcs)"
    using coalesce_onto_coalesced [of "[]" pcs]
    by (cases pcs; cases "tl pcs") (auto simp: coalesce_def coalesced_def)
qed

lemma coalesce_onto_length: "length (coalesce_onto merged pcs) \<le> length merged + length pcs"
  by (induction merged pcs rule: coalesce_onto.induct) auto

lemma coalesce_length: "length (coalesce pcs) \<le> length pcs"
  using coalesce_onto_length [of "[]" pcs] by (simp add: coalesce_def)

section \<open>Insertion, erasure and reading on the pieces\<close>

lemma split_piece:
  assumes "piece_ok org add pc" "0 < k" "k < pc_length pc"
  shows "piece_ok org add (pc\<lparr>pc_length := k\<rparr>)" "piece_ok org add (pc\<lparr>pc_offset := pc_offset pc + k, pc_length := pc_length pc - k\<rparr>)"
    "piece_bytes org add (pc\<lparr>pc_length := k\<rparr>) = take k (piece_bytes org add pc)"
    "piece_bytes org add (pc\<lparr>pc_offset := pc_offset pc + k, pc_length := pc_length pc - k\<rparr>) = drop k (piece_bytes org add pc)"
  using assms by (auto simp: piece_ok_def piece_bytes_def drop_take add.commute min_def)

lemma insert_pieces_correct:
  assumes "list_all (piece_ok org add) pcs" and "piece_ok org add new" and "cursor \<le> position"
    and "position - cursor \<le> length (pieces_bytes org add pcs)"
  shows "list_all (piece_ok org add) (insert_pieces position new cursor pcs) \<and>
    pieces_bytes org add (insert_pieces position new cursor pcs) =
      take (position - cursor) (pieces_bytes org add pcs) @ piece_bytes org add new @ drop (position - cursor) (pieces_bytes org add pcs)"
  using assms
proof (induction pcs arbitrary: cursor)
  case (Cons pc pcs)
  let ?n = "position - cursor"
  have ok: "piece_ok org add pc" and len: "length (piece_bytes org add pc) = pc_length pc"
    using Cons.prems(1) length_piece_bytes by auto
  consider "?n = 0" | "?n = pc_length pc" "?n \<noteq> 0" | "0 < ?n" "?n < pc_length pc" | "pc_length pc < ?n" by linarith
  then show ?case
  proof cases
    case 1
    then show ?thesis using Cons.prems by (simp add: Let_def)
  next
    case 2
    then have "position \<le> cursor + pc_length pc" by linarith
    with 2 show ?thesis using Cons.prems len by (simp add: Let_def)
  next
    case 3
    then have "position \<le> cursor + pc_length pc" by linarith
    with 3 show ?thesis using Cons.prems split_piece [OF ok 3] len by (simp add: Let_def)
  next
    case 4
    then have c: "cursor + pc_length pc \<le> position" "\<not> position \<le> cursor + pc_length pc" by linarith+
    have "position - (cursor + pc_length pc) \<le> length (pieces_bytes org add pcs)"
      using Cons.prems(4) len 4 by simp
    with Cons.IH [OF _ Cons.prems(2) c(1)] Cons.prems(1) have
      "list_all (piece_ok org add) (insert_pieces position new (cursor + pc_length pc) pcs)"
      "pieces_bytes org add (insert_pieces position new (cursor + pc_length pc) pcs) =
        take (?n - pc_length pc) (pieces_bytes org add pcs) @ piece_bytes org add new @
        drop (?n - pc_length pc) (pieces_bytes org add pcs)" by (simp_all add: diff_diff_left)
    moreover have "take ?n (piece_bytes org add pc) = piece_bytes org add pc" using len 4 by simp
    ultimately show ?thesis using c(2) ok len 4 by simp
  qed
qed simp

lemma insert_pieces_length: "length pcs < length (insert_pieces position new cursor pcs) \<and>
    length (insert_pieces position new cursor pcs) \<le> length pcs + 2"
  by (induction pcs arbitrary: cursor) (auto simp: Let_def)

lemma erase_pieces_correct:
  assumes "list_all (piece_ok org add) pcs" and "position < stop"
  shows "list_all (piece_ok org add) (erase_pieces position stop cursor pcs) \<and>
    pieces_bytes org add (erase_pieces position stop cursor pcs) =
      take (position - cursor) (pieces_bytes org add pcs) @ drop (stop - cursor) (pieces_bytes org add pcs)"
  using assms
proof (induction pcs arbitrary: cursor)
  case (Cons pc pcs)
  let ?kept = "if cursor + pc_length pc \<le> position \<or> cursor \<ge> stop then [pc]
      else (if cursor < position then [pc\<lparr>pc_length := position - cursor\<rparr>] else []) @
        (if cursor + pc_length pc > stop
         then [pc\<lparr>pc_offset := pc_offset pc + (stop - cursor), pc_length := cursor + pc_length pc - stop\<rparr>] else [])"
  have ok: "piece_ok org add pc" and len: "length (piece_bytes org add pc) = pc_length pc"
    using Cons.prems(1) length_piece_bytes by auto
  have left: "piece_ok org add (pc\<lparr>pc_length := position - cursor\<rparr>) \<and>
      piece_bytes org add (pc\<lparr>pc_length := position - cursor\<rparr>) = take (position - cursor) (piece_bytes org add pc)"
    if "cursor < position" "position < cursor + pc_length pc"
    using split_piece(1,3) [OF ok, of "position - cursor"] that by auto
  have right: "piece_ok org add (pc\<lparr>pc_offset := pc_offset pc + (stop - cursor), pc_length := cursor + pc_length pc - stop\<rparr>) \<and>
      piece_bytes org add (pc\<lparr>pc_offset := pc_offset pc + (stop - cursor), pc_length := cursor + pc_length pc - stop\<rparr>) =
        drop (stop - cursor) (piece_bytes org add pc)"
    if "cursor < stop" "stop < cursor + pc_length pc"
  proof -
    have "cursor + pc_length pc - stop = pc_length pc - (stop - cursor)" using that by linarith
    then show ?thesis using split_piece(2,4) [OF ok, of "stop - cursor"] that by auto
  qed
  have "list_all (piece_ok org add) ?kept \<and> pieces_bytes org add ?kept =
      take (position - cursor) (piece_bytes org add pc) @ drop (stop - cursor) (piece_bytes org add pc)"
    using ok len Cons.prems(2) left right by auto
  moreover have "drop (stop - cursor) (piece_bytes org add pc) = [] \<or> position - (cursor + pc_length pc) = 0"
    using Cons.prems(2) len by (cases "cursor + pc_length pc \<le> stop") auto
  ultimately show ?case
    using Cons.IH [of "cursor + pc_length pc"] Cons.prems by (auto simp: Let_def len)
qed simp
lemma read_pieces_correct:
  assumes "list_all (piece_ok (pt_original table) (pt_added table)) pcs" and "position < stop"
  defines "d \<equiv> pieces_bytes (pt_original table) (pt_added table)"
  shows "read_pieces table position stop cursor pcs =
    take (stop - cursor - (position - cursor)) (drop (position - cursor) (d pcs))"
  using assms(1)
proof (induction pcs arbitrary: cursor)
  case (Cons pc pcs)
  let ?b = "piece_bytes (pt_original table) (pt_added table) pc" and ?c = "cursor + pc_length pc"
  let ?first = "if position > cursor then position - cursor else 0"
  let ?last = "if stop < ?c then stop - cursor else pc_length pc"
  have len: "length ?b = pc_length pc" using Cons.prems length_piece_bytes by auto
  have ih: "read_pieces table position stop ?c pcs = take (stop - ?c - (position - ?c)) (drop (position - ?c) (d pcs))"
    using Cons by simp
  have part: "take (?last - ?first) (drop (pc_offset pc + ?first) (piece_text (pt_original table) (pt_added table) pc)) =
      take (?last - ?first) (drop ?first ?b)"
    by (simp add: piece_bytes_def take_drop [symmetric] drop_take add.commute min_def)
  consider "?c \<le> position" | "position < ?c" "stop \<le> cursor" | "position < ?c" "cursor < stop" by linarith
  then show ?case
  proof cases
    case 1
    then have "position - ?c = position - cursor - pc_length pc" "stop - ?c - (position - ?c) = stop - cursor - (position - cursor)"
      by linarith+
    with 1 show ?thesis using ih len by (simp add: d_def)
  next
    case 2
    then show ?thesis by simp
  next
    case 3
    then have "read_pieces table position stop cursor (pc # pcs) =
        take (?last - ?first) (drop ?first ?b) @ take (stop - ?c) (d pcs)"
      using ih part assms(2) by (simp add: Let_def)
    moreover have "take (?last - ?first) (drop ?first ?b) = take (stop - cursor - (position - cursor)) (drop (position - cursor) ?b)"
      using 3 len by (cases "stop < ?c") auto
    moreover have "stop - cursor - (position - cursor) - length (drop (position - cursor) ?b) = stop - ?c"
      using 3 len assms(2) by simp
    moreover have "position - cursor - length ?b = 0" using 3 len by simp
    ultimately show ?thesis unfolding d_def pieces_bytes_simps drop_append take_append by simp
  qed
qed (simp add: d_def)

section \<open>The line index\<close>

lemma newlines_append: "newlines i (xs @ ys) = newlines i xs @ newlines (i + length xs) ys"
  by (induction xs arbitrary: i) auto

lemma line_starts_of_bytes_eq: "line_starts_of_bytes bs i starts = (i + length bs, starts @ newlines i bs)"
  by (induction bs i starts rule: line_starts_of_bytes.induct) auto

lemma line_starts_of_pieces_eq:
  "line_starts_of_pieces org add pcs (i, starts) = starts @ newlines i (pieces_bytes org add pcs)"
  by (induction pcs arbitrary: i starts)
    (simp_all add: line_starts_of_bytes_eq newlines_append piece_bytes_def)

lemma rebuild_line_index_eq: "rebuild_line_index org add pcs = 0 # newlines 0 (pieces_bytes org add pcs)"
  by (simp add: rebuild_line_index_def line_starts_of_pieces_eq)

text \<open>The lines of a document, without their newlines.\<close>

fun lines_of :: "bytes \<Rightarrow> bytes list" where
  "lines_of [] = [[]]"
| "lines_of (b # bs) = (if b = 0x0a then [] # lines_of bs else (b # hd (lines_of bs)) # tl (lines_of bs))"

lemma lines_of_not_nil [simp]: "lines_of bs \<noteq> []"
  by (cases bs) auto

lemma newlines_shift: "newlines (Suc i) bs = map Suc (newlines i bs)"
  by (induction bs arbitrary: i) auto

lemma length_newlines: "length (newlines i bs) + 1 = length (lines_of bs)"
  by (induction bs arbitrary: i) auto

lemma newlines_greater: "k < length (newlines i bs) \<Longrightarrow> i < newlines i bs ! k"
proof (induction bs arbitrary: i k)
  case (Cons b bs)
  from Cons.IH [of k "Suc i"] Cons.IH [of "k - 1" "Suc i"] Cons.prems show ?case
    by (auto simp: nth_Cons' intro: Suc_lessD)
qed simp

text \<open>The range from a start to the newline before the next start, or to the end, is the line.\<close>

definition line_stop :: "bytes \<Rightarrow> nat \<Rightarrow> nat" where
  "line_stop bs k = (if k < length (newlines 0 bs) then newlines 0 bs ! k - 1 else length bs)"

lemma line_stop_newline: "line_stop (0x0a # bs) (Suc k) = Suc (line_stop bs k)" "line_stop (0x0a # bs) 0 = 0"
  using newlines_greater [of k 0 bs] by (simp_all add: line_stop_def newlines_shift)

lemma line_stop_other: "b \<noteq> 0x0a \<Longrightarrow> line_stop (b # bs) k = Suc (line_stop bs k)"
  using newlines_greater [of k 0 bs] by (simp add: line_stop_def newlines_shift)

lemma lines_of_nth:
  assumes "k < length (lines_of bs)"
  shows "(0 # newlines 0 bs) ! k \<le> line_stop bs k \<and> line_stop bs k \<le> length bs \<and>
    take (line_stop bs k - (0 # newlines 0 bs) ! k) (drop ((0 # newlines 0 bs) ! k) bs) = lines_of bs ! k"
  using assms
proof (induction bs arbitrary: k)
  case Nil
  then show ?case by (simp add: line_stop_def)
next
  case (Cons b bs)
  have len: "length (newlines 0 bs) = length (lines_of bs) - 1" using length_newlines [of 0 bs] by simp
  show ?case
  proof (cases "b = 0x0a")
    case True
    show ?thesis
    proof (cases k)
      case (Suc j)
      have s: "(0 # newlines 0 (b # bs)) ! k = Suc ((0 # newlines 0 bs) ! j)"
        using Cons.prems True len by (simp add: Suc newlines_shift nth_Cons' split: nat.split)
      have "j < length (lines_of bs)" using Cons.prems True Suc by simp
      from Cons.IH [OF this] show ?thesis
        unfolding s by (simp add: True Suc line_stop_newline del: newlines.simps)
    qed (simp add: True line_stop_newline)
  next
    case False
    have k: "k < length (lines_of bs)" using Cons.prems False by (cases "lines_of bs") simp_all
    note ih = Cons.IH [OF this]
    show ?thesis
    proof (cases k)
      case 0
      with ih False show ?thesis by (simp add: line_stop_other hd_conv_nth)
    next
      case (Suc j)
      have s: "(0 # newlines 0 (b # bs)) ! k = Suc ((0 # newlines 0 bs) ! k)"
        using k False len by (simp add: Suc newlines_shift)
      have "tl (lines_of bs) ! j = lines_of bs ! Suc j" using k Suc by (simp add: nth_tl)
      with ih False show ?thesis unfolding s by (simp add: line_stop_other Suc del: newlines.simps)
    qed
  qed
qed

section \<open>The operations\<close>

lemma piece_ok_append: "piece_ok org add pc \<Longrightarrow> piece_ok org (add @ v) pc"
  by (auto simp: piece_ok_def piece_text_def split: piece_source.splits)

lemma piece_bytes_append: "piece_ok org add pc \<Longrightarrow> piece_bytes org (add @ v) pc = piece_bytes org add pc"
  by (auto simp: piece_ok_def piece_bytes_def piece_text_def split: piece_source.splits)

lemma pieces_bytes_append:
  "list_all (piece_ok org add) pcs \<Longrightarrow> list_all (piece_ok org (add @ v)) pcs \<and> pieces_bytes org (add @ v) pcs = pieces_bytes org add pcs"
  by (induction pcs) (auto simp: piece_ok_append piece_bytes_append)

lemma empty_table_inv: "table_inv empty_table \<and> contents empty_table = []"
  by (simp add: table_inv_def empty_table_def contents_def coalesced_def)

lemma cleared_inv:
  "table_inv (clear_table table) \<and> contents (clear_table table) = []"
  "table_inv (secure_clear table) \<and> contents (secure_clear table) = []"
  "table_inv (disable_secure_storage table) \<and> contents (disable_secure_storage table) = []"
  by (auto simp: table_inv_def clear_table_def secure_clear_def disable_secure_storage_def contents_def coalesced_def
      neq_Nil_conv)

lemma set_original_correct:
  assumes "set_original alloc original table = (ok, table')" and "table_inv table"
  shows "table_inv table' \<and> (if ok then contents table' = original else table' = table) \<and>
    ok = (length original \<le> 8388608 \<and> alloc = Alloc_ok)"
  using assms
  by (auto simp: set_original_def Let_def table_inv_def contents_def rebuild_line_index_eq piece_ok_def piece_bytes_def
      piece_text_def coalesced_def split: if_splits)

lemma secure_flag_inv [simp]: "table_inv (table\<lparr>pt_secure_storage := b\<rparr>) = table_inv table"
    "contents (table\<lparr>pt_secure_storage := b\<rparr>) = contents table"
  by (simp_all add: table_inv_def contents_def)

lemma reserve_secure_append_correct:
  "reserve_secure_append capacity alloc table = (ok, table') \<Longrightarrow> table_inv table \<Longrightarrow>
   table_inv table' \<and> contents table' = contents table \<and> (ok \<longrightarrow> pt_secure_storage table')"
  by (auto simp: reserve_secure_append_def split: if_splits)

lemma clone_for_secure_mode_correct:
  assumes "clone_for_secure_mode alloc table target = (ok, target')" and "table_inv table"
  shows "table_inv target' \<and> contents target' = (if ok then contents table else []) \<and> pt_secure_storage target'"
  using assms cleared_inv(2)
  by (auto simp: clone_for_secure_mode_def Let_def split: if_splits) (simp_all add: table_inv_def contents_def)

lemma truncate_appended: "truncate_added (length (pt_added table)) (table\<lparr>pt_added := pt_added table @ v\<rparr>) = table"
    "truncate_added (length (pt_added table)) table = table"
  by (simp_all add: truncate_added_def)

text \<open>Exactly when an insertion is accepted.\<close>

definition insert_accepts :: "allocation \<Rightarrow> nat \<Rightarrow> bytes \<Rightarrow> piece_table \<Rightarrow> bool" where
  "insert_accepts alloc position value table =
     (position \<le> pt_size table \<and> value \<noteq> [] \<and> pt_size table + length value \<le> 8388608 \<and>
      length (pt_added table) + length value \<le> 8388608 \<and>
      length (insert_pieces position \<lparr>pc_source = Added, pc_offset = length (pt_added table), pc_length = length value\<rparr>
        0 (pt_pieces table)) \<le> 65536 \<and> alloc = Alloc_ok)"

lemma insert_text_eq:
  assumes "table_inv table"
  defines "new value \<equiv> \<lparr>pc_source = Added, pc_offset = length (pt_added table), pc_length = length value\<rparr>"
  shows "insert_text alloc position value table = (if insert_accepts alloc position value table
    then (True, let pcs = coalesce (insert_pieces position (new value) 0 (pt_pieces table))
      in table\<lparr>pt_added := pt_added table @ value, pt_pieces := pcs,
           pt_line_starts := rebuild_line_index (pt_original table) (pt_added table @ value) pcs,
           pt_size := pt_size table + length value\<rparr>)
    else (False, table))"
proof -
  have full: "length (insert_pieces position (new value) 0 (pt_pieces table)) > 65536" if "length (pt_pieces table) \<ge> 65536"
    using insert_pieces_length [of "pt_pieces table" position "new value" 0] that by linarith
  have max: "pt_size table \<le> 8388608" "length (pt_added table) \<le> 8388608" using assms(1) by (simp_all add: table_inv_def)
  show ?thesis
    using full max unfolding insert_text_def insert_accepts_def new_def Let_def truncate_appended
    by (cases alloc) auto
qed
lemma insert_text_correct:
  assumes "insert_text alloc position value table = (ok, table')" and "table_inv table"
  shows "table_inv table' \<and> ok = insert_accepts alloc position value table \<and>
    (if ok then contents table' = take position (contents table) @ value @ drop position (contents table) else table' = table)"
proof (cases "insert_accepts alloc position value table")
  case True
  let ?new = "\<lparr>pc_source = Added, pc_offset = length (pt_added table), pc_length = length value\<rparr>"
  let ?org = "pt_original table" and ?add = "pt_added table @ value"
  let ?pcs = "insert_pieces position ?new 0 (pt_pieces table)"
  have ok: ok and t': "table' = table\<lparr>pt_added := ?add, pt_pieces := coalesce ?pcs,
      pt_line_starts := rebuild_line_index ?org ?add (coalesce ?pcs), pt_size := pt_size table + length value\<rparr>"
    using assms True insert_text_eq [OF assms(2)] by (simp_all add: Let_def)
  have lim: "pt_size table + length value \<le> 8388608" "length ?add \<le> 8388608" "value \<noteq> []" "position \<le> pt_size table"
    using True by (simp_all add: insert_accepts_def)
  have inv: "list_all (piece_ok ?org (pt_added table)) (pt_pieces table)" "pt_size table = length (contents table)"
    "length ?org \<le> 8388608" using assms(2) by (simp_all add: table_inv_def)
  note old = pieces_bytes_append [OF inv(1), of "value"]
  have new: "piece_ok ?org ?add ?new" "piece_bytes ?org ?add ?new = value"
    using lim(3) by (simp_all add: piece_ok_def piece_bytes_def piece_text_def)
  have d: "pieces_bytes ?org ?add (pt_pieces table) = contents table" using old by (simp add: contents_def)
  have ins: "list_all (piece_ok ?org ?add) ?pcs"
    "pieces_bytes ?org ?add ?pcs = take position (contents table) @ value @ drop position (contents table)"
    using insert_pieces_correct [of ?org ?add "pt_pieces table" ?new 0 position] old new lim(4) inv(2) by (simp_all add: d)
  note co = coalesce_correct [OF ins(1)]
  have c: "contents table' = take position (contents table) @ value @ drop position (contents table)"
    using co(2) ins(2) by (simp add: t' contents_def)
  have "table_inv table'"
    unfolding table_inv_def c using co lim inv ins(2) by (simp add: t' rebuild_line_index_eq)
  with True ok c show ?thesis by simp
next
  case False
  then show ?thesis using assms insert_text_eq [OF assms(2)] by simp
qed

lemma erase_text_correct:
  assumes "erase_text alloc position count table = (ok, table')" and "table_inv table"
  shows "table_inv table' \<and> ok = (position + count \<le> pt_size table \<and> (count = 0 \<or> alloc = Alloc_ok)) \<and>
    (if ok then contents table' = take position (contents table) @ drop (position + count) (contents table) else table' = table)"
proof (cases "position + count \<le> pt_size table \<and> count \<noteq> 0 \<and> alloc = Alloc_ok")
  case True
  let ?org = "pt_original table" and ?add = "pt_added table"
  let ?pcs = "erase_pieces position (position + count) 0 (pt_pieces table)"
  have ok: ok and t': "table' = table\<lparr>pt_pieces := coalesce ?pcs,
      pt_line_starts := rebuild_line_index ?org ?add (coalesce ?pcs), pt_size := pt_size table - count\<rparr>"
    using assms True by (auto simp: erase_text_def Let_def split: if_splits)
  have inv: "list_all (piece_ok ?org ?add) (pt_pieces table)" "pt_size table = length (contents table)"
    "length ?org \<le> 8388608" "length ?add \<le> 8388608" "pt_size table \<le> 8388608" using assms(2) by (simp_all add: table_inv_def)
  have er: "list_all (piece_ok ?org ?add) ?pcs"
    "pieces_bytes ?org ?add ?pcs = take position (contents table) @ drop (position + count) (contents table)"
    using erase_pieces_correct [OF inv(1), of position "position + count" 0] True by (simp_all add: contents_def)
  note co = coalesce_correct [OF er(1)]
  have c: "contents table' = take position (contents table) @ drop (position + count) (contents table)"
    using co(2) er(2) by (simp add: t' contents_def)
  have "table_inv table'"
    unfolding table_inv_def c using co inv er(2) True by (simp add: t' rebuild_line_index_eq)
  with True ok c show ?thesis by simp
next
  case False
  with assms show ?thesis by (auto simp: erase_text_def split: if_splits)
qed

lemma read_text_correct:
  assumes "table_inv table"
  shows "read_text alloc position count table =
    (if position + count \<le> length (contents table) \<and> alloc = Alloc_ok
     then (True, take count (drop position (contents table))) else (False, []))"
proof -
  have inv: "list_all (piece_ok (pt_original table) (pt_added table)) (pt_pieces table)" "pt_size table = length (contents table)"
    "pt_size table \<le> 8388608" using assms by (simp_all add: table_inv_def)
  have "read_pieces table position (position + count) 0 (pt_pieces table) = take count (drop position (contents table))"
    if "0 < count" using read_pieces_correct [OF inv(1), of position "position + count" 0] that by (simp add: contents_def)
  then show ?thesis using inv(2,3) by (auto simp: read_text_def Let_def)
qed

lemma line_range_correct:
  assumes "table_inv table" and "line < line_count table"
  shows "line_count table = length (lines_of (contents table))"
    "\<exists>position count. line_range line table = Some (position, count) \<and>
      position + count \<le> length (contents table) \<and>
      take count (drop position (contents table)) = lines_of (contents table) ! line"
proof -
  let ?d = "contents table"
  have st: "pt_line_starts table = 0 # newlines 0 ?d" and sz: "pt_size table = length ?d"
    using assms(1) by (simp_all add: table_inv_def)
  show n: "line_count table = length (lines_of ?d)" by (simp add: line_count_def st length_newlines [of 0 ?d, symmetric])
  have l: "line < length (lines_of ?d)" using assms(2) n by simp
  have "(if line + 1 < length (pt_line_starts table) then pt_line_starts table ! (line + 1) - 1 else pt_size table) = line_stop ?d line"
    by (simp add: st sz line_stop_def)
  then have "line_range line table = Some (pt_line_starts table ! line, line_stop ?d line - pt_line_starts table ! line)"
    using lines_of_nth [OF l] assms(2) unfolding line_range_def Let_def line_count_def st by simp
  then show "\<exists>position count. line_range line table = Some (position, count) \<and>
      position + count \<le> length ?d \<and> take count (drop position ?d) = lines_of ?d ! line"
    using lines_of_nth [OF l] st by auto
qed
section \<open>Sequences of edits\<close>

datatype 'e edit = Insert 'e nat bytes | Erase 'e nat nat

fun apply_edit :: "'e edit \<Rightarrow> bytes \<Rightarrow> bytes" where
  "apply_edit (Insert _ position v) d = take position d @ v @ drop position d"
| "apply_edit (Erase _ position count) d = take position d @ drop (position + count) d"

text \<open>A run of edits on an editable document; the result has the accepted ones.\<close>

fun run_edits ::
    "('e \<Rightarrow> nat \<Rightarrow> bytes \<Rightarrow> 's \<Rightarrow> bool \<times> 's) \<Rightarrow> ('e \<Rightarrow> nat \<Rightarrow> nat \<Rightarrow> 's \<Rightarrow> bool \<times> 's) \<Rightarrow> 'e edit list \<Rightarrow> 's \<Rightarrow>
     'e edit list \<times> 's" where
  "run_edits ins del [] s = ([], s)"
| "run_edits ins del (e # es) s =
     (let (ok, s') = (case e of Insert env p v \<Rightarrow> ins env p v s | Erase env p n \<Rightarrow> del env p n s);
          (accepted, s'') = run_edits ins del es s'
      in (if ok then e # accepted else accepted, s''))"

locale byte_document =
  fixes inv :: "'s \<Rightarrow> bool" and doc :: "'s \<Rightarrow> bytes"
    and ins :: "'e \<Rightarrow> nat \<Rightarrow> bytes \<Rightarrow> 's \<Rightarrow> bool \<times> 's" and del :: "'e \<Rightarrow> nat \<Rightarrow> nat \<Rightarrow> 's \<Rightarrow> bool \<times> 's"
  assumes ins_law: "inv s \<Longrightarrow> ins env p v s = (ok, s') \<Longrightarrow> inv s' \<and>
      (if ok then p \<le> length (doc s) \<and> doc s' = take p (doc s) @ v @ drop p (doc s) else s' = s)"
    and del_law: "inv s \<Longrightarrow> del env p n s = (ok, s') \<Longrightarrow> inv s' \<and>
      (if ok then doc s' = take p (doc s) @ drop (p + n) (doc s) else s' = s)"
begin

lemma run_refines:
  "inv s \<Longrightarrow> run_edits ins del es s = (accepted, s') \<Longrightarrow> inv s' \<and> doc s' = fold apply_edit accepted (doc s)"
proof (induction es arbitrary: s accepted)
  case (Cons e es)
  obtain ok t where t: "(case e of Insert env p v \<Rightarrow> ins env p v s | Erase env p n \<Rightarrow> del env p n s) = (ok, t)" by fastforce
  obtain acc where r: "run_edits ins del es t = (acc, s')" and a: "accepted = (if ok then e # acc else acc)"
    using Cons.prems(2) t by (auto split: prod.splits)
  have "inv t \<and> doc t = (if ok then apply_edit e (doc s) else doc s)"
  proof (cases e)
    case (Insert env p v)
    with t ins_law [OF Cons.prems(1), of env p v ok t] show ?thesis by (auto split: if_splits)
  next
    case (Erase env p n)
    with t del_law [OF Cons.prems(1), of env p n ok t] show ?thesis by (auto split: if_splits)
  qed
  with Cons.IH [OF _ r] a show ?case by simp
qed simp

lemma erase_undoes_insert:
  assumes "inv s" and "ins env p v s = (True, t)" and "del env' p (length v) t = (True, u)"
  shows "doc u = doc s"
  using ins_law [OF assms(1,2)] del_law [OF _ assms(3)] by simp

end

interpretation pieces: byte_document table_inv contents insert_text erase_text
proof
  show "table_inv s' \<and> (if ok then p \<le> length (contents s) \<and> contents s' = take p (contents s) @ v @ drop p (contents s) else s' = s)"
    if "table_inv s" "insert_text env p v s = (ok, s')" for s env p v ok s'
    using insert_text_correct [OF that(2,1)] that(1) by (auto simp: insert_accepts_def table_inv_def split: if_splits)
  show "table_inv s' \<and> (if ok then contents s' = take p (contents s) @ drop (p + n) (contents s) else s' = s)"
    if "table_inv s" "erase_text env p n s = (ok, s')" for s env p n ok s'
    using erase_text_correct [OF that(2,1)] by (auto split: if_splits)
qed

section \<open>The number of pieces\<close>

definition at_boundary :: "nat \<Rightarrow> nat \<Rightarrow> piece list \<Rightarrow> bool" where
  "at_boundary position cursor pcs = (\<exists>k \<le> length pcs. position = cursor + sum_list (map pc_length (take k pcs)))"

lemma at_boundary_Cons: "at_boundary position cursor (pc # pcs) = (position = cursor \<or> at_boundary position (cursor + pc_length pc) pcs)"
proof
  assume "at_boundary position cursor (pc # pcs)"
  then obtain k where k: "k \<le> length (pc # pcs)" "position = cursor + sum_list (map pc_length (take k (pc # pcs)))"
    by (auto simp: at_boundary_def)
  show "position = cursor \<or> at_boundary position (cursor + pc_length pc) pcs"
  proof (cases k)
    case (Suc j)
    with k have "j \<le> length pcs" "position = cursor + pc_length pc + sum_list (map pc_length (take j pcs))" by simp_all
    then show ?thesis unfolding at_boundary_def by blast
  qed (use k in simp)
next
  assume "position = cursor \<or> at_boundary position (cursor + pc_length pc) pcs"
  then show "at_boundary position cursor (pc # pcs)"
  proof
    assume "at_boundary position (cursor + pc_length pc) pcs"
    then obtain j where "j \<le> length pcs" "position = cursor + pc_length pc + sum_list (map pc_length (take j pcs))"
      by (auto simp: at_boundary_def)
    then show ?thesis unfolding at_boundary_def by - (rule exI [of _ "Suc j"], simp)
  qed (auto simp: at_boundary_def intro: exI [of _ 0])
qed

lemma not_boundary: "position < cursor \<Longrightarrow> \<not> at_boundary position cursor pcs"
  by (auto simp: at_boundary_def)

lemma insert_pieces_count:
  assumes "cursor \<le> position" and "position - cursor \<le> sum_list (map pc_length pcs)"
  shows "length (insert_pieces position new cursor pcs) = length pcs + (if at_boundary position cursor pcs then 1 else 2)"
  using assms
proof (induction pcs arbitrary: cursor)
  case (Cons pc pcs)
  consider "position = cursor" | "position = cursor + pc_length pc" | "cursor < position" "position < cursor + pc_length pc"
    | "cursor + pc_length pc < position" using Cons.prems(1) by linarith
  then show ?case
  proof cases
    case 2
    then have "at_boundary position (cursor + pc_length pc) pcs" by (auto simp: at_boundary_def intro: exI [of _ 0])
    with 2 show ?thesis by (auto simp: at_boundary_Cons Let_def)
  next
    case 3
    then show ?thesis using not_boundary [of position "cursor + pc_length pc" pcs] by (simp add: at_boundary_Cons Let_def)
  next
    case 4
    then show ?thesis using Cons.IH [of "cursor + pc_length pc"] Cons.prems by (simp add: at_boundary_Cons)
  qed (simp add: at_boundary_Cons)
qed (simp add: at_boundary_def)

lemma contents_length:
  assumes "list_all (piece_ok org add) pcs"
  shows "length (pieces_bytes org add pcs) = sum_list (map pc_length pcs)"
  using assms by (induction pcs) (simp_all add: length_piece_bytes)

lemma materialize_eq: "table_inv table \<Longrightarrow> materialize Alloc_ok table = contents table"
  using read_text_correct [of table Alloc_ok 0 "length (contents table)"] by (simp add: materialize_def table_inv_def)

text \<open>C4: Any sequence of insertions and erasures on a piece table, with any of them running out of memory, has
  the effect of the accepted edits on a plain byte string: reading the whole table back gives exactly that
  string, and its line starts, size and pieces stay consistent.\<close>

theorem piece_table_refines_bytes:
  assumes "table_inv table" and "run_edits insert_text erase_text edits table = (accepted, table')"
  shows "table_inv table' \<and> contents table' = fold apply_edit accepted (contents table) \<and>
    materialize Alloc_ok table' = fold apply_edit accepted (contents table)"
  using pieces.run_refines [OF assms] materialize_eq by simp

text \<open>C22: An insertion into a piece table is accepted exactly when the position lies in the document, the text is
  not empty, the document and the insertion buffer stay within 8 MiB, memory suffices, and the pieces, one
  more at a piece boundary and two more inside a piece, stay within 65536 before neighbours are merged; an
  accepted insertion puts the text at the position and a refused one changes nothing.\<close>

theorem insert_accepted_iff:
  assumes "table_inv table" and "insert_text alloc position text table = (ok, table')"
  shows "ok = (position \<le> length (contents table) \<and> text \<noteq> [] \<and> length (contents table) + length text \<le> 8388608 \<and>
      length (pt_added table) + length text \<le> 8388608 \<and> alloc = Alloc_ok \<and>
      length (pt_pieces table) + (if at_boundary position 0 (pt_pieces table) then 1 else 2) \<le> 65536) \<and>
    (if ok then contents table' = take position (contents table) @ text @ drop position (contents table)
     else table' = table)"
proof -
  have sz: "pt_size table = length (contents table)" and "length (contents table) = sum_list (map pc_length (pt_pieces table))"
    using assms(1) contents_length by (auto simp: table_inv_def contents_def)
  then have "insert_accepts alloc position text table = (position \<le> length (contents table) \<and> text \<noteq> [] \<and>
      length (contents table) + length text \<le> 8388608 \<and> length (pt_added table) + length text \<le> 8388608 \<and> alloc = Alloc_ok \<and>
      length (pt_pieces table) + (if at_boundary position 0 (pt_pieces table) then 1 else 2) \<le> 65536)"
    using insert_pieces_count [of 0 position "pt_pieces table"] unfolding insert_accepts_def by auto
  with insert_text_correct [OF assms(2,1)] show ?thesis by simp
qed

text \<open>C23: Every line number below the line count has a range, and reading that range gives the line: the text
  between two newlines of the document; the line count is the number of lines.\<close>

theorem line_lookup:
  assumes "table_inv table" and "line < line_count table"
  shows "line_count table = length (lines_of (contents table)) \<and>
    (\<exists>position count. line_range line table = Some (position, count) \<and>
      read_text Alloc_ok position count table = (True, lines_of (contents table) ! line))"
  using line_range_correct [OF assms] read_text_correct [OF assms(1)] by auto

text \<open>A document of which every second byte was erased.\<close>

definition comb_pieces :: "nat \<Rightarrow> nat \<Rightarrow> piece list" where
  "comb_pieces n i = map (\<lambda>j. \<lparr>pc_source = Original, pc_offset = 2 * j, pc_length = 1\<rparr>) [0..<i] @
     [\<lparr>pc_source = Original, pc_offset = 2 * i, pc_length = n - 2 * i\<rparr>]"

definition comb_table :: "nat \<Rightarrow> nat \<Rightarrow> piece_table" where
  "comb_table n i = \<lparr>pt_original = replicate n 0x61, pt_added = [], pt_pieces = comb_pieces n i,
     pt_line_starts = [0], pt_size = n - i, pt_secure_storage = False\<rparr>"

lemma coalesce_onto_id: "coalesced (rev merged @ pcs) \<Longrightarrow> coalesce_onto merged pcs = rev merged @ pcs"
  by (induction merged pcs rule: coalesce_onto.induct) (auto simp: coalesced_def successively_append_iff)

lemma coalesce_id: "coalesced pcs \<Longrightarrow> coalesce pcs = pcs"
  using coalesce_onto_id [of "[]" pcs] by (simp add: coalesce_def)

lemma comb_coalesced: "coalesced (comb_pieces n i)"
  by (auto simp: coalesced_def comb_pieces_def successively_conv_nth adjacent_def nth_append)

lemma erase_pieces_before:
  "cursor + sum_list (map pc_length pcs) \<le> position \<Longrightarrow>
   erase_pieces position stop cursor (pcs @ rest) = pcs @ erase_pieces position stop (cursor + sum_list (map pc_length pcs)) rest"
  by (induction pcs arbitrary: cursor) (simp_all add: add.assoc)

lemma comb_erase:
  assumes "2 * i + 2 < n"
  shows "erase_pieces (i + 1) (i + 2) 0 (comb_pieces n i) = comb_pieces n (i + 1)"
proof -
  let ?pre = "map (\<lambda>j. \<lparr>pc_source = Original, pc_offset = 2 * j, pc_length = 1\<rparr>) [0..<i]"
  have s: "sum_list (map pc_length ?pre) = i" by (simp add: comp_def sum_list_triv)
  have "erase_pieces (i + 1) (i + 2) i [\<lparr>pc_source = Original, pc_offset = 2 * i, pc_length = n - 2 * i\<rparr>] =
      [\<lparr>pc_source = Original, pc_offset = 2 * i, pc_length = 1\<rparr>, \<lparr>pc_source = Original, pc_offset = 2 * i + 2, pc_length = n - (2 * i + 2)\<rparr>]"
    using assms by (auto simp: Let_def)
  then show ?thesis using erase_pieces_before [of 0 ?pre "i + 1" "i + 2"] s by (simp add: comb_pieces_def)
qed

lemma newlines_none: "0x0a \<notin> set bs \<Longrightarrow> newlines i bs = []"
  by (induction bs arbitrary: i) auto

lemma comb_bytes: "set (pieces_bytes (replicate n b) [] pcs) \<subseteq> {b}"
  by (auto simp: pieces_bytes_def piece_bytes_def piece_text_def dest!: in_set_takeD in_set_dropD split: piece_source.splits)

lemma comb_lines: "rebuild_line_index (replicate n 0x61) [] pcs = [0]"
proof -
  have "0x0a \<notin> set (pieces_bytes (replicate n 0x61) [] pcs)"
    using subsetD [OF comb_bytes, where c = "0x0a"] by fastforce
  then show ?thesis by (simp add: rebuild_line_index_eq newlines_none)
qed

lemma comb_step:
  assumes "2 * i + 2 < n"
  shows "erase_text Alloc_ok (i + 1) 1 (comb_table n i) = (True, comb_table n (i + 1))"
proof -
  have "coalesce (erase_pieces (i + 1) (i + 1 + 1) 0 (comb_pieces n i)) = comb_pieces n (i + 1)"
    using comb_erase [OF assms] coalesce_id [OF comb_coalesced] by simp
  then show ?thesis using assms by (simp add: erase_text_def comb_table_def comb_lines)
qed

lemma comb_run:
  "2 * (i + k) < n \<Longrightarrow> run_edits insert_text erase_text (map (\<lambda>j. Erase Alloc_ok (j + 1) 1) [i..<i + k]) (comb_table n i) =
   (map (\<lambda>j. Erase Alloc_ok (j + 1) 1) [i..<i + k], comb_table n (i + k))"
proof (induction k arbitrary: i)
  case (Suc k)
  have "[i..<i + Suc k] = i # [i + 1..<(i + 1) + k]" using upt_conv_Cons [of i "i + Suc k"] by simp
  moreover have "erase_text Alloc_ok (i + 1) 1 (comb_table n i) = (True, comb_table n (i + 1))" using comb_step Suc.prems by simp
  ultimately show ?case using Suc.IH [of "i + 1"] Suc.prems by simp
qed simp

text \<open>C40: Erasing is not subject to the limit of 65536 pieces: from a document of 131073 bytes, erasing single bytes
  inside the last piece is accepted each time and leaves more pieces than \<open>kMaxPieces\<close>.\<close>

theorem erase_exceeds_piece_limit:
  "\<exists>original table edits table'. set_original Alloc_ok original empty_table = (True, table) \<and>
     run_edits insert_text erase_text edits table = (edits, table') \<and> length (pt_pieces table') = 65536 + 1"
proof -
  have "set_original Alloc_ok (replicate 131073 0x61) empty_table = (True, comb_table 131073 0)"
    by (simp add: set_original_def comb_lines comb_table_def comb_pieces_def empty_table_def)
  moreover have "length (pt_pieces (comb_table 131073 (0 + 65536))) = 65536 + 1" by (simp add: comb_table_def comb_pieces_def)
  moreover have "2 * (0 + 65536) < (131073 :: nat)" by simp
  note comb_run [OF this]
  ultimately show ?thesis by blast
qed
section \<open>A sample document\<close>

definition sample_table :: piece_table where
  "sample_table = snd (set_original Alloc_ok [0x61, 0x0a, 0x62] empty_table)"

definition sample_edits :: "allocation edit list" where
  "sample_edits = [Insert Alloc_ok 2 [0x63], Insert Alloc_index_fails 0 [0x64], Erase Alloc_ok 0 1]"

lemmas sample_defs = set_original_def insert_text_def erase_text_def rebuild_line_index_def coalesce_def adjacent_def
  piece_text_def empty_table_def sample_table_def sample_edits_def truncate_added_def Let_def

lemma sample_table_inv: "table_inv sample_table" "contents sample_table = [0x61, 0x0a, 0x62]"
  using set_original_correct [of Alloc_ok "[0x61, 0x0a, 0x62]" empty_table True sample_table] empty_table_inv
  by (simp_all add: sample_table_def set_original_def Let_def)

theorem piece_table_refines_bytes_witness:
  "\<exists>table'. run_edits insert_text erase_text sample_edits sample_table = ([sample_edits ! 0, sample_edits ! 2], table') \<and>
     materialize Alloc_ok table' = [0x0a, 0x63, 0x62]"
proof -
  obtain table' where r: "run_edits insert_text erase_text sample_edits sample_table = ([sample_edits ! 0, sample_edits ! 2], table')"
    by (simp add: sample_defs)
  show ?thesis
    using piece_table_refines_bytes [OF sample_table_inv(1) r] r by (simp add: sample_table_inv(2) sample_edits_def)
qed

theorem insert_accepted_iff_witness:
  "\<exists>table'. insert_text Alloc_ok 1 [0x63] sample_table = (True, table') \<and> contents table' = [0x61, 0x63, 0x0a, 0x62]"
proof -
  obtain ok table' where i: "insert_text Alloc_ok 1 [0x63] sample_table = (ok, table')" by fastforce
  have "length (pt_pieces sample_table) = 1" "pt_added sample_table = []" by (simp_all add: sample_defs)
  then show ?thesis using insert_accepted_iff [OF sample_table_inv(1) i] i by (simp add: sample_table_inv(2))
qed

theorem line_lookup_witness:
  "\<exists>position count. line_range 1 sample_table = Some (position, count) \<and>
     read_text Alloc_ok position count sample_table = (True, [0x62])"
proof -
  have "1 < line_count sample_table" by (simp add: sample_defs line_count_def)
  from line_lookup [OF sample_table_inv(1) this] show ?thesis by (simp add: sample_table_inv(2))
qed

end
